(* ===== verification/Prelude.thy ===== *)
theory Prelude
  imports Main "HOL-Library.Word" "HOL-Library.Multiset" "HOL-Library.State_Monad"
    "HOL-Library.Char_ord" "HOL-Library.List_Lexorder" "HOL-Library.Product_Lexorder"
begin

text \<open>
  What every other theory of the development uses: the names of the machine integers, the
  collections of facts the proofs draw on, and generic lemmas on lists, multisets, words and
  the state monad.
  \<^item> \<open>run_simps\<close>: equations that run a monadic operation of the model from a given state.
  \<^item> \<open>emits_intros\<close>: the rules that bound what an operation appends to the trace
    (theory World).
  \<^item> \<open>keeps_intros\<close>: the rules that show that an operation preserves a predicate of the state.
  \<^item> \<open>frame_intros\<close>: the rules that show that an operation leaves the locals of the function
    that calls it alone (theory World).
  \<^item> \<open>stream_simps\<close>: what reading back a written item gives (theory DataStream).
\<close>

named_theorems run_simps
named_theorems emits_intros
named_theorems keeps_intros
named_theorems frame_intros
named_theorems stream_simps

section \<open>Machine integers\<close>

type_synonym i32 = "32 word"
type_synonym u32 = "32 word"
type_synonym u16 = "16 word"

lemma sint_i32_range: "- (2 ^ 31) \<le> sint (x :: i32) \<and> sint x < 2 ^ 31"
  using sint_range_size [of x] by (simp add: word_size)

section \<open>Lists and multisets\<close>

lemma foldl_add_mset: "foldl (\<lambda>m x. add_mset (f x) m) M xs = M + image_mset f (mset xs)"
  by (induction xs arbitrary: M) auto

lemma find_Some_iff_first:
  "List.find P xs = Some x \<Longrightarrow> P x \<and> x \<in> set xs"
  by (induction xs) (auto split: if_splits)

lemma find_map: "List.find P (map f xs) = map_option f (List.find (\<lambda>x. P (f x)) xs)"
  by (induction xs) auto

lemma find_append:
  "List.find P (xs @ ys) = (case List.find P xs of Some x \<Rightarrow> Some x | None \<Rightarrow> List.find P ys)"
  by (induction xs) auto

lemma list_all2_map_self: "(\<And>x. x \<in> set xs \<Longrightarrow> R x (f x)) \<Longrightarrow> list_all2 R xs (map f xs)"
  by (induction xs) auto

lemma count_list_pos_iff: "0 < count_list xs x \<longleftrightarrow> x \<in> set xs"
  by (metis count_list_0_iff neq0_conv)

section \<open>The state monad\<close>

text \<open>
  The effectful code is written in the library's state monad. A loop over a list is
  \<open>for_each\<close>, the C++ range-for; \<open>whenM\<close> is an \<open>if\<close> without an \<open>else\<close>.
\<close>

definition whenM :: "bool \<Rightarrow> ('s, unit) state \<Rightarrow> ('s, unit) state" where
  "whenM b m = (if b then m else State_Monad.return ())"

fun for_each :: "'a list \<Rightarrow> ('a \<Rightarrow> ('s, unit) state) \<Rightarrow> ('s, unit) state" where
  "for_each [] f = State_Monad.return ()"
| "for_each (x # xs) f = do { f x; for_each xs f }"

lemma run_state_whenM [simp]:
  "run_state (whenM b m) s = (if b then run_state m s else ((), s))"
  by (simp add: whenM_def)

lemma run_state_update [simp]: "run_state (State_Monad.update f) s = ((), f s)"
  by (simp add: State_Monad.update_def)

lemma for_each_append:
  "for_each (xs @ ys) f = do { for_each xs f; for_each ys f }"
  by (induction xs) (auto intro: state_ext)

end
