(* ===== verification/QtText.thy ===== *)
theory QtText
  imports Prelude "HOL-Library.Sublist"
begin

text \<open>
  The string operations of the source. A \<open>QString\<close> is a HOL string; only operations that do
  not depend on the encoding are used on it. \<open>startsWith\<close> and \<open>endsWith\<close> are the library's
  \<open>prefix\<close> and \<open>suffix\<close>; \<open>replace_all\<close> is \<open>QString::replace\<close> (left to right, occurrences do
  not overlap), \<open>split_on\<close> is \<open>QString::split\<close> on a character, \<open>join\<close> is
  \<open>QStringList::join\<close>, \<open>trimmed\<close> and \<open>toLower\<close> are the methods of these names, \<open>show_nat\<close>
  and \<open>parse_nat\<close> are the decimal conversions of \<open>QString::number\<close> and \<open>toInt\<close>.
\<close>

abbreviation startsWith :: "string \<Rightarrow> string \<Rightarrow> bool" where
  "startsWith s p \<equiv> prefix p s"

abbreviation endsWith :: "string \<Rightarrow> string \<Rightarrow> bool" where
  "endsWith s p \<equiv> suffix p s"

section \<open>Replacing\<close>

function replace_all :: "string \<Rightarrow> string \<Rightarrow> string \<Rightarrow> string" where
  "replace_all b a [] = []"
| "replace_all b a (c # cs) =
     (if b \<noteq> [] \<and> prefix b (c # cs) then a @ replace_all b a (drop (length b) (c # cs))
      else c # replace_all b a cs)"
  by pat_completeness auto
termination
  by (relation "measure (\<lambda>(b, a, s). length s)") auto

lemma replace_all_single [simp]:
  "replace_all [d] a (c # cs) = (if c = d then a @ replace_all [d] a cs else c # replace_all [d] a cs)"
  by auto

lemma replace_all_append_char:
  "replace_all [d] a (xs @ ys) = replace_all [d] a xs @ replace_all [d] a ys"
  by (induction xs) (auto simp del: replace_all.simps(2))

lemma replace_all_absent:
  "c \<in> set b \<Longrightarrow> c \<notin> set s \<Longrightarrow> replace_all b a s = s"
proof (induction s)
  case Nil
  then show ?case by simp
next
  case (Cons x xs)
  then have "\<not> prefix b (x # xs)"
    by (metis prefix_order.dual_order.refl set_mono_prefix subsetD)
  with Cons show ?case by simp
qed

lemma replace_all_at_match:
  "b \<noteq> [] \<Longrightarrow> replace_all b a (b @ s) = a @ replace_all b a s"
  by (cases b) auto

text \<open>
  Replacing \<open>m\<close> by a token that starts with a character the text does not contain can be
  undone: no occurrence of the token arises but those the first replacement made.
\<close>

lemma replace_all_undo:
  assumes "t = c # t'" and "c \<notin> set s" and "c \<notin> set m"
  shows "replace_all t m (replace_all m t s) = s"
  using assms(2)
proof (induction s rule: measure_induct_rule [of length])
  case (less s)
  show ?case
  proof (cases s)
    case Nil
    then show ?thesis by simp
  next
    case s: (Cons x xs)
    show ?thesis
    proof (cases "m \<noteq> [] \<and> prefix m s")
      case True
      then obtain r where r: "s = m @ r" by (auto simp: prefix_def)
      with True less have "replace_all t m (replace_all m t r) = r" by simp
      then show ?thesis
        using r True assms(1) by (simp add: replace_all_at_match)
    next
      case False
      with s have "replace_all m t s = x # replace_all m t xs" by auto
      moreover have "replace_all t m (replace_all m t xs) = xs"
        using less s by simp
      moreover have "x \<noteq> c" using less.prems s by auto
      ultimately show ?thesis using s assms(1) by simp
    qed
  qed
qed

section \<open>Splitting and joining\<close>

fun split_on :: "char \<Rightarrow> string \<Rightarrow> string list" where
  "split_on d [] = [[]]"
| "split_on d (c # cs) =
     (if c = d then [] # split_on d cs
      else (case split_on d cs of [] \<Rightarrow> [[c]] | w # ws \<Rightarrow> (c # w) # ws))"

fun join :: "string \<Rightarrow> string list \<Rightarrow> string" where
  "join sep [] = []"
| "join sep [x] = x"
| "join sep (x # y # ys) = x @ sep @ join sep (y # ys)"

lemma split_on_neq_Nil [simp]: "split_on d s \<noteq> []"
  by (cases s) (auto split: list.splits)

lemma split_on_absent: "d \<notin> set s \<Longrightarrow> split_on d s = [s]"
  by (induction s) auto

lemma split_on_append:
  "d \<notin> set w \<Longrightarrow> split_on d (w @ d # s) = w # split_on d s"
  by (induction w) auto

lemma split_on_join:
  "ws \<noteq> [] \<Longrightarrow> \<forall>w \<in> set ws. d \<notin> set w \<Longrightarrow> split_on d (join [d] ws) = ws"
  by (induction "[d]" ws rule: join.induct) (auto simp: split_on_absent split_on_append)

lemma join_split_on: "join [d] (split_on d s) = s"
proof (induction s)
  case Nil
  then show ?case by simp
next
  case (Cons c cs)
  obtain w ws where "split_on d cs = w # ws"
    by (meson split_on_neq_Nil neq_Nil_conv)
  with Cons show ?case by (cases ws) auto
qed

lemma split_on_no_sep: "w \<in> set (split_on d s) \<Longrightarrow> d \<notin> set w"
proof (induction s arbitrary: w)
  case Nil
  then show ?case by simp
next
  case (Cons c cs)
  obtain v vs where "split_on d cs = v # vs"
    by (meson split_on_neq_Nil neq_Nil_conv)
  with Cons show ?case by (auto split: if_splits)
qed

section \<open>Trimming and case\<close>

definition is_space :: "char \<Rightarrow> bool" where
  "is_space c \<longleftrightarrow> c \<in> {CHR '' '', CHR 0x09, CHR 0x0A, CHR 0x0B, CHR 0x0C, CHR 0x0D, CHR 0x85, CHR 0xA0}"

definition trimmed :: "string \<Rightarrow> string" where
  "trimmed s = rev (dropWhile is_space (rev (dropWhile is_space s)))"

definition lower_char :: "char \<Rightarrow> char" where
  "lower_char c =
     (let n = (of_char c :: nat) in
      if 65 \<le> n \<and> n \<le> 90 \<or> 192 \<le> n \<and> n \<le> 222 \<and> n \<noteq> 215 then char_of (n + 32) else c)"

definition toLower :: "string \<Rightarrow> string" where
  "toLower s = map lower_char s"

lemma trimmed_no_space: "\<forall>c \<in> set s. \<not> is_space c \<Longrightarrow> trimmed s = s"
  by (simp add: trimmed_def dropWhile_eq_self_iff)
     (metis dropWhile_eq_self_iff hd_in_set rev_rev_ident set_rev)

section \<open>Decimal numbers\<close>

definition digit :: "nat \<Rightarrow> char" where
  "digit d = char_of (48 + d)"

definition digit_val :: "char \<Rightarrow> nat" where
  "digit_val c = of_char c - 48"

definition is_digit :: "char \<Rightarrow> bool" where
  "is_digit c \<longleftrightarrow> 48 \<le> (of_char c :: nat) \<and> (of_char c :: nat) \<le> 57"

fun show_nat :: "nat \<Rightarrow> string" where
  "show_nat n = (if n < 10 then [digit n] else show_nat (n div 10) @ [digit (n mod 10)])"

declare show_nat.simps [simp del]

definition digits_val :: "string \<Rightarrow> nat" where
  "digits_val s = foldl (\<lambda>n c. 10 * n + digit_val c) 0 s"

definition parse_nat :: "string \<Rightarrow> nat option" where
  "parse_nat s = (if s \<noteq> [] \<and> list_all is_digit s then Some (digits_val s) else None)"

lemma of_char_digit: "d < 10 \<Longrightarrow> (of_char (digit d) :: nat) = 48 + d"
  by (simp add: digit_def)

lemma digit_val_digit: "d < 10 \<Longrightarrow> digit_val (digit d) = d"
  by (simp add: digit_val_def of_char_digit)

lemma is_digit_digit: "d < 10 \<Longrightarrow> is_digit (digit d)"
  by (simp add: is_digit_def of_char_digit)

lemma show_nat_digits: "list_all is_digit (show_nat n)"
proof (induction n rule: show_nat.induct)
  case (1 n)
  then show ?case
    by (subst show_nat.simps) (simp add: is_digit_digit)
qed

lemma show_nat_neq_Nil [simp]: "show_nat n \<noteq> []"
  by (subst show_nat.simps) simp

lemma show_nat_digit: "n < 10 \<Longrightarrow> show_nat n = [digit n]"
  by (simp add: show_nat.simps)

lemma length_show_nat: "n < 10 ^ k \<Longrightarrow> 0 < k \<Longrightarrow> length (show_nat n) \<le> k"
proof (induction n arbitrary: k rule: show_nat.induct)
  case (1 n)
  show ?case
  proof (cases "n < 10")
    case True
    with 1 show ?thesis by (simp add: show_nat_digit)
  next
    case False
    with "1.prems" have "k \<noteq> 1" by auto
    with "1.prems" obtain j where j: "k = Suc j" "0 < j" by (cases k) auto
    with "1.prems" have "n div 10 < 10 ^ j" by (simp add: less_mult_imp_div_less mult.commute)
    from "1.IH" [OF False this j(2)] False j(1) show ?thesis
      by (subst show_nat.simps) simp
  qed
qed

lemma digits_val_show_nat: "digits_val (show_nat n) = n"
proof (induction n rule: show_nat.induct)
  case (1 n)
  show ?case
  proof (cases "n < 10")
    case True
    then show ?thesis
      by (subst show_nat.simps) (simp add: digits_val_def digit_val_digit)
  next
    case False
    with 1 have "digits_val (show_nat (n div 10)) = n div 10" by simp
    with False show ?thesis
      by (subst show_nat.simps) (simp add: digits_val_def digit_val_digit)
  qed
qed

lemma parse_show_nat [simp]: "parse_nat (show_nat n) = Some n"
  by (simp add: parse_nat_def show_nat_digits digits_val_show_nat)

lemma show_nat_inject [simp]: "show_nat m = show_nat n \<longleftrightarrow> m = n"
  by (metis digits_val_show_nat)

lemma show_nat_no_space: "c \<in> set (show_nat n) \<Longrightarrow> is_digit c"
  using show_nat_digits [of n] by (auto simp: list_all_iff)

lemma is_digit_not_space: "is_digit c \<Longrightarrow> \<not> is_space c \<and> c \<noteq> CHR ''-'' \<and> c \<noteq> CHR ''+''"
  by (auto simp: is_digit_def is_space_def)

definition show_int :: "int \<Rightarrow> string" where
  "show_int i = (if i < 0 then CHR ''-'' # show_nat (nat (- i)) else show_nat (nat i))"

definition parse_int :: "string \<Rightarrow> int option" where
  "parse_int s =
     (case trimmed s of
        [] \<Rightarrow> None
      | c # cs \<Rightarrow>
          if c = CHR ''-'' then map_option (\<lambda>n. - int n) (parse_nat cs)
          else if c = CHR ''+'' then map_option int (parse_nat cs)
          else map_option int (parse_nat (c # cs)))"

lemma trimmed_show_int [simp]: "trimmed (show_int i) = show_int i"
proof (rule trimmed_no_space)
  show "\<forall>c \<in> set (show_int i). \<not> is_space c"
    by (auto simp: show_int_def is_space_def dest!: show_nat_no_space) (auto simp: is_digit_def)
qed

lemma parse_show_int [simp]: "parse_int (show_int i) = Some i"
proof (cases "i < 0")
  case True
  then show ?thesis
    unfolding parse_int_def trimmed_show_int by (simp add: show_int_def)
next
  case False
  obtain c cs where c: "show_nat (nat i) = c # cs" by (cases "show_nat (nat i)") auto
  then have "is_digit c" using show_nat_no_space by (metis list.set_intros(1))
  then have "c \<noteq> CHR ''-''" "c \<noteq> CHR ''+''" using is_digit_not_space by blast+
  moreover have "parse_nat (c # cs) = Some (nat i)" by (simp flip: c)
  ultimately show ?thesis
    using False unfolding parse_int_def trimmed_show_int by (simp add: show_int_def c)
qed

end
