(* ===== verification/World.thy ===== *)
theory World
  imports QtText
begin

text \<open>
  The world the library acts on, and the vocabulary of its effects.
  \<^item> \<open>sys\<close> is the part of the operating system the code reads and writes itself: regular
    files, directories, the mount table. What a settings file holds is given as the key map
    QSettings reads from it. A path for which \<open>refused\<close> holds is one the operating system
    does not let the process create, change or delete. The field \<open>rest\<close> is everything
    else and is never looked at.
  \<^item> \<open>ext\<close> collects what is not code of the library: the programs it starts, the clock, the
    user database, udev, blkid, the network and the SMTP library. Its fields are arbitrary functions; what a
    theorem needs of them is a hypothesis of that theorem.
  \<^item> \<open>event\<close> is one effect, and \<open>trace\<close> the effects so far, in the order they happened.
  The operations at the end are the monadic versions the larger functions are written in.
\<close>

section \<open>Files, directories and mounts\<close>

datatype perm = ReadOwner | WriteOwner | ExeOwner | ReadGroup | ExeGroup | ReadOther

type_synonym settings = "string list \<Rightarrow> string option"

datatype body = Settings settings | Plain string

record qfile =
  f_body :: body
  f_mode :: "perm set"

record 'w sys =
  files :: "(string \<times> qfile) list"
  dirs :: "string set"
  dir_mode :: "string \<Rightarrow> perm set"
  refused :: "string \<Rightarrow> bool"
  new_mode :: "perm set"
  mtab :: "(string \<times> string) list option"
  rest :: 'w

definition file_at :: "'w sys \<Rightarrow> string \<Rightarrow> qfile option" where
  "file_at s p = map_of (files s) p"

definition path_exists :: "'w sys \<Rightarrow> string \<Rightarrow> bool" where
  "path_exists s p \<longleftrightarrow> file_at s p \<noteq> None \<or> p \<in> dirs s"

text \<open>\<open>QFile::remove\<close>: true exactly when a regular file was removed.\<close>

definition file_remove :: "string \<Rightarrow> 'w sys \<Rightarrow> bool \<times> 'w sys" where
  "file_remove p s =
     (if file_at s p \<noteq> None \<and> \<not> refused s p
      then (True, s\<lparr>files := filter (\<lambda>e. fst e \<noteq> p) (files s)\<rparr>)
      else (False, s))"

text \<open>Writing a whole file: a new file is appended to its directory with the mode the umask leaves.\<close>

fun put_file :: "string \<Rightarrow> qfile \<Rightarrow> (string \<times> qfile) list \<Rightarrow> (string \<times> qfile) list" where
  "put_file p f [] = [(p, f)]"
| "put_file p f (e # es) = (if fst e = p then (p, f) # es else e # put_file p f es)"

definition file_write :: "string \<Rightarrow> body \<Rightarrow> 'w sys \<Rightarrow> 'w sys" where
  "file_write p b s =
     (if refused s p then s
      else s\<lparr>files := put_file p \<lparr>f_body = b,
               f_mode = (case file_at s p of None \<Rightarrow> new_mode s | Some f \<Rightarrow> f_mode f)\<rparr> (files s)\<rparr>)"

text \<open>\<open>QFile::setPermissions\<close>, on a file or a directory.\<close>

definition set_mode :: "string \<Rightarrow> perm set \<Rightarrow> 'w sys \<Rightarrow> 'w sys" where
  "set_mode p m s =
     (if refused s p then s
      else (case file_at s p of
              Some f \<Rightarrow> s\<lparr>files := put_file p (f\<lparr>f_mode := m\<rparr>) (files s)\<rparr>
            | None \<Rightarrow> if p \<in> dirs s then s\<lparr>dir_mode := (dir_mode s)(p := m)\<rparr> else s))"

text \<open>\<open>QFile::rename\<close>: refuses to overwrite an existing target.\<close>

definition file_rename :: "string \<Rightarrow> string \<Rightarrow> 'w sys \<Rightarrow> bool \<times> 'w sys" where
  "file_rename old new s =
     (case file_at s old of
        None \<Rightarrow> (False, s)
      | Some f \<Rightarrow>
          if path_exists s new \<or> refused s old \<or> refused s new then (False, s)
          else (True, s\<lparr>files := map (\<lambda>e. if fst e = old then (new, snd e) else e) (files s)\<rparr>))"

text \<open>\<open>QDir::mkpath\<close>: the directory and every missing parent.\<close>

definition parents :: "string \<Rightarrow> string set" where
  "parents p = {take i p | i. i < length p \<and> 0 < i \<and> p ! i = CHR ''/''}"

definition mkpath :: "string \<Rightarrow> 'w sys \<Rightarrow> 'w sys" where
  "mkpath p s = (if refused s p then s else s\<lparr>dirs := insert p (parents p \<union> dirs s)\<rparr>)"

text \<open>\<open>QDir::mkdir\<close> and \<open>QDir::rmdir\<close>: one directory; only an empty one is removed.\<close>

definition mkdir :: "string \<Rightarrow> 'w sys \<Rightarrow> 'w sys" where
  "mkdir p s = (if refused s p then s else s\<lparr>dirs := insert p (dirs s)\<rparr>)"

definition rmdir :: "string \<Rightarrow> 'w sys \<Rightarrow> 'w sys" where
  "rmdir p s =
     (if refused s p \<or> (\<exists>q \<in> fst ` set (files s) \<union> dirs s. prefix (p @ ''/'') q) then s
      else s\<lparr>dirs := dirs s - {p}\<rparr>)"

text \<open>
  \<open>QDirIterator\<close> on a directory: the paths of its entries, without those of subdirectories,
  in the order the directory holds them.
\<close>

definition dir_entries :: "string \<Rightarrow> 'w sys \<Rightarrow> string list" where
  "dir_entries d s =
     filter (\<lambda>p. prefix (d @ ''/'') p \<and> CHR ''/'' \<notin> set (drop (length d + 1) p)) (map fst (files s))"

section \<open>Facts about the file operations\<close>

lemma mtab_file_ops [simp]:
  "mtab (file_write p b s) = mtab s" "mtab (set_mode p m s) = mtab s" "mtab (mkpath p s) = mtab s"
  "mtab (mkdir p s) = mtab s" "mtab (rmdir p s) = mtab s" "mtab (snd (file_remove p s)) = mtab s"
  by (simp_all add: file_write_def set_mode_def mkpath_def mkdir_def rmdir_def file_remove_def
      split: option.split)

definition wf_files :: "'w sys \<Rightarrow> bool" where
  "wf_files s \<longleftrightarrow> distinct (map fst (files s))"

lemma map_of_put_file: "map_of (put_file p f es) = (map_of es)(p \<mapsto> f)"
  by (induction es) auto

lemma fst_put_file:
  "map fst (put_file p f es) = (if p \<in> fst ` set es then map fst es else map fst es @ [p])"
  by (induction es) auto

lemma map_of_filter_key: "map_of (filter (\<lambda>e. fst e \<noteq> p) es) = (map_of es)(p := None)"
  by (induction es) auto

lemma file_at_remove:
  "snd (file_remove p s) = s' \<Longrightarrow> \<not> refused s p \<Longrightarrow> file_at s' q = (if q = p then None else file_at s q)"
  by (auto simp: file_remove_def file_at_def map_of_filter_key)

lemma file_at_write:
  "\<not> refused s p \<Longrightarrow> file_at (file_write p b s) q =
     (if q = p then Some \<lparr>f_body = b, f_mode = (case file_at s p of None \<Rightarrow> new_mode s | Some f \<Rightarrow> f_mode f)\<rparr>
      else file_at s q)"
  by (simp add: file_write_def file_at_def map_of_put_file)

lemma file_at_set_mode:
  "file_at (set_mode p m s) q =
     (if q = p \<and> \<not> refused s p then map_option (\<lambda>f. f\<lparr>f_mode := m\<rparr>) (file_at s q) else file_at s q)"
  by (auto simp: set_mode_def file_at_def map_of_put_file split: option.splits)

lemma file_at_mkpath [simp]: "file_at (mkpath p s) q = file_at s q"
  by (simp add: mkpath_def file_at_def)

lemma refused_ops [simp]:
  "refused (snd (file_remove p s)) = refused s"
  "refused (file_write p b s) = refused s"
  "refused (set_mode p m s) = refused s"
  "refused (mkpath p s) = refused s"
  "refused (snd (file_rename p q s)) = refused s"
  by (auto simp: file_remove_def file_write_def set_mode_def mkpath_def file_rename_def
      split: option.splits)

section \<open>What lies outside the library\<close>

text \<open>
  A started program. \<open>Argv\<close> is \<open>QProcess::start(program, args)\<close>, \<open>ArgvIn\<close> the same with data
  for the standard input, \<open>ArgvEnv\<close> with environment variables added, \<open>CmdLine\<close> is
  \<open>startCommand\<close>, \<open>Bash\<close> is \<open>bash -c\<close>, \<open>AsUser\<close> a program started with the supplementary
  groups, group and user id set in the child, and with a fresh environment.
\<close>

datatype cmd =
    Argv string "string list"
  | ArgvIn string "string list" string
  | ArgvEnv string "string list" "(string \<times> string) list"
  | CmdLine string
  | Bash string
  | AsUser string nat nat "nat list" "(string \<times> string) list"

datatype proc_end = Exited int | FailedToStart | Unfinished

record presult =
  p_end :: proc_end
  p_out :: string

text \<open>
  \<open>QProcess::exitCode()\<close>, which the library's run functions return: the exit code of the
  process if it finished, and 0, the initial value, if it never started or is still running
  when the wait for it timed out.
\<close>

definition p_code :: "presult \<Rightarrow> int" where
  "p_code r = (case p_end r of Exited n \<Rightarrow> n | FailedToStart \<Rightarrow> 0 | Unfinished \<Rightarrow> 0)"

lemma p_code_simps [simp]:
  "p_code \<lparr>p_end = Exited n, p_out = t\<rparr> = n"
  "p_code \<lparr>p_end = FailedToStart, p_out = t\<rparr> = 0"
  "p_code \<lparr>p_end = Unfinished, p_out = t\<rparr> = 0"
  by (simp_all add: p_code_def)

record pipe_result =
  pipe_code1 :: int
  pipe_normal1 :: bool
  pipe_code2 :: int
  pipe_normal2 :: bool

record user =
  u_uid :: nat
  u_gid :: nat
  u_home :: string
  u_groups :: "nat list"

datatype json =
    JNull
  | JBool bool
  | JNum int
  | JReal string
  | JStr string
  | JArr "json list"
  | JObj "(string \<times> json) list"

text \<open>
  What a TLS connection to a host meets: no error that \<open>sslErrors\<close> reports, or errors together
  with the SHA-256 digest of the leaf certificate the peer presented (\<open>None\<close>: no certificate).
\<close>

datatype peer = NoTlsErrors | TlsErrors "8 word list option"

record request =
  r_method :: string
  r_url :: string
  r_cookies :: "(string \<times> string) list"
  r_body :: string

record reply =
  y_status :: int
  y_json :: json
  y_raw :: string

record mail =
  mail_sender :: string
  mail_to :: string
  mail_subject :: string
  mail_content :: string
  mail_attachments :: "(string \<times> string) list"

text \<open>
  The calls into the SMTP library. A call throws, with the text of the exception, or returns;
  the value is that of \<open>startTLS\<close>, which reports by it whether the connection was upgraded.
\<close>

datatype smtp_call =
    SslInitialize
  | SmtpConnect string u16
  | SmtpConnectTls string u16
  | SmtpHello
  | SmtpStartTls
  | SmtpAuth string string
  | SmtpSend mail
  | SmtpClose

datatype smtp_outcome = Threw string | Did bool

record 'w ext =
  x_exec :: "cmd \<Rightarrow> 'w sys \<Rightarrow> presult \<times> 'w sys"
  x_pipe :: "string \<Rightarrow> string list \<Rightarrow> string \<Rightarrow> string list \<Rightarrow> 'w sys \<Rightarrow> pipe_result \<times> 'w sys"
  x_now :: "string \<Rightarrow> 'w sys \<Rightarrow> string \<times> 'w sys"
  x_utc :: "string \<Rightarrow> int \<Rightarrow> string"
  x_fstype :: "string \<Rightarrow> 'w sys \<Rightarrow> string"
  x_temp :: "string \<Rightarrow> 'w sys \<Rightarrow> string option"
  x_clean :: "string \<Rightarrow> string"
  x_absolute :: "string \<Rightarrow> string"
  x_canonical :: "string \<Rightarrow> 'w sys \<Rightarrow> string"
  x_user :: "string \<Rightarrow> user option"
  x_udev :: "'w sys \<Rightarrow> (string \<times> string) list list"
  x_probe :: "string \<Rightarrow> 'w sys \<Rightarrow> bool"
  x_numparts :: "string \<Rightarrow> 'w sys \<Rightarrow> int option"
  x_blkid :: "string \<Rightarrow> string \<Rightarrow> 'w sys \<Rightarrow> string option"
  x_peer :: "string \<Rightarrow> 'w sys \<Rightarrow> peer"
  x_http :: "request \<Rightarrow> 'w sys \<Rightarrow> reply \<times> 'w sys"
  x_letter :: "u16 \<Rightarrow> bool"
  x_upper :: "u16 \<Rightarrow> u16"
  x_percent :: "string \<Rightarrow> string"
  x_form :: "(string \<times> string) list \<Rightarrow> string"
  x_query_url :: "string \<Rightarrow> (string \<times> string) list \<Rightarrow> string"
  x_smtp :: "smtp_call \<Rightarrow> 'w sys \<Rightarrow> smtp_outcome \<times> 'w sys"
  x_filesize :: "string \<Rightarrow> 'w sys \<Rightarrow> int"
  x_symlink :: "string \<Rightarrow> 'w sys \<Rightarrow> bool"
  x_base64 :: "string \<Rightarrow> string"
  x_ini_text :: "settings \<Rightarrow> string"
  x_ini_parse :: "string \<Rightarrow> settings"
  x_text :: "string \<Rightarrow> string"
  x_order :: "(string \<times> string) multiset \<Rightarrow> (string \<times> string) list"

text \<open>
  A file read in text mode, and a text file read as settings: what \<open>QIODevice::Text\<close> makes of the ends
  of lines, and the INI format of settings, are left open.
\<close>

definition text_of :: "'w ext \<Rightarrow> qfile \<Rightarrow> string" where
  "text_of E f = x_text E (case f_body f of Plain t \<Rightarrow> t | Settings m \<Rightarrow> x_ini_text E m)"

definition keys_of :: "'w ext \<Rightarrow> qfile \<Rightarrow> settings" where
  "keys_of E f = (case f_body f of Settings m \<Rightarrow> m | Plain t \<Rightarrow> x_ini_parse E t)"

text \<open>The order in which a hash is iterated is not specified; that every entry comes once is.\<close>

definition order_ok :: "'w ext \<Rightarrow> bool" where
  "order_ok E \<longleftrightarrow> (\<forall>m. mset (x_order E m) = m)"

section \<open>Effects and their trace\<close>

datatype event =
    Exec cmd
  | ExecPipe string "string list" string "string list"
  | Log string
  | MakePath string
  | RemoveDir string
  | Delete string
  | DeleteTree string
  | WriteText string string
  | CopyFile string string
  | ChangeOwner string nat nat
  | Send request
  | Smtp smtp_call

record 'w st =
  os :: "'w sys"
  trace :: "event list"
  ssl_ready :: bool

text \<open>
  \<open>ssl_ready\<close> is the once-flag of tibackupmailer.cpp, static data of the process. The state is open
  for the local variables of the function being modelled.
\<close>

definition emit :: "event \<Rightarrow> (('w, 'z) st_scheme, unit) state" where
  "emit e = State_Monad.update (\<lambda>s. s\<lparr>trace := trace s @ [e]\<rparr>)"

definition asks :: "('w sys \<Rightarrow> 'a) \<Rightarrow> (('w, 'z) st_scheme, 'a) state" where
  "asks f = do { s \<leftarrow> State_Monad.get; State_Monad.return (f (os s)) }"

definition change :: "('w sys \<Rightarrow> 'a \<times> 'w sys) \<Rightarrow> (('w, 'z) st_scheme, 'a) state" where
  "change f = do {
     s \<leftarrow> State_Monad.get;
     let (x, t) = f (os s);
     State_Monad.set (s\<lparr>os := t\<rparr>);
     State_Monad.return x }"

definition say :: "string \<Rightarrow> (('w, 'z) st_scheme, unit) state" where
  "say msg = emit (Log msg)"

definition run_cmd :: "'w ext \<Rightarrow> cmd \<Rightarrow> (('w, 'z) st_scheme, presult) state" where
  "run_cmd E c = do { emit (Exec c); change (x_exec E c) }"

definition make_path :: "string \<Rightarrow> (('w, 'z) st_scheme, unit) state" where
  "make_path p = do { emit (MakePath p); change (\<lambda>s. ((), mkpath p s)) }"

definition make_dir :: "string \<Rightarrow> (('w, 'z) st_scheme, unit) state" where
  "make_dir p = do { emit (MakePath p); change (\<lambda>s. ((), mkdir p s)) }"

definition remove_dir :: "string \<Rightarrow> (('w, 'z) st_scheme, unit) state" where
  "remove_dir p = do { emit (RemoveDir p); change (\<lambda>s. ((), rmdir p s)) }"

definition delete_file :: "string \<Rightarrow> (('w, 'z) st_scheme, unit) state" where
  "delete_file p = do { emit (Delete p); _ \<leftarrow> change (file_remove p); State_Monad.return () }"

definition write_text :: "string \<Rightarrow> string \<Rightarrow> (('w, 'z) st_scheme, unit) state" where
  "write_text p t = do { emit (WriteText p t); change (\<lambda>s. ((), file_write p (Plain t) s)) }"

lemma run_emit [run_simps]:
  "run_state (emit e) s = ((), s\<lparr>trace := trace s @ [e]\<rparr>)"
  by (simp add: emit_def)

lemma run_asks [run_simps]: "run_state (asks f) s = (f (os s), s)"
  by (simp add: asks_def)

lemma run_change [run_simps]:
  "run_state (change f) s = (fst (f (os s)), s\<lparr>os := snd (f (os s))\<rparr>)"
  by (simp add: change_def split: prod.splits)

declare Let_def [run_simps]

section \<open>Bounding what an operation does\<close>

text \<open>
  \<open>emits P m\<close>: whatever state \<open>m\<close> is run from, it only appends to the trace, and every event
  it appends satisfies \<open>P\<close>. The rules below follow the structure of a program, so a bound on
  a whole function is proved by applying them.
\<close>

definition emits :: "(event \<Rightarrow> bool) \<Rightarrow> (('w, 'z) st_scheme, 'a) state \<Rightarrow> bool" where
  "emits P m \<longleftrightarrow>
     (\<forall>s. \<exists>es. trace (snd (run_state m s)) = trace s @ es \<and> (\<forall>e \<in> set es. P e))"

lemma emitsI:
  "(\<And>s. \<exists>es. trace (snd (run_state m s)) = trace s @ es \<and> (\<forall>e \<in> set es. P e)) \<Longrightarrow> emits P m"
  by (simp add: emits_def)

lemma emitsE:
  assumes "emits P m"
  obtains es where "trace (snd (run_state m s)) = trace s @ es" and "\<forall>e \<in> set es. P e"
  using assms by (auto simp: emits_def)

lemma emits_run:
  "emits P m \<Longrightarrow> run_state m s = (x, s') \<Longrightarrow> \<exists>es. trace s' = trace s @ es \<and> (\<forall>e \<in> set es. P e)"
  by (metis emitsE snd_conv)

lemma emits_weaken: "emits P m \<Longrightarrow> (\<And>e. P e \<Longrightarrow> Q e) \<Longrightarrow> emits Q m"
  unfolding emits_def by meson

lemma emits_return [emits_intros]: "emits P (State_Monad.return x)"
  by (simp add: emits_def)

text \<open>The continuation only matters for values the first operation can return.\<close>

lemma emits_bind_range:
  assumes "emits P m" and "\<And>s. emits P (f (fst (run_state m s)))"
  shows "emits P (do { x \<leftarrow> m; f x })"
proof (rule emitsI)
  fix s
  obtain x s' where m: "run_state m s = (x, s')" by fastforce
  obtain es where 1: "trace s' = trace s @ es" "\<forall>e \<in> set es. P e"
    using emitsE [OF assms(1), of s] m by (metis snd_conv)
  have "emits P (f x)" using assms(2) [of s] m by simp
  then obtain fs where 2: "trace (snd (run_state (f x) s')) = trace s' @ fs" "\<forall>e \<in> set fs. P e"
    by (rule emitsE)
  show "\<exists>es. trace (snd (run_state (m \<bind> f) s)) = trace s @ es \<and> (\<forall>e \<in> set es. P e)"
    using 1 2 m by (intro exI [of _ "es @ fs"]) auto
qed

lemma emits_bind [emits_intros]:
  "emits P m \<Longrightarrow> (\<And>x. emits P (f x)) \<Longrightarrow> emits P (do { x \<leftarrow> m; f x })"
  by (rule emits_bind_range)

lemma emits_if [emits_intros]:
  "(b \<Longrightarrow> emits P m) \<Longrightarrow> (\<not> b \<Longrightarrow> emits P n) \<Longrightarrow> emits P (if b then m else n)"
  by simp

lemma emits_whenM [emits_intros]: "(b \<Longrightarrow> emits P m) \<Longrightarrow> emits P (whenM b m)"
  by (simp add: whenM_def emits_return)

lemma emits_option [emits_intros]:
  "(x = None \<Longrightarrow> emits P m) \<Longrightarrow> (\<And>y. x = Some y \<Longrightarrow> emits P (f y)) \<Longrightarrow>
   emits P (case x of None \<Rightarrow> m | Some y \<Rightarrow> f y)"
  by (cases x) auto

lemma emits_list [emits_intros]:
  "(x = [] \<Longrightarrow> emits P m) \<Longrightarrow> (\<And>y ys. x = y # ys \<Longrightarrow> emits P (f y ys)) \<Longrightarrow>
   emits P (case x of [] \<Rightarrow> m | y # ys \<Rightarrow> f y ys)"
  by (cases x) auto

lemma emits_prod [emits_intros]:
  "(\<And>a b. x = (a, b) \<Longrightarrow> emits P (f a b)) \<Longrightarrow> emits P (case x of (a, b) \<Rightarrow> f a b)"
  by (cases x) auto

lemma emits_Let [emits_intros]: "emits P (f x) \<Longrightarrow> emits P (Let x f)"
  by simp

lemma emits_for_each [emits_intros]:
  "(\<And>x. x \<in> set xs \<Longrightarrow> emits P (f x)) \<Longrightarrow> emits P (for_each xs f)"
  by (induction xs) (auto intro!: emits_return emits_bind)

lemma emits_emit [emits_intros]: "P e \<Longrightarrow> emits P (emit e)"
  by (simp add: emits_def run_simps)

lemma emits_asks [emits_intros]: "emits P (asks f)"
  by (simp add: emits_def run_simps)

lemma emits_change [emits_intros]: "emits P (change f)"
  by (simp add: emits_def run_simps)

lemma emits_update [emits_intros]:
  "(\<And>s. trace (f s) = trace s) \<Longrightarrow> emits P (State_Monad.update f)"
  by (simp add: emits_def)

lemma emits_get [emits_intros]: "emits P State_Monad.get"
  by (simp add: emits_def)

lemma emits_say [emits_intros]: "P (Log m) \<Longrightarrow> emits P (say m)"
  by (simp add: say_def emits_emit)

lemma emits_run_cmd [emits_intros]: "P (Exec c) \<Longrightarrow> emits P (run_cmd E c)"
  by (simp add: run_cmd_def emits_emit emits_bind emits_change)

lemma emits_make_path [emits_intros]: "P (MakePath p) \<Longrightarrow> emits P (make_path p)"
  by (simp add: make_path_def emits_emit emits_bind emits_change)

lemma emits_make_dir [emits_intros]: "P (MakePath p) \<Longrightarrow> emits P (make_dir p)"
  by (simp add: make_dir_def emits_emit emits_bind emits_change)

lemma emits_remove_dir [emits_intros]: "P (RemoveDir p) \<Longrightarrow> emits P (remove_dir p)"
  by (simp add: remove_dir_def emits_emit emits_bind emits_change)

lemma emits_delete_file [emits_intros]: "P (Delete p) \<Longrightarrow> emits P (delete_file p)"
  by (simp add: delete_file_def emits_emit emits_bind emits_change emits_return)

lemma emits_write_text [emits_intros]: "P (WriteText p t) \<Longrightarrow> emits P (write_text p t)"
  by (simp add: write_text_def emits_emit emits_bind emits_change)

section \<open>Leaving the locals alone\<close>

text \<open>
  \<open>frame m\<close>: \<open>m\<close> changes the system and the trace only, whatever further fields the state has.
\<close>

definition frame :: "(('w, 'z) st_scheme, 'a) state \<Rightarrow> bool" where
  "frame m \<longleftrightarrow> (\<forall>s. \<exists>w t. snd (run_state m s) = s\<lparr>os := w, trace := t\<rparr>)"

lemma frameI: "(\<And>s. snd (run_state m s) = s\<lparr>os := w s, trace := t s\<rparr>) \<Longrightarrow> frame m"
  unfolding frame_def by blast

lemma frame_return [frame_intros]: "frame (State_Monad.return x)"
  by (rule frameI [where w = os and t = trace]) simp

lemma frame_bind [frame_intros]:
  assumes "frame m" and "\<And>x. frame (f x)"
  shows "frame (do { x \<leftarrow> m; f x })"
  unfolding frame_def
proof
  fix s
  obtain x s1 where m: "run_state m s = (x, s1)" by fastforce
  with assms(1) obtain w t where 1: "s1 = s\<lparr>os := w, trace := t\<rparr>"
    unfolding frame_def by (metis snd_conv)
  obtain w' t' where 2: "snd (run_state (f x) s1) = s1\<lparr>os := w', trace := t'\<rparr>"
    using assms(2) unfolding frame_def by metis
  show "\<exists>w t. snd (run_state (m \<bind> f) s) = s\<lparr>os := w, trace := t\<rparr>"
    using m 1 2 by (intro exI [of _ w'] exI [of _ t']) simp
qed

lemma frame_if [frame_intros]: "frame m \<Longrightarrow> frame n \<Longrightarrow> frame (if b then m else n)"
  by simp

lemma frame_whenM [frame_intros]: "frame m \<Longrightarrow> frame (whenM b m)"
  by (simp add: whenM_def frame_return)

lemma frame_Let [frame_intros]: "frame (f x) \<Longrightarrow> frame (Let x f)"
  by simp

lemma frame_option [frame_intros]:
  "frame m \<Longrightarrow> (\<And>y. frame (f y)) \<Longrightarrow> frame (case x of None \<Rightarrow> m | Some y \<Rightarrow> f y)"
  by (cases x) auto

lemma frame_list [frame_intros]:
  "frame m \<Longrightarrow> (\<And>y ys. frame (f y ys)) \<Longrightarrow> frame (case x of [] \<Rightarrow> m | y # ys \<Rightarrow> f y ys)"
  by (cases x) auto

lemma frame_prod [frame_intros]:
  "(\<And>a b. frame (f a b)) \<Longrightarrow> frame (case x of (a, b) \<Rightarrow> f a b)"
  by (cases x) auto

lemma frame_for_each [frame_intros]: "(\<And>x. frame (f x)) \<Longrightarrow> frame (for_each xs f)"
  by (induction xs) (auto intro!: frame_return frame_bind)

lemma frame_emit [frame_intros]: "frame (emit e)"
  by (rule frameI [where w = os and t = "\<lambda>s. trace s @ [e]"]) (simp add: run_simps)

lemma frame_change [frame_intros]: "frame (change f)"
  by (rule frameI [where w = "\<lambda>s. snd (f (os s))" and t = trace]) (simp add: run_simps)

lemma frame_asks [frame_intros]: "frame (asks f)"
  by (rule frameI [where w = os and t = trace]) (simp add: run_simps)

lemma frame_get [frame_intros]: "frame State_Monad.get"
  by (rule frameI [where w = os and t = trace]) simp

lemma frame_ops [frame_intros]:
  "frame (say m)" "frame (run_cmd E c)" "frame (make_path p)" "frame (make_dir p)" "frame (remove_dir p)"
  "frame (delete_file p)" "frame (write_text p x)"
  unfolding say_def run_cmd_def make_path_def make_dir_def remove_dir_def delete_file_def write_text_def
  by (intro frame_intros)+

section \<open>A calm world\<close>

text \<open>The programs a trace starts, in order.\<close>

definition execs :: "event list \<Rightarrow> cmd list" where
  "execs es = concat (map (\<lambda>e. case e of Exec c \<Rightarrow> [c] | _ \<Rightarrow> []) es)"

lemma execs_simps [simp]:
  "execs [] = []" "execs (es @ fs) = execs es @ execs fs"
  "execs (e # es) = (case e of Exec c \<Rightarrow> [c] | _ \<Rightarrow> []) @ execs es"
  by (simp_all add: execs_def)

lemma execs_iff: "c \<in> set (execs es) \<longleftrightarrow> Exec c \<in> set es"
  by (induction es) (auto split: event.splits)

text \<open>
  An outside world in which every program succeeds without doing anything, every query finds
  nothing, and an empty system. The witnesses change a field or two of it.
\<close>

definition calm_sys :: "unit sys" where
  "calm_sys = \<lparr>files = [], dirs = {}, dir_mode = (\<lambda>_. {}), refused = (\<lambda>_. False), new_mode = {},
     mtab = Some [], rest = ()\<rparr>"

definition calm_ext :: "unit ext" where
  "calm_ext = \<lparr>x_exec = (\<lambda>_ s. (\<lparr>p_end = Exited 0, p_out = []\<rparr>, s)),
     x_pipe = (\<lambda>_ _ _ _ s. (\<lparr>pipe_code1 = 0, pipe_normal1 = True, pipe_code2 = 0, pipe_normal2 = True\<rparr>, s)),
     x_now = (\<lambda>_ s. ([], s)), x_utc = (\<lambda>_ _. []), x_fstype = (\<lambda>_ _. []),
     x_temp = (\<lambda>t _. Some t), x_clean = id, x_absolute = id, x_canonical = (\<lambda>_ _. []),
     x_user = (\<lambda>_. None), x_udev = (\<lambda>_. []), x_probe = (\<lambda>_ _. False),
     x_numparts = (\<lambda>_ _. None), x_blkid = (\<lambda>_ _ _. None),
     x_peer = (\<lambda>_ _. NoTlsErrors), x_http = (\<lambda>_ s. (\<lparr>y_status = 0, y_json = JNull, y_raw = []\<rparr>, s)),
     x_letter = (\<lambda>_. False), x_upper = id, x_percent = id, x_form = (\<lambda>_. []), x_query_url = (\<lambda>u _. u),
     x_smtp = (\<lambda>_ s. (Did True, s)), x_filesize = (\<lambda>_ _. 0), x_symlink = (\<lambda>_ _. False),
     x_base64 = id, x_ini_text = (\<lambda>_. []), x_ini_parse = (\<lambda>_. Map.empty), x_text = id,
     x_order = sorted_list_of_multiset\<rparr>"

definition calm_st :: "unit st" where
  "calm_st = \<lparr>os = calm_sys, trace = [], ssl_ready = False\<rparr>"

lemmas calm_defs = calm_sys_def calm_ext_def calm_st_def

lemma order_ok_calm [simp]: "order_ok (calm_ext\<lparr>x_exec := f\<rparr>)" "order_ok calm_ext"
  by (simp_all add: order_ok_def calm_ext_def)

end
