(* ===== verification/JobData.thy ===== *)
theory JobData
  imports World
begin

text \<open>
  The value classes of \<open>obj/\<close>: partitions and disks, the PBS and SSH server entries, and the
  backup job with its two enums and the log entries a run collects. A \<open>QMultiHash\<close> is a
  multiset of pairs, since it keeps duplicates and has no order of its own. An \<open>int\<close> member
  is a 32-bit word read with \<open>sint\<close>, a \<open>uint\<close> member one read with \<open>unat\<close>. The enums can
  hold any \<open>int\<close> after a \<open>static_cast\<close>; the last constructor stands for the values that are
  not an enumerator.
\<close>

type_synonym qmultihash = "(string \<times> string) multiset"

section \<open>Devices\<close>

record DeviceDiskPartition =
  part_name :: string
  part_uuid :: string
  part_label :: string
  part_type :: string

definition empty_partition :: DeviceDiskPartition where
  "empty_partition = \<lparr>part_name = [], part_uuid = [], part_label = [], part_type = []\<rparr>"

record DeviceDisk =
  disk_name :: string
  disk_uuid :: string
  devname :: string
  devtype :: string
  vendor :: string
  model :: string
  partitions :: "DeviceDiskPartition list"

section \<open>Servers\<close>

record PBServer =
  pb_uuid :: string
  pb_name :: string
  pb_host :: string
  pb_port :: u32
  pb_username :: string
  pb_password :: string
  pb_fingerprint :: string
  pb_keyfile :: string
  pb_keypass :: string

record SSHServer =
  srv_uuid :: string
  srv_name :: string
  srv_host :: string
  srv_port :: u32
  srv_username :: string
  srv_keyfile :: string
  srv_keypass :: string
  srv_hostkey :: string

text \<open>The constructors take a fresh uuid without its braces, as \<open>genNewUuid\<close> does.\<close>

definition strip_braces :: "string \<Rightarrow> string" where
  "strip_braces u = replace_all ''}'' '''' (replace_all ''{'' '''' u)"

definition new_PBServer :: "string \<Rightarrow> PBServer" where
  "new_PBServer u =
     \<lparr>pb_uuid = strip_braces u, pb_name = [], pb_host = [], pb_port = 0, pb_username = [],
      pb_password = [], pb_fingerprint = [], pb_keyfile = [], pb_keypass = []\<rparr>"

definition pb_genNewUuid :: "string \<Rightarrow> PBServer \<Rightarrow> PBServer" where
  "pb_genNewUuid u i = i\<lparr>pb_uuid := strip_braces u\<rparr>"

definition new_SSHServer :: "string \<Rightarrow> SSHServer" where
  "new_SSHServer u =
     \<lparr>srv_uuid = strip_braces u, srv_name = [], srv_host = [], srv_port = 22, srv_username = [],
      srv_keyfile = [], srv_keypass = [], srv_hostkey = []\<rparr>"

definition srv_genNewUuid :: "string \<Rightarrow> SSHServer \<Rightarrow> SSHServer" where
  "srv_genNewUuid u i = i\<lparr>srv_uuid := strip_braces u\<rparr>"

section \<open>Backup jobs\<close>

datatype tiBackupJobInterval =
    INTERVAL_NONE | INTERVAL_DAILY | INTERVAL_WEEKLY | INTERVAL_MONTHLY | INTERVAL_OTHER i32

datatype tiBackupEncLUKS = LUKS_NONE | LUKS_FILE | LUKS_GENUSBDEV | LUKS_OTHER i32

fun interval_to_int :: "tiBackupJobInterval \<Rightarrow> i32" where
  "interval_to_int INTERVAL_NONE = 0"
| "interval_to_int INTERVAL_DAILY = 1"
| "interval_to_int INTERVAL_WEEKLY = 2"
| "interval_to_int INTERVAL_MONTHLY = 3"
| "interval_to_int (INTERVAL_OTHER n) = n"

definition interval_of_int :: "i32 \<Rightarrow> tiBackupJobInterval" where
  "interval_of_int n =
     (if n = 0 then INTERVAL_NONE else if n = 1 then INTERVAL_DAILY
      else if n = 2 then INTERVAL_WEEKLY else if n = 3 then INTERVAL_MONTHLY
      else INTERVAL_OTHER n)"

fun luks_to_int :: "tiBackupEncLUKS \<Rightarrow> i32" where
  "luks_to_int LUKS_NONE = 0"
| "luks_to_int LUKS_FILE = 1"
| "luks_to_int LUKS_GENUSBDEV = 2"
| "luks_to_int (LUKS_OTHER n) = n"

definition luks_of_int :: "i32 \<Rightarrow> tiBackupEncLUKS" where
  "luks_of_int n =
     (if n = 0 then LUKS_NONE else if n = 1 then LUKS_FILE
      else if n = 2 then LUKS_GENUSBDEV else LUKS_OTHER n)"

text \<open>The last constructor is used for values outside the enumeration only.\<close>

definition wf_interval :: "tiBackupJobInterval \<Rightarrow> bool" where
  "wf_interval t \<longleftrightarrow> (\<forall>n. t = INTERVAL_OTHER n \<longrightarrow> n \<notin> {0, 1, 2, 3})"

definition wf_luks :: "tiBackupEncLUKS \<Rightarrow> bool" where
  "wf_luks t \<longleftrightarrow> (\<forall>n. t = LUKS_OTHER n \<longrightarrow> n \<notin> {0, 1, 2})"

lemma interval_of_to_int [simp]: "wf_interval t \<Longrightarrow> interval_of_int (interval_to_int t) = t"
  by (cases t) (auto simp: interval_of_int_def wf_interval_def)

lemma interval_to_of_int [simp]: "interval_to_int (interval_of_int n) = n"
  by (simp add: interval_of_int_def)

lemma luks_of_to_int [simp]: "wf_luks t \<Longrightarrow> luks_of_int (luks_to_int t) = t"
  by (cases t) (auto simp: luks_of_int_def wf_luks_def)

lemma luks_to_of_int [simp]: "luks_to_int (luks_of_int n) = n"
  by (simp add: luks_of_int_def)

lemma wf_interval_of_int [simp]: "wf_interval (interval_of_int n)"
  by (auto simp: wf_interval_def interval_of_int_def)

lemma wf_luks_of_int [simp]: "wf_luks (luks_of_int n)"
  by (auto simp: wf_luks_def luks_of_int_def)

record tiBackupJobLog =
  log_rsync_path :: string
  log_source :: string
  log_destination :: string
  log_ret_code :: int

text \<open>Its \<open>ret_code\<close> is left out: no code ever sets or reads it.\<close>

record tiBackupJobPBSLog =
  pbslog_vmid :: string
  pbslog_msg :: string
  pbslog_errmsg :: string

record tiBackupJobSSHTarget =
  t_server_uuid :: string
  t_backupdirs :: qmultihash

record tiBackupJob =
  job_name :: string
  job_device :: string
  partition_uuid :: string
  backupdirs :: qmultihash
  delete_add_file_on_dest :: bool
  start_backup_on_hotplug :: bool
  save_log :: bool
  compare_via_checksum :: bool
  umount_after_backup :: bool
  notify :: bool
  notifyRecipients :: string
  scriptBeforeBackup :: string
  scriptAfterBackup :: string
  intervalType :: tiBackupJobInterval
  intervalTime :: string
  intervalDay :: i32
  encLUKSType :: tiBackupEncLUKS
  encLUKSFilePath :: string
  pbs :: bool
  pbs_server_uuid :: string
  pbs_server_storage :: string
  pbs_backup_ids :: "string list"
  pbs_dest_folder :: string
  ssh :: bool
  ssh_targets :: "tiBackupJobSSHTarget list"

text \<open>A job with no features, for the witnesses.\<close>

definition plain_job :: "string \<Rightarrow> tiBackupJob" where
  "plain_job n =
     \<lparr>job_name = n, job_device = ''usb'', partition_uuid = ''u1'', backupdirs = {#},
      delete_add_file_on_dest = False, start_backup_on_hotplug = False, save_log = False,
      compare_via_checksum = False, umount_after_backup = True, notify = False,
      notifyRecipients = [], scriptBeforeBackup = [], scriptAfterBackup = [],
      intervalType = INTERVAL_NONE, intervalTime = [], intervalDay = 0,
      encLUKSType = LUKS_NONE, encLUKSFilePath = [], pbs = False, pbs_server_uuid = [],
      pbs_server_storage = [], pbs_backup_ids = [], pbs_dest_folder = [], ssh = False,
      ssh_targets = []\<rparr>"

end
