(* ===== verification/Scheduler.thy ===== *)
theory Scheduler
  imports JobData
begin

text \<open>
  \<open>tiBackupScheduler::shouldRun\<close> (tibackupscheduler.cpp): is a scheduled job due. The local
  calendar (weekday of a date, epoch of a date and a time of day in the local zone, parsing
  a time) is Qt's and is a parameter. \<open>slot_rule\<close> and \<open>covering_rule\<close> state
  what a caller that ticks regularly may rely on, and prove the two guarantees of the header
  comment once: a slot fires at most once, and a slot that is ticked often enough is not
  missed.
\<close>

section \<open>Dates and times\<close>

datatype qdate = QDate int nat nat
datatype qtime = QTime nat nat

fun hour :: "qtime \<Rightarrow> nat" where "hour (QTime h m) = h"
fun minute :: "qtime \<Rightarrow> nat" where "minute (QTime h m) = m"
fun day_of_month :: "qdate \<Rightarrow> nat" where "day_of_month (QDate y m d) = d"

instantiation qtime :: linorder
begin

definition less_eq_qtime :: "qtime \<Rightarrow> qtime \<Rightarrow> bool" where
  "less_eq_qtime a b \<longleftrightarrow> hour a < hour b \<or> hour a = hour b \<and> minute a \<le> minute b"

definition less_qtime :: "qtime \<Rightarrow> qtime \<Rightarrow> bool" where
  "less_qtime a b \<longleftrightarrow> hour a < hour b \<or> hour a = hour b \<and> minute a < minute b"

instance
proof
  fix a b c :: qtime
  show "a < b \<longleftrightarrow> a \<le> b \<and> \<not> b \<le> a" by (auto simp: less_eq_qtime_def less_qtime_def)
  show "a \<le> a" by (simp add: less_eq_qtime_def)
  show "a \<le> b \<Longrightarrow> b \<le> c \<Longrightarrow> a \<le> c" by (auto simp: less_eq_qtime_def)
  show "a \<le> b \<Longrightarrow> b \<le> a \<Longrightarrow> a = b"
    by (cases a; cases b) (auto simp: less_eq_qtime_def)
  show "a \<le> b \<or> b \<le> a" by (auto simp: less_eq_qtime_def)
qed

end

record calendar =
  c_dayOfWeek :: "qdate \<Rightarrow> int"
  c_epoch :: "qdate \<Rightarrow> qtime \<Rightarrow> int"
  c_time_fromString :: "string \<Rightarrow> string \<Rightarrow> qtime option"

record qdatetime =
  dt_date :: qdate
  dt_epoch :: int

section \<open>The decision\<close>

definition defaultGraceSecs :: int where
  "defaultGraceSecs = 120"

fun day_has_slot :: "calendar \<Rightarrow> tiBackupJob \<Rightarrow> qdate \<Rightarrow> bool" where
  "day_has_slot C job d =
     (case intervalType job of
        INTERVAL_NONE \<Rightarrow> False
      | INTERVAL_DAILY \<Rightarrow> True
      | INTERVAL_WEEKLY \<Rightarrow> c_dayOfWeek C d - 1 = sint (intervalDay job)
      | INTERVAL_MONTHLY \<Rightarrow> int (day_of_month d) = sint (intervalDay job)
      | INTERVAL_OTHER _ \<Rightarrow> True)"

definition shouldRun :: "calendar \<Rightarrow> tiBackupJob \<Rightarrow> qdatetime \<Rightarrow> int \<Rightarrow> int \<Rightarrow> bool" where
  "shouldRun C job now lastRunEpoch graceSecs =
     (if intervalType job = INTERVAL_NONE then False
      else (case c_time_fromString C (intervalTime job) ''hh:mm'' of
        None \<Rightarrow> False
      | Some slotTime \<Rightarrow>
          if \<not> day_has_slot C job (dt_date now) then False
          else
            let slotEpoch = c_epoch C (dt_date now) slotTime;
                nowEpoch = dt_epoch now in
            if nowEpoch < slotEpoch \<or> slotEpoch + graceSecs < nowEpoch then False
            else lastRunEpoch < slotEpoch))"


section \<open>What a ticking caller may rely on\<close>

text \<open>
  The caller of the header comment: at every tick it asks whether the job is due and, when it
  is, starts it and stores the tick's time as the last run. \<open>fired\<close> are the ticks at which it
  starts the job.
\<close>

fun fired :: "('n \<Rightarrow> int \<Rightarrow> bool) \<Rightarrow> ('n \<Rightarrow> int) \<Rightarrow> int \<Rightarrow> 'n list \<Rightarrow> 'n list" where
  "fired due time l [] = []"
| "fired due time l (n # ns) =
     (if due n l then n # fired due time (time n) ns else fired due time l ns)"

locale slot_rule =
  fixes due :: "'n \<Rightarrow> int \<Rightarrow> bool"
    and has_slot :: "'n \<Rightarrow> bool"
    and slot :: "'n \<Rightarrow> int"
    and time :: "'n \<Rightarrow> int"
  assumes due_has_slot: "due n l \<Longrightarrow> has_slot n"
    and due_not_early: "due n l \<Longrightarrow> slot n \<le> time n"
    and due_not_again: "due n l \<Longrightarrow> l < slot n"
begin

lemma fired_after_last: "n \<in> set (fired due time l ns) \<Longrightarrow> l < slot n"
proof (induction ns arbitrary: l)
  case Nil
  then show ?case by simp
next
  case (Cons m ns)
  show ?case
  proof (cases "due m l \<and> n \<noteq> m")
    case True
    with Cons.prems have "n \<in> set (fired due time (time m) ns)" by simp
    then have "time m < slot n" by (rule Cons.IH)
    with True show ?thesis using due_not_again due_not_early by fastforce
  next
    case False
    with Cons show ?thesis using due_not_again by (auto split: if_splits)
  qed
qed

lemma fired_slots_increase: "sorted_wrt (<) (map slot (fired due time l ns))"
proof (induction ns arbitrary: l)
  case Nil
  then show ?case by simp
next
  case (Cons m ns)
  have "slot m < slot n" if "due m l" "n \<in> set (fired due time (time m) ns)" for n
    using that fired_after_last due_not_early by fastforce
  with Cons show ?case by simp
qed

lemma at_most_once: "distinct (map slot (fired due time l ns))"
  using fired_slots_increase strict_sorted_iff by blast

end

locale covering_rule = slot_rule +
  fixes grace :: int
  assumes due_in_window:
    "has_slot n \<Longrightarrow> slot n \<le> time n \<Longrightarrow> time n \<le> slot n + grace \<Longrightarrow> l < slot n \<Longrightarrow> due n l"
begin

lemma first_tick_in_window_fires:
  assumes "\<forall>m \<in> set ms. time m < slot n" and "l < slot n"
    and "has_slot n" and "slot n \<le> time n" and "time n \<le> slot n + grace"
  shows "n \<in> set (fired due time l (ms @ n # ns))"
  using assms(1,2)
proof (induction ms arbitrary: l)
  case Nil
  then show ?case using due_in_window assms(3-5) by simp
next
  case (Cons m ms)
  then show ?case by simp
qed

text \<open>Ticks at most \<open>grace\<close> apart, from before the slot to after it, hit its window.\<close>

lemma regular_ticks_fire:
  assumes "time n0 < t" and "l < t"
    and "successively (\<lambda>m n. time n \<le> time m + grace) (n0 # ns)"
    and "\<exists>n \<in> set ns. t \<le> time n"
    and "\<And>n. n \<in> set ns \<Longrightarrow> t \<le> time n \<Longrightarrow> time n \<le> t + grace \<Longrightarrow> has_slot n \<and> slot n = t"
  shows "\<exists>n \<in> set (fired due time l ns). slot n = t"
  using assms
proof (induction ns arbitrary: n0 l)
  case Nil
  then show ?case by simp
next
  case (Cons n ns)
  show ?case
  proof (cases "t \<le> time n")
    case True
    with Cons.prems have "has_slot n \<and> slot n = t" "time n \<le> t + grace" by auto
    with True Cons.prems(2) have "due n l" by (simp add: due_in_window)
    with \<open>has_slot n \<and> slot n = t\<close> show ?thesis by auto
  next
    case False
    have "\<exists>m \<in> set (fired due time l' ns). slot m = t" if "l' < t" for l'
      using Cons.prems False that by (intro Cons.IH [of n]) auto
    with False Cons.prems(2) show ?thesis by auto
  qed
qed

end

section \<open>The scheduler meets the contract\<close>

definition hasSlot :: "calendar \<Rightarrow> tiBackupJob \<Rightarrow> qdatetime \<Rightarrow> bool" where
  "hasSlot C job now \<longleftrightarrow>
     intervalType job \<noteq> INTERVAL_NONE \<and> c_time_fromString C (intervalTime job) ''hh:mm'' \<noteq> None
     \<and> day_has_slot C job (dt_date now)"

definition slotEpochOf :: "calendar \<Rightarrow> tiBackupJob \<Rightarrow> qdatetime \<Rightarrow> int" where
  "slotEpochOf C job now =
     (case c_time_fromString C (intervalTime job) ''hh:mm'' of
        None \<Rightarrow> 0 | Some t \<Rightarrow> c_epoch C (dt_date now) t)"

lemma shouldRun_iff:
  "shouldRun C job now l g \<longleftrightarrow>
     hasSlot C job now \<and> slotEpochOf C job now \<le> dt_epoch now
     \<and> dt_epoch now \<le> slotEpochOf C job now + g \<and> l < slotEpochOf C job now"
  by (auto simp: shouldRun_def hasSlot_def slotEpochOf_def Let_def split: option.splits)

interpretation sched: covering_rule
  "\<lambda>n l. shouldRun C job n l g" "hasSlot C job" "slotEpochOf C job" dt_epoch g
  for C job g
  by unfold_locales (auto simp: shouldRun_iff)

text \<open>
  C21. A caller that stores the time of each start as the last run starts a job at most once
  for each slot, whatever the ticks are: also when the clock stands still, jumps back, or the
  grace window is wider than the distance of two slots.
\<close>

theorem shouldRun_once_per_slot:
  "distinct (map (slotEpochOf C job) (fired (\<lambda>n l. shouldRun C job n l g) dt_epoch l ns))"
  by (rule sched.at_most_once)


text \<open>A calendar with one month of 86400-second days, for the concrete runs below.\<close>

fun flat_epoch :: "qdate \<Rightarrow> qtime \<Rightarrow> int" where
  "flat_epoch (QDate y m d) (QTime h mi) = 86400 * int d + 3600 * int h + 60 * int mi"

definition flat_calendar :: "qtime \<Rightarrow> calendar" where
  "flat_calendar t =
     \<lparr>c_dayOfWeek = (\<lambda>d. int (day_of_month d mod 7) + 1), c_epoch = flat_epoch,
      c_time_fromString = (\<lambda>_ _. Some t)\<rparr>"

definition daily_job :: tiBackupJob where
  "daily_job = (plain_job ''j'')\<lparr>intervalType := INTERVAL_DAILY, intervalTime := ''23:59''\<rparr>"

definition tick :: "nat \<Rightarrow> int \<Rightarrow> qdatetime" where
  "tick d secs = \<lparr>dt_date = QDate 2026 7 d, dt_epoch = 86400 * int d + secs\<rparr>"

lemmas flat_defs =
  flat_calendar_def daily_job_def tick_def plain_job_def hasSlot_def slotEpochOf_def


text \<open>
  The grace window ends at midnight, because a tick computes the slot of its own date: for
  a daily job at 23:59 a caller ticking every 90 seconds, well inside the default grace of
  120 seconds, is never told to start the job although its ticks pass over the slot.
\<close>

theorem grace_window_ends_at_midnight:
  "successively (\<lambda>m n. dt_epoch n \<le> dt_epoch m + defaultGraceSecs)
     [tick 1 86250, tick 1 86330, tick 2 20, tick 2 110]
   \<and> dt_epoch (tick 1 86330) < slotEpochOf (flat_calendar (QTime 23 59)) daily_job (tick 1 86330)
   \<and> slotEpochOf (flat_calendar (QTime 23 59)) daily_job (tick 1 86330) < dt_epoch (tick 2 20)
   \<and> dt_epoch (tick 2 20)
       \<le> slotEpochOf (flat_calendar (QTime 23 59)) daily_job (tick 1 86330) + defaultGraceSecs
   \<and> fired (\<lambda>n l. shouldRun (flat_calendar (QTime 23 59)) daily_job n l defaultGraceSecs)
       dt_epoch 0 [tick 1 86250, tick 1 86330, tick 2 20, tick 2 110] = []"
  by (simp add: flat_defs shouldRun_iff defaultGraceSecs_def)

text \<open>
  A value of the interval type that is no enumerator falls through the switch: such a job
  is treated like a daily one.
\<close>

theorem unknown_interval_runs_daily:
  "shouldRun C (job\<lparr>intervalType := INTERVAL_OTHER n\<rparr>) now l g
   = shouldRun C (job\<lparr>intervalType := INTERVAL_DAILY\<rparr>) now l g"
  by (simp add: shouldRun_def split: option.split)

end
