(* ===== verification/Settings.thy ===== *)
theory Settings
  imports JobData
begin

text \<open>
  \<open>QSettings\<close> in INI format, as the configuration classes use it: a key map, and a stack of
  the groups and arrays that are open. Row \<open>i\<close> of an array lives under the segment \<open>i + 1\<close>
  and the number of rows under \<open>size\<close>. A value is kept as text; \<open>to_bool\<close>, \<open>to_i32\<close> and
  \<open>to_u32\<close> are the conversions of the \<open>QVariant\<close> read back. The operations are those of the class, in the
  state monad over the settings object, so that the saving and reading functions of ticonf.cpp
  can be written as they stand.
\<close>

datatype sgroup = Group string | ReadArray string nat | WriteArray string nat nat

record qsettings =
  q_stack :: "sgroup list"
  q_map :: settings

fun segments :: "sgroup \<Rightarrow> string list" where
  "segments (Group g) = [g]"
| "segments (ReadArray a i) = (if i = 0 then [a] else [a, show_nat i])"
| "segments (WriteArray a i n) = (if i = 0 then [a] else [a, show_nat i])"

definition stack_prefix :: "sgroup list \<Rightarrow> string list" where
  "stack_prefix st = concat (map segments (rev st))"

abbreviation q_prefix :: "qsettings \<Rightarrow> string list" where
  "q_prefix q \<equiv> stack_prefix (q_stack q)"

definition qs_open :: "settings \<Rightarrow> qsettings" where
  "qs_open m = \<lparr>q_stack = [], q_map = m\<rparr>"

section \<open>Values as text\<close>

definition of_bool_text :: "bool \<Rightarrow> string" where
  "of_bool_text b = (if b then ''true'' else ''false'')"

definition to_bool :: "string option \<Rightarrow> bool" where
  "to_bool v = (case v of None \<Rightarrow> False | Some t \<Rightarrow> toLower t \<notin> {[], ''0'', ''false''})"

definition to_text :: "string option \<Rightarrow> string" where
  "to_text v = (case v of None \<Rightarrow> [] | Some t \<Rightarrow> t)"

definition to_int :: "string option \<Rightarrow> int" where
  "to_int v =
     (case v of None \<Rightarrow> 0
      | Some t \<Rightarrow> (case parse_int t of None \<Rightarrow> 0
                   | Some n \<Rightarrow> if - (2 ^ 31) \<le> n \<and> n < 2 ^ 31 then n else 0))"

definition to_uint :: "string option \<Rightarrow> int" where
  "to_uint v =
     (case v of None \<Rightarrow> 0
      | Some t \<Rightarrow> (case parse_int t of None \<Rightarrow> 0
                   | Some n \<Rightarrow> if 0 \<le> n \<and> n < 2 ^ 32 then n else 0))"

definition to_i32 :: "string option \<Rightarrow> i32" where "to_i32 v = word_of_int (to_int v)"
definition to_u32 :: "string option \<Rightarrow> u32" where "to_u32 v = word_of_int (to_uint v)"
definition of_i32 :: "i32 \<Rightarrow> string" where "of_i32 n = show_int (sint n)"
definition of_u32 :: "u32 \<Rightarrow> string" where "of_u32 n = show_int (uint n)"

lemma to_bool_of_bool [simp]: "to_bool (Some (of_bool_text b)) = b"
  by (cases b) (simp_all add: to_bool_def of_bool_text_def toLower_def lower_char_def)

lemma to_text_Some [simp]: "to_text (Some t) = t" "to_text None = []"
  by (simp_all add: to_text_def)

lemma to_i32_of_i32 [simp]: "to_i32 (Some (of_i32 n)) = n"
  using sint_i32_range [of n] by (simp add: to_i32_def of_i32_def to_int_def)

lemma to_u32_of_u32 [simp]: "to_u32 (Some (of_u32 n)) = n"
  using uint_lt2p [of n] by (simp add: to_u32_def of_u32_def to_uint_def)

section \<open>The operations\<close>

definition beginGroup :: "string \<Rightarrow> (qsettings, unit) state" where
  "beginGroup g = State_Monad.update (\<lambda>q. q\<lparr>q_stack := Group g # q_stack q\<rparr>)"

definition endGroup :: "(qsettings, unit) state" where
  "endGroup = State_Monad.update (\<lambda>q. q\<lparr>q_stack := tl (q_stack q)\<rparr>)"

definition setValue :: "string \<Rightarrow> string \<Rightarrow> (qsettings, unit) state" where
  "setValue k v = State_Monad.update (\<lambda>q. q\<lparr>q_map := (q_map q)(q_prefix q @ [k] \<mapsto> v)\<rparr>)"

definition settings_value :: "string \<Rightarrow> (qsettings, string option) state" where
  "settings_value k = do { q \<leftarrow> State_Monad.get; State_Monad.return (q_map q (q_prefix q @ [k])) }"

definition beginWriteArray :: "string \<Rightarrow> (qsettings, unit) state" where
  "beginWriteArray a = State_Monad.update (\<lambda>q.
     q\<lparr>q_stack := WriteArray a 0 0 # q_stack q, q_map := (q_map q)(q_prefix q @ [a, ''size''] := None)\<rparr>)"

definition beginReadArray :: "string \<Rightarrow> (qsettings, int) state" where
  "beginReadArray a = do {
     State_Monad.update (\<lambda>q. q\<lparr>q_stack := ReadArray a 0 # q_stack q\<rparr>);
     v \<leftarrow> settings_value ''size'';
     State_Monad.return (to_int v) }"

fun at_index :: "nat \<Rightarrow> sgroup list \<Rightarrow> sgroup list" where
  "at_index i (ReadArray a _ # st) = ReadArray a (Suc i) # st"
| "at_index i (WriteArray a _ n # st) = WriteArray a (Suc i) (max n (Suc i)) # st"
| "at_index i st = st"

definition setArrayIndex :: "nat \<Rightarrow> (qsettings, unit) state" where
  "setArrayIndex i = State_Monad.update (\<lambda>q. q\<lparr>q_stack := at_index i (q_stack q)\<rparr>)"

fun close_array :: "qsettings \<Rightarrow> qsettings" where
  "close_array q = (case q_stack q of
     WriteArray a _ n # st \<Rightarrow>
       (let q' = q\<lparr>q_stack := st\<rparr> in
        q'\<lparr>q_map := (q_map q')(q_prefix q' @ [a, ''size''] \<mapsto> show_nat n)\<rparr>)
   | _ # st \<Rightarrow> q\<lparr>q_stack := st\<rparr>
   | [] \<Rightarrow> q)"

definition endArray :: "(qsettings, unit) state" where
  "endArray = State_Monad.update close_array"

text \<open>
  The two loop shapes of ticonf.cpp: writing a row per element with a running index, and
  reading \<open>size\<close> rows.
\<close>

definition write_row :: "nat \<Rightarrow> (string \<times> string) list \<Rightarrow> (qsettings, unit) state" where
  "write_row i r = do { setArrayIndex i; for_each r (\<lambda>(k, v). setValue k v) }"

definition write_array :: "string \<Rightarrow> (string \<times> string) list list \<Rightarrow> (qsettings, unit) state" where
  "write_array a rows = do {
     beginWriteArray a;
     for_each (List.enumerate 0 rows) (\<lambda>(i, r). write_row i r);
     endArray }"

definition read_row :: "string list \<Rightarrow> nat \<Rightarrow> (qsettings, string list) state" where
  "read_row ks i = do {
     setArrayIndex i;
     State_Monad.traverse_list (\<lambda>k. do { v \<leftarrow> settings_value k; State_Monad.return (to_text v) }) ks }"

definition read_array :: "string \<Rightarrow> string list \<Rightarrow> (qsettings, string list list) state" where
  "read_array a ks = do {
     n \<leftarrow> beginReadArray a;
     rows \<leftarrow> State_Monad.traverse_list (read_row ks) [0..<nat n];
     endArray;
     State_Monad.return rows }"

section \<open>Arrays read back what was written\<close>

lemma run_settings [run_simps]:
  "run_state (beginGroup g) q = ((), q\<lparr>q_stack := Group g # q_stack q\<rparr>)"
  "run_state endGroup q = ((), q\<lparr>q_stack := tl (q_stack q)\<rparr>)"
  "run_state (setValue k v) q = ((), q\<lparr>q_map := (q_map q)(q_prefix q @ [k] \<mapsto> v)\<rparr>)"
  "run_state (settings_value k) q = (q_map q (q_prefix q @ [k]), q)"
  "run_state (setArrayIndex i) q = ((), q\<lparr>q_stack := at_index i (q_stack q)\<rparr>)"
  by (simp_all add: beginGroup_def endGroup_def setValue_def settings_value_def setArrayIndex_def)

lemma stack_prefix_simps [simp]:
  "stack_prefix [] = []"
  "stack_prefix (g # st) = stack_prefix st @ segments g"
  by (simp_all add: stack_prefix_def)

text \<open>The key map after writing rows from index \<open>i\<close> on under the prefix \<open>p\<close>.\<close>

fun put_row :: "string list \<Rightarrow> (string \<times> string) list \<Rightarrow> settings \<Rightarrow> settings" where
  "put_row p [] m = m"
| "put_row p (e # r) m = put_row p r (m(p @ [fst e] \<mapsto> snd e))"

fun put_rows :: "string list \<Rightarrow> nat \<Rightarrow> (string \<times> string) list list \<Rightarrow> settings \<Rightarrow> settings" where
  "put_rows p i [] m = m"
| "put_rows p i (r # rows) m = put_rows p (Suc i) rows (put_row (p @ [show_nat (Suc i)]) r m)"

definition put_array :: "string list \<Rightarrow> (string \<times> string) list list \<Rightarrow> settings \<Rightarrow> settings" where
  "put_array p rows m =
     (put_rows p 0 rows (m(p @ [''size''] := None)))(p @ [''size''] \<mapsto> show_nat (length rows))"

lemma run_row:
  "run_state (for_each r (\<lambda>(k, v). setValue k v)) \<lparr>q_stack = st, q_map = m\<rparr>
   = ((), \<lparr>q_stack = st, q_map = put_row (stack_prefix st) r m\<rparr>)"
  by (induction r arbitrary: m) (auto simp: run_simps)

lemma run_write_row:
  "run_state (write_row i r) \<lparr>q_stack = WriteArray a j n # st, q_map = m\<rparr>
   = ((), \<lparr>q_stack = WriteArray a (Suc i) (max n (Suc i)) # st,
            q_map = put_row (stack_prefix st @ [a, show_nat (Suc i)]) r m\<rparr>)"
  by (simp add: write_row_def run_simps run_row)

lemma run_rows:
  "\<exists>j'. run_state (for_each (List.enumerate i rows) (\<lambda>(i, r). write_row i r))
     \<lparr>q_stack = WriteArray a j i # st, q_map = m\<rparr>
   = ((), \<lparr>q_stack = WriteArray a j' (i + length rows) # st,
            q_map = put_rows (stack_prefix st @ [a]) i rows m\<rparr>)"
proof (induction rows arbitrary: i j m)
  case Nil
  then show ?case by simp
next
  case (Cons r rows)
  show ?case
    using Cons.IH [of "Suc i" "Suc i" "put_row (stack_prefix st @ [a, show_nat (Suc i)]) r m"]
    by (simp add: run_write_row)
qed

lemma run_write_array [run_simps]:
  "run_state (write_array a rows) q = ((), q\<lparr>q_map := put_array (q_prefix q @ [a]) rows (q_map q)\<rparr>)"
proof (cases q)
  case (fields st m)
  obtain j' where
    "run_state (for_each (List.enumerate 0 rows) (\<lambda>(i, r). write_row i r))
       \<lparr>q_stack = WriteArray a 0 0 # st, q_map = m(stack_prefix st @ [a, ''size''] := None)\<rparr>
     = ((), \<lparr>q_stack = WriteArray a j' (length rows) # st,
              q_map = put_rows (stack_prefix st @ [a]) 0 rows (m(stack_prefix st @ [a, ''size''] := None))\<rparr>)"
    using run_rows [of 0 rows a 0 st] by fastforce
  with fields show ?thesis
    by (simp add: write_array_def beginWriteArray_def endArray_def put_array_def)
qed

text \<open>Keys outside the array are untouched; the cells of the array are found again.\<close>

lemma put_row_other: "take (length p) k \<noteq> p \<Longrightarrow> put_row p r m k = m k"
  by (induction r arbitrary: m) auto

lemma put_row_len: "length k \<noteq> Suc (length p) \<Longrightarrow> put_row p r m k = m k"
  by (induction r arbitrary: m) auto

lemma take_longer: "take (length p) k \<noteq> p \<Longrightarrow> take (length (p @ xs)) k \<noteq> p @ xs"
proof
  assume "take (length p) k \<noteq> p" and eq: "take (length (p @ xs)) k = p @ xs"
  moreover have "take (length p) k = p" using arg_cong [OF eq, of "take (length p)"] by simp
  ultimately show False by simp
qed

lemma put_rows_other: "take (length p) k \<noteq> p \<Longrightarrow> put_rows p i rows m k = m k"
proof (induction rows arbitrary: i m)
  case Nil
  then show ?case by simp
next
  case (Cons r rows)
  then have "take (length (p @ [show_nat (Suc i)])) k \<noteq> p @ [show_nat (Suc i)]"
    by (intro take_longer)
  with Cons show ?case by (simp add: put_row_other)
qed

lemma put_array_other: "take (length p) k \<noteq> p \<Longrightarrow> put_array p rows m k = m k"
  by (auto simp: put_array_def put_rows_other)

lemma put_row_cell:
  "distinct (map fst r) \<Longrightarrow> (k, v) \<in> set r \<Longrightarrow> put_row p r m (p @ [k]) = Some v"
proof (induction r arbitrary: m)
  case Nil
  then show ?case by simp
next
  case (Cons e r)
  have absent: "k' \<notin> fst ` set r' \<Longrightarrow> put_row p r' m' (p @ [k']) = m' (p @ [k'])" for k' r' m'
    by (induction r' arbitrary: m') auto
  show ?case
  proof (cases "e = (k, v)")
    case True
    with Cons.prems absent [of k r] show ?thesis by simp
  next
    case False
    with Cons show ?thesis by auto
  qed
qed

lemma put_rows_earlier:
  "j \<le> i \<Longrightarrow> put_rows p i rows m (p @ [show_nat j, k]) = m (p @ [show_nat j, k])"
  by (induction rows arbitrary: i m) (auto simp: put_row_other)

lemma put_rows_cell:
  assumes "\<forall>r \<in> set rows. distinct (map fst r)" and "j < length rows" and "(k, v) \<in> set (rows ! j)"
  shows "put_rows p i rows m (p @ [show_nat (Suc (i + j)), k]) = Some v"
  using assms
proof (induction rows arbitrary: i j m)
  case Nil
  then show ?case by simp
next
  case (Cons r rows)
  show ?case
  proof (cases j)
    case 0
    with Cons.prems have "put_row (p @ [show_nat (Suc i)]) r m ((p @ [show_nat (Suc i)]) @ [k]) = Some v"
      by (intro put_row_cell) auto
    with 0 show ?thesis by (simp add: put_rows_earlier)
  next
    case (Suc j')
    with Cons.prems Cons.IH [of j' "Suc i"] show ?thesis by simp
  qed
qed

lemma put_array_cell:
  assumes "\<forall>r \<in> set rows. distinct (map fst r)" and "j < length rows" and "(k, v) \<in> set (rows ! j)"
  shows "put_array p rows m (p @ [show_nat (Suc j), k]) = Some v"
  using put_rows_cell [OF assms, of p 0] by (simp add: put_array_def)

lemma put_array_size: "put_array p rows m (p @ [''size'']) = Some (show_nat (length rows))"
  by (simp add: put_array_def)

text \<open>What \<open>read_array\<close> finds in a key map: the cells named \<open>ks\<close> of the first \<open>size\<close> rows.\<close>

definition array_cells :: "string list \<Rightarrow> string list \<Rightarrow> settings \<Rightarrow> string list list" where
  "array_cells p ks m =
     map (\<lambda>j. map (\<lambda>k. to_text (m (p @ [show_nat (Suc j), k]))) ks) [0..<nat (to_int (m (p @ [''size''])))]"

lemma run_cells:
  "run_state (State_Monad.traverse_list (\<lambda>k. do { v \<leftarrow> settings_value k; State_Monad.return (to_text v) }) ks) q
   = (map (\<lambda>k. to_text (q_map q (q_prefix q @ [k]))) ks, q)"
  by (induction ks) (auto simp: run_simps)

lemma run_read_row:
  "run_state (read_row ks i) \<lparr>q_stack = ReadArray a j # st, q_map = m\<rparr>
   = (map (\<lambda>k. to_text (m (stack_prefix st @ [a, show_nat (Suc i), k]))) ks,
      \<lparr>q_stack = ReadArray a (Suc i) # st, q_map = m\<rparr>)"
  by (simp add: read_row_def run_simps run_cells)

lemma run_read_rows:
  "\<exists>j'. run_state (State_Monad.traverse_list (read_row ks) is) \<lparr>q_stack = ReadArray a j # st, q_map = m\<rparr>
   = (map (\<lambda>i. map (\<lambda>k. to_text (m (stack_prefix st @ [a, show_nat (Suc i), k]))) ks) is,
      \<lparr>q_stack = ReadArray a j' # st, q_map = m\<rparr>)"
proof (induction "is" arbitrary: j)
  case Nil
  then show ?case by simp
next
  case (Cons i "is")
  obtain j' where "run_state (State_Monad.traverse_list (read_row ks) is)
       \<lparr>q_stack = ReadArray a (Suc i) # st, q_map = m\<rparr>
     = (map (\<lambda>i. map (\<lambda>k. to_text (m (stack_prefix st @ [a, show_nat (Suc i), k]))) ks) is,
        \<lparr>q_stack = ReadArray a j' # st, q_map = m\<rparr>)"
    using Cons.IH [of "Suc i"] by blast
  then show ?case by (simp add: run_read_row)
qed

lemma run_read_array [run_simps]:
  "run_state (read_array a ks) q = (array_cells (q_prefix q @ [a]) ks (q_map q), q)"
proof (cases q)
  case (fields st m)
  obtain j' where
    "run_state (State_Monad.traverse_list (read_row ks) [0..<nat (to_int (m (stack_prefix st @ [a, ''size''])))])
       \<lparr>q_stack = ReadArray a 0 # st, q_map = m\<rparr>
     = (array_cells (stack_prefix st @ [a]) ks m, \<lparr>q_stack = ReadArray a j' # st, q_map = m\<rparr>)"
    using run_read_rows [of ks _ a 0 st m] by (fastforce simp: array_cells_def)
  with fields show ?thesis
    by (simp add: read_array_def beginReadArray_def endArray_def run_simps)
qed

lemma to_int_show_nat [simp]: "n < 2 ^ 31 \<Longrightarrow> to_int (Some (show_nat n)) = int n"
  using parse_show_int [of "int n"] by (simp add: to_int_def show_int_def)

text \<open>The round trip of an array, and that other keys do not disturb it.\<close>

lemma array_cells_put:
  assumes "distinct ks" and "\<forall>x \<in> set xs. length (f x) = length ks" and "length xs < 2 ^ 31"
  shows "array_cells p ks (put_array p (map (\<lambda>x. zip ks (f x)) xs) m) = map f xs"
proof -
  let ?M = "put_array p (map (\<lambda>x. zip ks (f x)) xs) m"
  have cell: "?M (p @ [show_nat (Suc j), ks ! i]) = Some (f (xs ! j) ! i)"
    if "j < length xs" "i < length ks" for i j
  proof (rule put_array_cell)
    show "\<forall>r \<in> set (map (\<lambda>x. zip ks (f x)) xs). distinct (map fst r)"
      using assms(1,2) by simp
    show "(ks ! i, f (xs ! j) ! i) \<in> set (map (\<lambda>x. zip ks (f x)) xs ! j)"
      using assms(2) that by (auto simp: set_zip)
  qed (use that in simp)
  have "map (\<lambda>k. to_text (?M (p @ [show_nat (Suc j), k]))) ks = f (xs ! j)" if "j < length xs" for j
    using cell [OF that] assms(2) that by (intro nth_equalityI) auto
  then show ?thesis
    using assms(3) by (auto simp: array_cells_def put_array_size intro!: nth_equalityI)
qed

lemma array_cells_upd [simp]:
  "take (length p) k \<noteq> p \<Longrightarrow> array_cells p ks (m(k \<mapsto> v)) = array_cells p ks m"
  by (auto simp: array_cells_def)

lemma array_cells_put_other [simp]:
  "length p = length p' \<Longrightarrow> p \<noteq> p' \<Longrightarrow> array_cells p ks (put_array p' rows m) = array_cells p ks m"
  by (simp add: array_cells_def put_array_other)

end
