(* ===== verification/ConfMain.thy ===== *)
theory ConfMain
  imports Settings
begin

text \<open>
  \<open>tiConfMain\<close> (ticonf.cpp) with the constants of config.h.in: finding, creating, upgrading and
  reading the main configuration file. \<open>conf_env\<close> is what the process environment
  contributes: the value of \<open>TIBACKUP_CONF\<close> (empty when unset) and how a path is made
  absolute.
\<close>

section \<open>Constants\<close>

record conf_env =
  ce_override :: string
  ce_absdir :: "string \<Rightarrow> string"

definition file_main :: string where "file_main = ''/etc/tibackup/main.conf''"
definition initd_default :: string where "initd_default = ''/etc/init.d/tibackup''"
definition systemd_name :: string where "systemd_name = ''tibackupd''"
definition backup_detail_folder :: string where "backup_detail_folder = ''backup_detail''"
definition script_run_user :: string where "script_run_user = ''tibackup''"
definition mail_from_default :: string where
  "mail_from_default = ''tiBackup Backupsystem <tibackup@iteas.at>''"

definition mainConfigFile :: "conf_env \<Rightarrow> string" where
  "mainConfigFile V = (if ce_override V \<noteq> [] then ce_override V else file_main)"

definition logsDir :: "conf_env \<Rightarrow> string" where
  "logsDir V = (if ce_override V \<noteq> [] then ce_absdir V (ce_override V) @ ''/logs''
                else ''/var/log/tibackup'')"

definition schedulerStateFile :: "conf_env \<Rightarrow> string" where
  "schedulerStateFile V = ce_absdir V (mainConfigFile V) @ ''/scheduler_state.conf''"

definition root_dir :: "perm set" where "root_dir = {ReadOwner, WriteOwner, ExeOwner}"
definition root_file :: "perm set" where "root_file = {ReadOwner, WriteOwner}"

text \<open>A key is written with slashes, as in the code; the settings map holds its segments.\<close>

definition mkey :: "string \<Rightarrow> string list" where
  "mkey p = split_on CHR ''/'' p"

definition file_keys :: "'w ext \<Rightarrow> string \<Rightarrow> 'w sys \<Rightarrow> settings" where
  "file_keys E p s = (case file_at s p of None \<Rightarrow> Map.empty | Some f \<Rightarrow> keys_of E f)"

section \<open>Creating and upgrading the file\<close>

definition fresh_conf :: "conf_env \<Rightarrow> string \<Rightarrow> settings" where
  "fresh_conf V d = [
     mkey ''main/debug'' \<mapsto> of_bool_text False,
     mkey ''paths/backupjobs'' \<mapsto> d @ ''/jobs'',
     mkey ''paths/pbservers'' \<mapsto> d @ ''/pbservers'',
     mkey ''paths/sshservers'' \<mapsto> d @ ''/sshservers'',
     mkey ''paths/logs'' \<mapsto> logsDir V,
     mkey ''paths/scripts'' \<mapsto> d @ ''/scripts'',
     mkey ''paths/initd'' \<mapsto> initd_default,
     mkey ''scripts/run_user'' \<mapsto> script_run_user,
     mkey ''smtp/from'' \<mapsto> mail_from_default,
     mkey ''smtp/port'' \<mapsto> ''25'',
     mkey ''smtp/security'' \<mapsto> ''none'',
     mkey ''web/bind'' \<mapsto> ''0.0.0.0'']"

text \<open>
  One block of the upgrade branch: a key that is missing is set and the file synced, after
  its directory, if it names one, was created.
\<close>

definition seed ::
  "string \<Rightarrow> string list \<Rightarrow> string \<Rightarrow> bool \<Rightarrow> settings \<times> 'w sys \<Rightarrow> settings \<times> 'w sys" where
  "seed conf k v is_dir = (\<lambda>(m, s).
     if m k = None
     then (let s' = (if is_dir then mkpath v s else s); m' = m(k \<mapsto> v)
           in (m', file_write conf (Settings m') s'))
     else (m, s))"

definition migrate_logs :: "conf_env \<Rightarrow> string \<Rightarrow> string \<Rightarrow> settings \<times> 'w sys \<Rightarrow> settings \<times> 'w sys" where
  "migrate_logs V conf d = (\<lambda>(m, s).
     let oldDefaultLogs = d @ ''/logs'' in
     if to_text (m (mkey ''paths/logs'')) = oldDefaultLogs \<and> oldDefaultLogs \<noteq> logsDir V
     then (let m' = m(mkey ''paths/logs'' \<mapsto> logsDir V) in (m', file_write conf (Settings m') s))
     else (m, s))"

definition upgrade_conf :: "conf_env \<Rightarrow> string \<Rightarrow> string \<Rightarrow> settings \<times> 'w sys \<Rightarrow> settings \<times> 'w sys" where
  "upgrade_conf V conf d ms =
     migrate_logs V conf d
      (seed conf (mkey ''smtp/security'') ''none'' False
        (seed conf (mkey ''smtp/port'') ''25'' False
          (seed conf (mkey ''smtp/from'') mail_from_default False
            (seed conf (mkey ''scripts/run_user'') script_run_user False
              (seed conf (mkey ''paths/sshservers'') (d @ ''/sshservers'') True
                (seed conf (mkey ''paths/pbservers'') (d @ ''/pbservers'') True ms))))))"

definition create_conf :: "conf_env \<Rightarrow> string \<Rightarrow> string \<Rightarrow> 'w sys \<Rightarrow> 'w sys" where
  "create_conf V conf d s =
     file_write conf (Settings (fresh_conf V d))
       (mkpath (d @ ''/scripts'') (mkpath (logsDir V) (mkpath (d @ ''/jobs'')
         (mkpath (d @ ''/sshservers'') (mkpath (d @ ''/pbservers'') s)))))"

definition logs_base :: "conf_env \<Rightarrow> settings \<Rightarrow> string" where
  "logs_base V m = (case m (mkey ''paths/logs'') of None \<Rightarrow> logsDir V | Some t \<Rightarrow> t)"

text \<open>The end of the function: the log directories, and the permissions of the tree.\<close>

definition secure_conf :: "'w ext \<Rightarrow> conf_env \<Rightarrow> string \<Rightarrow> string \<Rightarrow> 'w sys \<Rightarrow> 'w sys" where
  "secure_conf E V conf d s =
     (let lb = logs_base V (file_keys E conf s);
          s1 = set_mode lb root_dir (mkpath (lb @ ''/'' @ backup_detail_folder) (mkpath lb s));
          s2 = set_mode d root_dir s1
      in if path_exists s2 conf then set_mode conf root_file s2 else s2)"

definition initMainConf :: "'w ext \<Rightarrow> conf_env \<Rightarrow> 'w sys \<Rightarrow> 'w sys" where
  "initMainConf E V s =
     (let conf = mainConfigFile V; d = ce_absdir V conf; s0 = mkpath d s;
          s1 = (if \<not> path_exists s0 conf then create_conf V conf d s0
                else snd (upgrade_conf V conf d (file_keys E conf s0, s0)))
      in secure_conf E V conf d s1)"

section \<open>The object\<close>

record tiConfMain =
  m_valid :: bool
  m_settings :: settings

definition new_tiConfMain :: "'w ext \<Rightarrow> conf_env \<Rightarrow> 'w sys \<Rightarrow> tiConfMain \<times> 'w sys" where
  "new_tiConfMain E V s =
     (let s' = initMainConf E V s in
      (\<lparr>m_valid = path_exists s' (mainConfigFile V), m_settings = file_keys E (mainConfigFile V) s'\<rparr>, s'))"

definition getValue :: "tiConfMain \<Rightarrow> string \<Rightarrow> string option" where
  "getValue C p = m_settings C (mkey p)"

definition confSetValue :: "string \<Rightarrow> string \<Rightarrow> tiConfMain \<Rightarrow> tiConfMain" where
  "confSetValue p v C = C\<lparr>m_settings := (m_settings C)(mkey p \<mapsto> v)\<rparr>"

definition confSync :: "conf_env \<Rightarrow> tiConfMain \<Rightarrow> 'w sys \<Rightarrow> 'w sys" where
  "confSync V C s =
     set_mode (mainConfigFile V) root_file (file_write (mainConfigFile V) (Settings (m_settings C)) s)"

definition getLogsDetailDir :: "conf_env \<Rightarrow> tiConfMain \<Rightarrow> string" where
  "getLogsDetailDir V C = logs_base V (m_settings C) @ ''/'' @ backup_detail_folder"

lemma mtab_new_tiConfMain [simp]: "mtab (snd (new_tiConfMain E V s)) = mtab s"
proof -
  have seed: "mtab (snd (seed conf k v b ms)) = mtab (snd ms)" for conf k v b and ms :: "settings \<times> 'a sys"
    by (cases ms) (simp add: seed_def Let_def)
  have "mtab (snd (migrate_logs V conf d ms)) = mtab (snd ms)" for conf d and ms :: "settings \<times> 'a sys"
    by (cases ms) (simp add: migrate_logs_def Let_def)
  then show ?thesis
    by (simp add: new_tiConfMain_def initMainConf_def create_conf_def upgrade_conf_def secure_conf_def seed Let_def)
qed

text \<open>Constructing the object leaves the contents of every other file alone.\<close>

definition content_at :: "'w sys \<Rightarrow> string \<Rightarrow> body option" where
  "content_at s p = map_option f_body (file_at s p)"

lemma content_write [simp]: "p \<noteq> q \<Longrightarrow> content_at (file_write q b s) p = content_at s p"
  by (cases "refused s q") (simp_all add: content_at_def file_at_write, simp add: file_write_def)

lemma content_set_mode [simp]: "content_at (set_mode q m s) p = content_at s p"
  by (cases "file_at s p") (auto simp: content_at_def file_at_set_mode)

lemma content_mkpath [simp]: "content_at (mkpath q s) p = content_at s p"
  by (simp add: content_at_def)

lemma content_new_tiConfMain:
  assumes "p \<noteq> mainConfigFile V"
  shows "content_at (snd (new_tiConfMain E V s)) p = content_at s p"
proof -
  have seed: "content_at (snd (seed (mainConfigFile V) k v b ms)) p = content_at (snd ms) p"
    for k v b and ms :: "settings \<times> 'a sys"
    using assms by (cases ms) (simp add: seed_def Let_def)
  have "content_at (snd (migrate_logs V (mainConfigFile V) d ms)) p = content_at (snd ms) p"
    for d and ms :: "settings \<times> 'a sys"
    using assms by (cases ms) (simp add: migrate_logs_def Let_def)
  with assms show ?thesis
    by (simp add: new_tiConfMain_def initMainConf_def create_conf_def upgrade_conf_def secure_conf_def seed Let_def)
qed

section \<open>What the file holds afterwards\<close>

lemma mkey_inject [simp]: "mkey p = mkey q \<longleftrightarrow> p = q"
  by (metis join_split_on mkey_def)

text \<open>
  The specification: a missing file becomes the fresh one; an existing file keeps every value
  it has, gets the defaults of the keys it lacks, and has a log directory that still points
  into the configuration tree moved to the log location.
\<close>

definition upgrade_defaults :: "string \<Rightarrow> settings" where
  "upgrade_defaults d = [
     mkey ''paths/pbservers'' \<mapsto> d @ ''/pbservers'',
     mkey ''paths/sshservers'' \<mapsto> d @ ''/sshservers'',
     mkey ''scripts/run_user'' \<mapsto> script_run_user,
     mkey ''smtp/from'' \<mapsto> mail_from_default,
     mkey ''smtp/port'' \<mapsto> ''25'',
     mkey ''smtp/security'' \<mapsto> ''none'']"

definition conf_spec :: "conf_env \<Rightarrow> string \<Rightarrow> settings option \<Rightarrow> settings" where
  "conf_spec V d old =
     (case old of
        None \<Rightarrow> fresh_conf V d
      | Some m \<Rightarrow> (\<lambda>k. if k = mkey ''paths/logs'' \<and> m k = Some (d @ ''/logs'') then Some (logsDir V)
                       else (upgrade_defaults d ++ m) k))"

lemma conf_spec_idem: "conf_spec V d (Some (conf_spec V d old)) = conf_spec V d old"
  by (cases old)
     (auto simp: conf_spec_def fun_eq_iff fresh_conf_def upgrade_defaults_def map_add_def
       split: option.splits)

definition conf_synced :: "'w ext \<Rightarrow> string \<Rightarrow> settings \<times> 'w sys \<Rightarrow> bool" where
  "conf_synced E conf ms \<longleftrightarrow> file_keys E conf (snd ms) = fst ms \<and> \<not> refused (snd ms) conf
     \<and> file_at (snd ms) conf \<noteq> None"

lemma file_keys_mkpath [simp]: "file_keys E conf (mkpath p s) = file_keys E conf s"
  by (simp add: file_keys_def)

lemma conf_synced_write:
  "\<not> refused s conf \<Longrightarrow> conf_synced E conf (m, file_write conf (Settings m) s)"
  by (simp add: conf_synced_def file_keys_def file_at_write keys_of_def)

lemma single_default:
  "[k \<mapsto> v] ++ m = (if m k = None then m(k \<mapsto> v) else m)"
  by (auto simp: map_add_def fun_eq_iff split: option.splits)

lemma seed_synced:
  assumes "conf_synced E conf ms"
  shows "conf_synced E conf (seed conf k v b ms) \<and> fst (seed conf k v b ms) = [k \<mapsto> v] ++ fst ms"
proof -
  obtain m s where ms: "ms = (m, s)" by fastforce
  with assms have "\<not> refused s conf" by (simp add: conf_synced_def)
  with ms assms show ?thesis
    by (simp add: seed_def Let_def conf_synced_write single_default)
qed

lemma migrate_synced:
  assumes "conf_synced E conf ms"
  shows "conf_synced E conf (migrate_logs V conf d ms)
    \<and> fst (migrate_logs V conf d ms) =
       (if fst ms (mkey ''paths/logs'') = Some (d @ ''/logs'')
        then (fst ms)(mkey ''paths/logs'' \<mapsto> logsDir V) else fst ms)"
proof -
  obtain m s where ms: "ms = (m, s)" by fastforce
  with assms have "\<not> refused s conf" by (simp add: conf_synced_def)
  with ms assms show ?thesis
    by (cases "m (mkey ''paths/logs'')")
       (auto simp: migrate_logs_def Let_def conf_synced_write fun_upd_idem_iff)
qed

lemma upgrade_conf_spec:
  assumes "conf_synced E conf ms"
  shows "conf_synced E conf (upgrade_conf V conf d ms)
    \<and> fst (upgrade_conf V conf d ms) = conf_spec V d (Some (fst ms))"
proof -
  let ?u = "upgrade_conf V conf d ms"
  define m where "m = upgrade_defaults d ++ fst ms"
  have "[mkey ''smtp/security'' \<mapsto> ''none''] ++ ([mkey ''smtp/port'' \<mapsto> ''25''] ++
      ([mkey ''smtp/from'' \<mapsto> mail_from_default] ++ ([mkey ''scripts/run_user'' \<mapsto> script_run_user] ++
       ([mkey ''paths/sshservers'' \<mapsto> d @ ''/sshservers''] ++
        ([mkey ''paths/pbservers'' \<mapsto> d @ ''/pbservers''] ++ fst ms))))) = m"
    by (simp add: m_def upgrade_defaults_def map_add_def fun_eq_iff split: option.splits)
  then have "conf_synced E conf ?u \<and>
     fst ?u = (if m (mkey ''paths/logs'') = Some (d @ ''/logs'')
               then m(mkey ''paths/logs'' \<mapsto> logsDir V) else m)"
    unfolding upgrade_conf_def
    by (simp add: assms seed_synced [where E = E] migrate_synced [where E = E])
  moreover have "m (mkey ''paths/logs'') = fst ms (mkey ''paths/logs'')"
    by (simp add: m_def upgrade_defaults_def map_add_def split: option.splits)
  ultimately show ?thesis
    by (auto simp: conf_spec_def m_def)
qed

lemma file_keys_set_mode [simp]: "file_keys E conf (set_mode p m s) = file_keys E conf s"
  by (cases "file_at s conf")
     (auto simp: file_keys_def file_at_set_mode keys_of_def split: option.splits)

lemma path_exists_file: "file_at s p \<noteq> None \<Longrightarrow> path_exists s p"
  by (simp add: path_exists_def)

text \<open>\<open>conf_free\<close>: the configuration file may be written, and its name is not taken by a directory.\<close>

definition conf_free :: "conf_env \<Rightarrow> 'w sys \<Rightarrow> bool" where
  "conf_free V s \<longleftrightarrow>
     (let conf = mainConfigFile V; d = ce_absdir V conf in
      \<not> refused s conf \<and> (file_at s conf \<noteq> None \<or> conf \<notin> insert d (parents d) \<union> dirs s))"

lemma path_exists_mkpath:
  "path_exists (mkpath p s) q \<longleftrightarrow> path_exists s q \<or> (\<not> refused s p \<and> q \<in> insert p (parents p))"
  by (auto simp: path_exists_def mkpath_def file_at_def)

definition init_conf_file :: "'w ext \<Rightarrow> conf_env \<Rightarrow> 'w sys \<Rightarrow> 'w sys" where
  "init_conf_file E V s =
     (let conf = mainConfigFile V; d = ce_absdir V conf; s0 = mkpath d s
      in if \<not> path_exists s0 conf then create_conf V conf d s0
         else snd (upgrade_conf V conf d (file_keys E conf s0, s0)))"

lemma initMainConf_alt:
  "initMainConf E V s =
     secure_conf E V (mainConfigFile V) (ce_absdir V (mainConfigFile V)) (init_conf_file E V s)"
  by (simp add: initMainConf_def init_conf_file_def Let_def)

lemma init_synced:
  assumes "conf_free V s"
  shows "conf_synced E (mainConfigFile V)
    (conf_spec V (ce_absdir V (mainConfigFile V)) (map_option (keys_of E) (file_at s (mainConfigFile V))),
     init_conf_file E V s)"
proof (cases "file_at s (mainConfigFile V)")
  case None
  with assms have "\<not> path_exists (mkpath (ce_absdir V (mainConfigFile V)) s) (mainConfigFile V)"
    unfolding path_exists_mkpath by (auto simp: conf_free_def path_exists_def Let_def)
  with None assms show ?thesis
    by (simp add: init_conf_file_def create_conf_def conf_synced_write conf_free_def conf_spec_def Let_def)
next
  case (Some f)
  let ?s0 = "mkpath (ce_absdir V (mainConfigFile V)) s"
  have "conf_synced E (mainConfigFile V) (file_keys E (mainConfigFile V) ?s0, ?s0)"
    and "path_exists ?s0 (mainConfigFile V)"
    using assms Some by (auto simp: conf_synced_def conf_free_def path_exists_def Let_def)
  with Some upgrade_conf_spec [OF this(1), of V "ce_absdir V (mainConfigFile V)"] show ?thesis
    by (auto simp: init_conf_file_def conf_synced_def file_keys_def Let_def)
qed

lemma init_secured:
  assumes "conf_free V s"
  shows "file_keys E (mainConfigFile V) (initMainConf E V s)
      = conf_spec V (ce_absdir V (mainConfigFile V)) (map_option (keys_of E) (file_at s (mainConfigFile V)))
    \<and> (\<exists>f. file_at (initMainConf E V s) (mainConfigFile V) = Some f \<and> f_mode f = root_file)
    \<and> \<not> refused (initMainConf E V s) (mainConfigFile V)"
proof -
  let ?conf = "mainConfigFile V"
  let ?s1 = "init_conf_file E V s"
  note s1 = init_synced [OF assms, of E]
  have "path_exists (set_mode d root_dir (set_mode l root_dir (mkpath l' (mkpath l ?s1)))) ?conf" for d l l'
    using s1 by (intro path_exists_file) (auto simp: conf_synced_def file_at_set_mode)
  with s1 show ?thesis
    by (auto simp: initMainConf_alt secure_conf_def Let_def conf_synced_def file_at_set_mode)
qed

text \<open>
  C33. Constructing \<open>tiConfMain\<close> leaves the main configuration file exactly as the upgrade
  policy says: a missing file is created with every key; an existing file keeps each value an
  administrator set, gains the keys it lacks with their defaults, and only a log directory
  that is still the old in-tree one is moved. The file is then readable by root alone.
\<close>

theorem main_conf_upgrade:
  assumes "conf_free V s"
  shows "file_keys E (mainConfigFile V) (initMainConf E V s)
      = conf_spec V (ce_absdir V (mainConfigFile V)) (map_option (keys_of E) (file_at s (mainConfigFile V)))
    \<and> map_option f_mode (file_at (initMainConf E V s) (mainConfigFile V)) = Some root_file"
  using init_secured [OF assms, of E] by auto

definition default_env :: conf_env where
  "default_env = \<lparr>ce_override = [], ce_absdir = (\<lambda>_. ''/etc/tibackup'')\<rparr>"

definition old_conf :: "unit sys" where
  "old_conf = calm_sys\<lparr>files := [(file_main,
     \<lparr>f_body = Settings [mkey ''paths/logs'' \<mapsto> ''/etc/tibackup/logs'', mkey ''smtp/port'' \<mapsto> ''587''],
      f_mode = {ReadOwner, WriteOwner, ReadGroup, ReadOther}\<rparr>)]\<rparr>"

lemmas conf_example = default_env_def old_conf_def mainConfigFile_def logsDir_def calm_defs file_at_def

theorem main_conf_upgrade_witness:
  "map_option f_mode (file_at (initMainConf calm_ext default_env old_conf) file_main) = Some root_file
   \<and> file_keys calm_ext file_main (initMainConf calm_ext default_env old_conf) (mkey ''paths/logs'')
      = Some ''/var/log/tibackup''
   \<and> file_keys calm_ext file_main (initMainConf calm_ext default_env old_conf) (mkey ''smtp/port'') = Some ''587''
   \<and> file_keys calm_ext file_main (initMainConf calm_ext default_env old_conf) (mkey ''smtp/security'')
      = Some ''none''"
proof -
  have "conf_free default_env old_conf"
    by (simp add: conf_free_def conf_example)
  from main_conf_upgrade [OF this, of calm_ext] show ?thesis
    by (simp add: conf_example conf_spec_def upgrade_defaults_def keys_of_def map_add_def)
qed

text \<open>
  Constructing it again changes no key: the upgrade runs its course once.
\<close>

theorem main_conf_stable:
  assumes "conf_free V s"
  shows "file_keys E (mainConfigFile V) (initMainConf E V (initMainConf E V s))
      = file_keys E (mainConfigFile V) (initMainConf E V s)"
proof -
  let ?s' = "initMainConf E V s"
  from init_secured [OF assms, of E] obtain f where
    f: "file_at ?s' (mainConfigFile V) = Some f" and free: "conf_free V ?s'"
    by (auto simp: conf_free_def Let_def)
  then have "keys_of E f = file_keys E (mainConfigFile V) ?s'" by (simp add: file_keys_def)
  with f init_secured [OF assms, of E] init_secured [OF free, of E] show ?thesis
    by (simp add: conf_spec_idem)
qed

theorem main_conf_stable_witness:
  "file_keys calm_ext file_main (initMainConf calm_ext default_env (initMainConf calm_ext default_env old_conf))
   = file_keys calm_ext file_main (initMainConf calm_ext default_env old_conf)"
  using main_conf_stable [of default_env old_conf calm_ext]
  by (simp add: conf_free_def conf_example)

end
