(* ===== verification/Mounts.thy ===== *)
theory Mounts
  imports JobData
begin

text \<open>
  Mounting and unmounting a backup target (\<open>TiBackupLib::mountPartition\<close>,
  \<open>umountPartition\<close>, \<open>isMounted\<close>, \<open>getMountDir\<close>, \<open>getMountPathSrc\<close> of tibackuplib.cpp), and the
  conversion between paths and generic paths. The mount table \<open>/etc/mtab\<close> is a list of
  device and directory, \<open>None\<close> when it cannot be opened; \<open>mount\<close>, \<open>umount\<close> and
  \<open>cryptsetup\<close> are programs of the outside world and may change it in any way.
\<close>

section \<open>The mount table\<close>

definition mount_root :: string where "mount_root = ''/mnt''"
definition var_partbackup_dir :: string where "var_partbackup_dir = ''%MNTBACKUPDIR%''"

definition isMounted_path :: "string \<Rightarrow> 'w sys \<Rightarrow> bool" where
  "isMounted_path dev s =
     (case mtab s of
        None \<Rightarrow> False
      | Some es \<Rightarrow> foldl (\<lambda>found e. if fst e = dev then True else found) False es)"

definition getMountDir_path :: "string \<Rightarrow> 'w sys \<Rightarrow> string" where
  "getMountDir_path dev s =
     (case mtab s of
        None \<Rightarrow> []
      | Some es \<Rightarrow> foldl (\<lambda>d e. if fst e = dev then snd e else d) [] es)"

definition getMountPathSrc :: "DeviceDiskPartition \<Rightarrow> string" where
  "getMountPathSrc p =
     (if part_type p = ''crypto_LUKS'' then ''/dev/mapper/tibackup_enc_'' @ part_uuid p
      else part_name p)"

definition isMounted :: "DeviceDiskPartition \<Rightarrow> 'w sys \<Rightarrow> bool" where
  "isMounted p s = isMounted_path (getMountPathSrc p) s"

definition getMountDir :: "DeviceDiskPartition \<Rightarrow> 'w sys \<Rightarrow> string" where
  "getMountDir p s = getMountDir_path (getMountPathSrc p) s"

lemma foldl_found: "foldl (\<lambda>found e. fst e \<noteq> d \<longrightarrow> found) b es \<longleftrightarrow> b \<or> d \<in> fst ` set es"
  by (induction es arbitrary: b) auto

lemma isMounted_path_iff:
  "isMounted_path dev s \<longleftrightarrow> (\<exists>es. mtab s = Some es \<and> dev \<in> fst ` set es)"
  by (simp add: isMounted_path_def foldl_found split: option.splits)

lemma foldl_last_match:
  "foldl (\<lambda>d e. if P e then f e else d) d es
   = (if filter P es = [] then d else f (last (filter P es)))"
  by (induction es arbitrary: d) auto

lemma getMountDir_path_last:
  "mtab s = Some es \<Longrightarrow> filter (\<lambda>e. fst e = dev) es \<noteq> [] \<Longrightarrow>
   getMountDir_path dev s = snd (last (filter (\<lambda>e. fst e = dev) es))"
  by (simp add: getMountDir_path_def foldl_last_match)

lemma getMountDir_in_table:
  assumes "isMounted p s"
  shows "\<exists>tab. mtab s = Some tab \<and> (getMountPathSrc p, getMountDir p s) \<in> set tab"
proof -
  let ?P = "\<lambda>e. fst e = getMountPathSrc p"
  from assms obtain tab where tab: "mtab s = Some tab" "filter ?P tab \<noteq> []"
    unfolding isMounted_def isMounted_path_iff filter_empty_conv by force
  then have "last (filter ?P tab) \<in> set (filter ?P tab)" by (intro last_in_set)
  then have "last (filter ?P tab) \<in> set tab" "fst (last (filter ?P tab)) = getMountPathSrc p" by auto
  with tab show ?thesis by (metis getMountDir_def getMountDir_path_last prod.collapse)
qed

lemma getMountDir_path_unmounted: "\<not> isMounted_path dev s \<Longrightarrow> getMountDir_path dev s = []"
  by (auto simp: isMounted_path_iff getMountDir_path_def foldl_last_match filter_empty_conv
      split: option.splits)

text \<open>
  \<open>getMountDir\<close> and \<open>isMounted\<close> agree: a mounted partition's directory is that of a table
  entry of its own source device, namely of the last one; a partition that is not mounted has
  the empty directory. The source device of an encrypted partition is its mapping.
\<close>

theorem mount_dir_from_table:
  "if isMounted p s
   then \<exists>es pre d post. mtab s = Some es \<and> es = pre @ (getMountPathSrc p, d) # post
          \<and> getMountPathSrc p \<notin> fst ` set post \<and> getMountDir p s = d
   else getMountDir p s = []"
proof (cases "isMounted p s")
  case True
  then obtain es where es: "mtab s = Some es" "getMountPathSrc p \<in> fst ` set es"
    by (auto simp: isMounted_def isMounted_path_iff)
  then have "\<exists>x \<in> set es. fst x = getMountPathSrc p" by force
  then obtain pre e post where sp: "es = pre @ e # post" "fst e = getMountPathSrc p"
    "\<forall>x \<in> set post. fst x \<noteq> getMountPathSrc p"
    using split_list_last_prop [of es "\<lambda>e. fst e = getMountPathSrc p"] by blast
  then have "getMountDir p s = snd e"
    using es by (simp add: getMountDir_def getMountDir_path_def foldl_last_match)
  moreover have "e = (getMountPathSrc p, snd e)" using sp(2) by (cases e) simp
  ultimately have "mtab s = Some es \<and> es = pre @ (getMountPathSrc p, snd e) # post
      \<and> getMountPathSrc p \<notin> fst ` set post \<and> getMountDir p s = snd e"
    using es(1) sp by auto
  with True show ?thesis by (simp only: if_True) blast
next
  case False
  then show ?thesis
    by (simp add: isMounted_def getMountDir_def getMountDir_path_unmounted)
qed

section \<open>Mounting\<close>

text \<open>\<open>QDir::filePath\<close>.\<close>

definition filePath :: "string \<Rightarrow> string \<Rightarrow> string" where
  "filePath d f = (if prefix ''/'' f then f else if f = [] then d else d @ ''/'' @ f)"

text \<open>
  The passphrase step of \<open>mountPartition\<close>: \<open>None\<close> is an early return of the empty path. A
  \<open>FILE\<close> passphrase is the trimmed content of the key file.
\<close>

definition luks_pass :: "'w ext \<Rightarrow> tiBackupJob \<Rightarrow> 'w sys \<Rightarrow> string option" where
  "luks_pass E job s =
     (case encLUKSType job of
        LUKS_NONE \<Rightarrow> None
      | LUKS_FILE \<Rightarrow>
          if path_exists s (encLUKSFilePath job)
          then Some (case file_at s (encLUKSFilePath job) of
                       Some f \<Rightarrow> trimmed (text_of E f)
                     | None \<Rightarrow> [])
          else None
      | LUKS_GENUSBDEV \<Rightarrow> Some []
      | LUKS_OTHER _ \<Rightarrow> Some [])"

definition luks_name :: "DeviceDiskPartition \<Rightarrow> string" where
  "luks_name p = ''tibackup_enc_'' @ part_uuid p"

definition luks_open ::
  "'w ext \<Rightarrow> DeviceDiskPartition \<Rightarrow> tiBackupJob option \<Rightarrow> (('w, 'z) st_scheme, string option) state" where
  "luks_open E p job =
     (case job of
        None \<Rightarrow> State_Monad.return None
      | Some j \<Rightarrow> do {
          pass \<leftarrow> asks (luks_pass E j);
          case pass of
            None \<Rightarrow> State_Monad.return None
          | Some pw \<Rightarrow> do {
              r \<leftarrow> run_cmd E (ArgvIn ''cryptsetup'' [''luksOpen'', part_name p, luks_name p]
                               (pw @ [CHR 0x0A]));
              State_Monad.return (if p_code r \<noteq> 0 then None else Some (getMountPathSrc p)) } })"

definition mount_source ::
  "'w ext \<Rightarrow> DeviceDiskPartition \<Rightarrow> string \<Rightarrow> string \<Rightarrow> (('w, 'z) st_scheme, string) state" where
  "mount_source E p mnt_src mount_dir = do {
     r \<leftarrow> run_cmd E (Argv ''mount'' [mnt_src, mount_dir]);
     mounted \<leftarrow> asks (isMounted p);
     if p_code r \<noteq> 0 \<or> \<not> mounted
     then do { remove_dir mount_dir; State_Monad.return [] }
     else State_Monad.return mount_dir }"

definition mountPartition ::
  "'w ext \<Rightarrow> DeviceDiskPartition \<Rightarrow> tiBackupJob option \<Rightarrow> (('w, 'z) st_scheme, string) state" where
  "mountPartition E p job = do {
     let mount_dir = filePath mount_root (part_uuid p);
     ex \<leftarrow> asks (\<lambda>s. path_exists s mount_dir);
     whenM (\<not> ex) (make_dir mount_dir);
     src \<leftarrow> (if part_type p = ''crypto_LUKS'' then luks_open E p job
             else State_Monad.return (Some (part_name p)));
     case src of
       None \<Rightarrow> State_Monad.return []
     | Some mnt_src \<Rightarrow> mount_source E p mnt_src mount_dir }"

definition umountPartition ::
  "'w ext \<Rightarrow> DeviceDiskPartition \<Rightarrow> (('w, 'z) st_scheme, bool) state" where
  "umountPartition E p = do {
     mount_dir \<leftarrow> asks (getMountDir p);
     r \<leftarrow> run_cmd E (Argv ''umount'' [mount_dir]);
     mounted \<leftarrow> asks (isMounted p);
     if p_code r \<noteq> 0 \<or> mounted then State_Monad.return False
     else if part_type p = ''crypto_LUKS'' then do {
       c \<leftarrow> run_cmd E (Argv ''cryptsetup'' [''close'', luks_name p]);
       State_Monad.return (p_code c = 0) }
     else State_Monad.return True }"

section \<open>What mounting guarantees\<close>

lemmas mount_ops = run_cmd_def make_dir_def remove_dir_def run_simps

definition mount_dir_of :: "DeviceDiskPartition \<Rightarrow> string" where
  "mount_dir_of p = filePath mount_root (part_uuid p)"

definition mount_cmd :: "DeviceDiskPartition \<Rightarrow> cmd" where
  "mount_cmd p = Argv ''mount'' [getMountPathSrc p, mount_dir_of p]"

definition luks_cmd :: "DeviceDiskPartition \<Rightarrow> string \<Rightarrow> cmd" where
  "luks_cmd p pw = ArgvIn ''cryptsetup'' [''luksOpen'', part_name p, luks_name p] (pw @ [CHR 0x0A])"

lemma mount_dir_of_neq_Nil [simp]: "mount_dir_of p \<noteq> []"
  by (auto simp: mount_dir_of_def filePath_def mount_root_def)

lemma mount_source_result:
  assumes "run_state (mount_source E p src d) s = (r, s')" and "r \<noteq> []"
  shows "r = d \<and> isMounted p (os s')"
  using assms by (auto simp: mount_source_def mount_ops split: if_splits)

lemma luks_open_result:
  assumes "run_state (luks_open E p job) s = (Some src, s')" and "part_type p = ''crypto_LUKS''"
  shows "src = getMountPathSrc p"
  using assms
  by (auto simp: luks_open_def mount_ops split: option.splits if_splits)

lemma mountPartition_cases:
  assumes "run_state (mountPartition E p job) s = (r, s')"
  obtains (no_source) s1 where
    "run_state (if part_type p = ''crypto_LUKS'' then luks_open E p job
                else State_Monad.return (Some (part_name p))) s1 = (None, s')" "r = []"
  | (source) s1 s2 where
    "run_state (if part_type p = ''crypto_LUKS'' then luks_open E p job
                else State_Monad.return (Some (part_name p))) s1 = (Some (getMountPathSrc p), s2)"
    "run_state (mount_source E p (getMountPathSrc p) (mount_dir_of p)) s2 = (r, s')"
proof -
  let ?open = "if part_type p = ''crypto_LUKS'' then luks_open E p job
                else State_Monad.return (Some (part_name p))"
  obtain s1 src s2 where src: "run_state ?open s1 = (src, s2)"
    and rest: "run_state (case src of None \<Rightarrow> State_Monad.return []
                  | Some m \<Rightarrow> mount_source E p m (mount_dir_of p)) s2 = (r, s')"
    using assms unfolding mountPartition_def Let_def mount_dir_of_def by (auto split: prod.splits)
  show thesis
  proof (cases src)
    case None
    with src rest show thesis by (intro no_source) auto
  next
    case (Some m)
    with src have "m = getMountPathSrc p"
      using luks_open_result by (auto simp: getMountPathSrc_def split: if_splits)
    with Some src rest show thesis by (intro source) auto
  qed
qed

text \<open>
  C18. A path returned by \<open>mountPartition\<close> can be relied on: if it is not empty, it is the
  partition's directory under the mount root, and the partition is in the mount table when the
  call returns, whatever \<open>mount\<close> and \<open>cryptsetup\<close> did.
\<close>

theorem mount_result_is_mounted:
  assumes "run_state (mountPartition E p job) s = (d, s')" and "d \<noteq> []"
  shows "d = mount_dir_of p \<and> isMounted p (os s')"
  using assms(1)
proof (cases rule: mountPartition_cases)
  case no_source
  with assms(2) show ?thesis by simp
next
  case source
  then show ?thesis using mount_source_result assms(2) by blast
qed

text \<open>An outside world where \<open>mount\<close> enters the partition into the table.\<close>

definition mounting_ext :: "DeviceDiskPartition \<Rightarrow> unit ext" where
  "mounting_ext p = calm_ext\<lparr>x_exec := \<lambda>c s. (\<lparr>p_end = Exited 0, p_out = []\<rparr>,
     if c = mount_cmd p then s\<lparr>mtab := Some [(getMountPathSrc p, mount_dir_of p)]\<rparr> else s)\<rparr>"

definition luks_part :: DeviceDiskPartition where
  "luks_part = \<lparr>part_name = ''/dev/sdb1'', part_uuid = ''u1'', part_label = [],
     part_type = ''crypto_LUKS''\<rparr>"

definition luks_job :: tiBackupJob where
  "luks_job = (plain_job ''j'')\<lparr>encLUKSType := LUKS_GENUSBDEV\<rparr>"

lemmas mount_example =
  mounting_ext_def luks_part_def luks_job_def plain_job_def calm_defs mount_ops mount_cmd_def
  mount_dir_of_def filePath_def mount_root_def getMountPathSrc_def

lemma luks_mount_run:
  "fst (run_state (mountPartition (mounting_ext luks_part) luks_part (Some luks_job)) calm_st)
   = ''/mnt/u1''"
  by (simp add: mount_example mountPartition_def mount_source_def luks_open_def luks_pass_def
      luks_name_def isMounted_def isMounted_path_def path_exists_def file_at_def mkdir_def)

theorem mount_result_is_mounted_witness:
  "mount_dir_of luks_part = ''/mnt/u1''
   \<and> isMounted luks_part (os (snd (run_state
       (mountPartition (mounting_ext luks_part) luks_part (Some luks_job)) calm_st)))"
  using mount_result_is_mounted [of "mounting_ext luks_part" luks_part "Some luks_job" calm_st]
    luks_mount_run
  by (metis list.distinct(1) prod.collapse)

text \<open>
  C36. An encrypted partition is mounted only after it was unlocked: a successful
  \<open>mountPartition\<close> ran exactly two programs, \<open>cryptsetup luksOpen\<close> with the job's passphrase
  on its standard input, which reported success, and then \<open>mount\<close> of the mapping. The passphrase
  is no part of any argument.
\<close>

theorem encrypted_mount_order:
  assumes "run_state (mountPartition E p job) s = (d, s')" and "d \<noteq> []"
    and "part_type p = ''crypto_LUKS''"
  shows "\<exists>j pw t mk. job = Some j \<and> luks_pass E j t = Some pw
     \<and> p_code (fst (x_exec E (luks_cmd p pw) t)) = 0
     \<and> trace s' = trace s @ mk @ [Exec (luks_cmd p pw), Exec (mount_cmd p)]
     \<and> set mk \<subseteq> {MakePath (mount_dir_of p)}"
proof -
  define s1 where "s1 = (if path_exists (os s) (mount_dir_of p) then s
     else s\<lparr>trace := trace s @ [MakePath (mount_dir_of p)], os := mkdir (mount_dir_of p) (os s)\<rparr>)"
  have run: "run_state (mountPartition E p job) s =
     run_state (do { src \<leftarrow> luks_open E p job;
       case src of None \<Rightarrow> State_Monad.return [] | Some m \<Rightarrow> mount_source E p m (mount_dir_of p) }) s1"
    using assms(3) unfolding mountPartition_def mount_dir_of_def [symmetric]
    by (simp add: mount_ops s1_def)
  have mk: "\<exists>mk. trace s1 = trace s @ mk \<and> set mk \<subseteq> {MakePath (mount_dir_of p)}"
    by (simp add: s1_def)
  obtain j pw where j: "job = Some j" "luks_pass E j (os s1) = Some pw"
    "p_code (fst (x_exec E (luks_cmd p pw) (os s1))) = 0"
    "trace s' = trace s1 @ [Exec (luks_cmd p pw), Exec (mount_cmd p)]"
    using assms(1,2) unfolding run
    by (auto simp: luks_open_def mount_source_def mount_ops luks_cmd_def mount_cmd_def
        split: option.splits if_splits)
  with mk show ?thesis by fastforce
qed

theorem encrypted_mount_order_witness:
  "\<exists>mk. trace (snd (run_state
        (mountPartition (mounting_ext luks_part) luks_part (Some luks_job)) calm_st))
     = mk @ [Exec (ArgvIn ''cryptsetup'' [''luksOpen'', ''/dev/sdb1'', ''tibackup_enc_u1''] [CHR 0x0A]),
             Exec (Argv ''mount'' [''/dev/mapper/tibackup_enc_u1'', ''/mnt/u1''])]"
proof -
  let ?r = "run_state (mountPartition (mounting_ext luks_part) luks_part (Some luks_job)) calm_st"
  have r: "?r = (fst ?r, snd ?r)" by simp
  have d: "fst ?r \<noteq> []" using luks_mount_run by simp
  have t: "part_type luks_part = ''crypto_LUKS''" by (simp add: luks_part_def)
  from encrypted_mount_order [OF r d t] obtain j pw t mk where
    "Some luks_job = Some j" "luks_pass (mounting_ext luks_part) j t = Some pw"
    "trace (snd ?r) = mk @ [Exec (luks_cmd luks_part pw), Exec (mount_cmd luks_part)]"
    by (auto simp: calm_st_def)
  then show ?thesis
    by (auto simp: luks_job_def luks_pass_def luks_cmd_def luks_name_def luks_part_def mount_cmd_def
        getMountPathSrc_def mount_dir_of_def filePath_def mount_root_def)
qed

text \<open>
  A \<open>mount\<close> that fails after the unlocking leaves the mapping open: \<open>mountPartition\<close> never
  closes one.
\<close>

lemma mountPartition_never_closes:
  "emits (\<lambda>e. \<forall>a. e \<noteq> Exec (Argv ''cryptsetup'' a)) (mountPartition E p job)"
  unfolding mountPartition_def luks_open_def mount_source_def
  by (intro emits_intros) auto

text \<open>
  C37. \<open>umountPartition\<close> releases the right target and reports success only if it is released.
  For a mounted partition it runs \<open>umount\<close> of a directory the table has for that partition's own
  device; while the partition is still in the table afterwards nothing more is run and the call
  fails; it succeeds only if \<open>umount\<close> did and the partition is out of the table, and
  for an encrypted one only if closing its mapping succeeded too.
\<close>

theorem umount_releases:
  assumes "run_state (umountPartition E p) s = (ok, s')" and "isMounted p (os s)"
  shows "\<exists>tab d t code closes. mtab (os s) = Some tab \<and> (getMountPathSrc p, d) \<in> set tab
     \<and> x_exec E (Argv ''umount'' [d]) (os s) = (code, t)
     \<and> trace s' = trace s @ Exec (Argv ''umount'' [d]) # map Exec closes
     \<and> closes \<in> {[], [Argv ''cryptsetup'' [''close'', luks_name p]]}
     \<and> (isMounted p t \<longrightarrow> \<not> ok \<and> closes = [])
     \<and> (ok \<longrightarrow> p_code code = 0 \<and> \<not> isMounted p t
          \<and> (closes \<noteq> [] \<longleftrightarrow> part_type p = ''crypto_LUKS'')
          \<and> (\<forall>c \<in> set closes. p_code (fst (x_exec E c t)) = 0))"
proof -
  let ?d = "getMountDir p (os s)" and ?close = "Argv ''cryptsetup'' [''close'', luks_name p]"
  obtain tab where tab: "mtab (os s) = Some tab" "(getMountPathSrc p, ?d) \<in> set tab"
    using getMountDir_in_table [OF assms(2)] by blast
  obtain code t where x: "x_exec E (Argv ''umount'' [?d]) (os s) = (code, t)" by fastforce
  let ?closes = "if p_code code \<noteq> 0 \<or> isMounted p t \<or> part_type p \<noteq> ''crypto_LUKS'' then [] else [?close]"
  show ?thesis
    by (rule exI [of _ tab], rule exI [of _ ?d], rule exI [of _ t], rule exI [of _ code], rule exI [of _ ?closes])
      (use assms(1) tab x in \<open>auto simp: umountPartition_def mount_ops split: if_splits\<close>)
qed

definition mounted_part_sys :: "unit sys" where
  "mounted_part_sys = calm_sys\<lparr>mtab := Some [(''/dev/mapper/tibackup_enc_u1'', ''/mnt/u1'')]\<rparr>"

definition umounting_ext :: "unit ext" where
  "umounting_ext = calm_ext\<lparr>x_exec := \<lambda>c s. (\<lparr>p_end = Exited 0, p_out = []\<rparr>,
     if c = Argv ''umount'' [''/mnt/u1''] then s\<lparr>mtab := Some []\<rparr> else s)\<rparr>"

theorem umount_releases_witness:
  "\<exists>s'. run_state (umountPartition umounting_ext luks_part) (calm_st\<lparr>os := mounted_part_sys\<rparr>) = (True, s')
     \<and> trace s' = [Exec (Argv ''umount'' [''/mnt/u1'']), Exec (Argv ''cryptsetup'' [''close'', ''tibackup_enc_u1''])]"
proof -
  let ?s = "calm_st\<lparr>os := mounted_part_sys\<rparr>"
  let ?r = "run_state (umountPartition umounting_ext luks_part) ?s"
  have mounted: "isMounted luks_part (os ?s)"
    by (simp add: isMounted_def isMounted_path_def getMountPathSrc_def luks_part_def mounted_part_sys_def)
  have ok: "fst ?r"
    by (simp add: umountPartition_def mount_ops umounting_ext_def mounted_part_sys_def isMounted_def
        isMounted_path_def getMountDir_def getMountDir_path_def getMountPathSrc_def luks_part_def p_code_def)
  then have r: "?r = (True, snd ?r)" by (metis prod.collapse)
  from umount_releases [OF r mounted] obtain tab d t code closes where c:
    "mtab (os ?s) = Some tab" "(getMountPathSrc luks_part, d) \<in> set tab"
    "trace (snd ?r) = trace ?s @ Exec (Argv ''umount'' [d]) # map Exec closes"
    "closes \<in> {[], [Argv ''cryptsetup'' [''close'', luks_name luks_part]]}"
    "closes \<noteq> [] \<longleftrightarrow> part_type luks_part = ''crypto_LUKS''"
    by blast
  from c(1,2) have "d = ''/mnt/u1''" by (auto simp: mounted_part_sys_def)
  moreover from c(4,5) have "closes = [Argv ''cryptsetup'' [''close'', ''tibackup_enc_u1'']]"
    by (auto simp: luks_part_def luks_name_def)
  moreover have "trace ?s = []" by (simp add: calm_st_def)
  ultimately show ?thesis using r c(3) by (intro exI [of _ "snd ?r"]) simp
qed

section \<open>Generic paths\<close>

text \<open>
  Stored paths hold the token \<open>%MNTBACKUPDIR%\<close> in place of the mount directory.
\<close>

definition convertPath2Generic :: "string \<Rightarrow> string \<Rightarrow> string" where
  "convertPath2Generic path mountdir =
     (if mountdir = [] then path else replace_all mountdir var_partbackup_dir path)"

definition convertGeneric2Path :: "string \<Rightarrow> string \<Rightarrow> string" where
  "convertGeneric2Path path mountdir = replace_all var_partbackup_dir mountdir path"

text \<open>
  A path survives the conversion to its generic form and back, on the same mount
  directory, if neither contains a percent sign.
\<close>

theorem generic_path_roundtrip:
  assumes "CHR ''%'' \<notin> set path" and "CHR ''%'' \<notin> set mountdir"
  shows "convertGeneric2Path (convertPath2Generic path mountdir) mountdir = path"
proof (cases "mountdir = []")
  case True
  with assms(1) show ?thesis
    by (simp add: convertGeneric2Path_def convertPath2Generic_def var_partbackup_dir_def
        replace_all_absent [of "CHR ''%''"])
next
  case False
  then show ?thesis
    using replace_all_undo [of var_partbackup_dir "CHR ''%''" "''MNTBACKUPDIR%''" path mountdir] assms
    by (simp add: convertGeneric2Path_def convertPath2Generic_def var_partbackup_dir_def)
qed

theorem generic_path_roundtrip_witness:
  "convertPath2Generic ''/mnt/u1/home'' ''/mnt/u1'' = ''%MNTBACKUPDIR%/home''
   \<and> convertGeneric2Path (convertPath2Generic ''/mnt/u1/home'' ''/mnt/u1'') ''/mnt/u1'' = ''/mnt/u1/home''"
  using generic_path_roundtrip [of "''/mnt/u1/home''" "''/mnt/u1''"]
  by (simp add: convertPath2Generic_def var_partbackup_dir_def)

end
