(* ===== verification/Scripts.thy ===== *)
theory Scripts
  imports ConfMain Mounts
begin

text \<open>
  The scripts before and after a backup: \<open>runScriptAsUser\<close> and \<open>confineToScriptsDir\<close> of
  tibackuplib.cpp, and the two script blocks of \<open>tiBackupJob::startBackup\<close>, which differ in their
  texts only. This theory also declares the state a running backup carries besides the
  effects: the messages and log entries it collects.
\<close>

section \<open>Running a script\<close>

definition script_env :: "string \<Rightarrow> string \<Rightarrow> (string \<times> string) list" where
  "script_env home username =
     [(''HOME'', if home = [] then ''/tmp'' else home), (''USER'', username), (''LOGNAME'', username),
      (''PATH'', ''/usr/local/sbin:/usr/local/bin:/usr/sbin:/usr/bin:/sbin:/bin'')]"

definition runScriptAsUser :: "'w ext \<Rightarrow> string \<Rightarrow> string \<Rightarrow> (('w, 'z) st_scheme, int) state" where
  "runScriptAsUser E scriptPath username =
     (case x_user E username of
        None \<Rightarrow> State_Monad.return (- 1)
      | Some u \<Rightarrow> do {
          emit (ChangeOwner scriptPath (u_uid u) (u_gid u));
          change (\<lambda>s. ((), set_mode scriptPath {ReadOwner, WriteOwner, ExeOwner} s));
          r \<leftarrow> run_cmd E (AsUser scriptPath (u_uid u) (u_gid u) (u_groups u) (script_env (u_home u) username));
          State_Monad.return (p_code r) })"

text \<open>
  The confinement check. \<open>absolutePath\<close>, \<open>cleanPath\<close> and \<open>canonicalFilePath\<close> are the path
  functions of Qt; the last is empty for a path that does not exist.
\<close>

definition confined :: "'w ext \<Rightarrow> string \<Rightarrow> string \<Rightarrow> 'w sys \<Rightarrow> string" where
  "confined E scriptsDir pathOrName s =
     (let lexBase = x_clean E (x_absolute E scriptsDir);
          absInput = (if prefix ''/'' pathOrName then x_clean E pathOrName
                      else x_clean E (filePath lexBase pathOrName));
          canonTarget = x_canonical E absInput s
      in if canonTarget \<noteq> []
         then (let canonBase = x_canonical E lexBase s;
                   base = (if canonBase = [] then lexBase else canonBase)
               in if canonTarget = base \<or> startsWith canonTarget (base @ ''/'') then canonTarget else [])
         else if absInput = lexBase \<or> startsWith absInput (lexBase @ ''/'') then absInput
         else [])"

definition confineToScriptsDir :: "'w ext \<Rightarrow> conf_env \<Rightarrow> string \<Rightarrow> (('w, 'z) st_scheme, string) state" where
  "confineToScriptsDir E V pathOrName =
     (if pathOrName = [] then State_Monad.return []
      else do {
        cfg \<leftarrow> change (new_tiConfMain E V);
        let scriptsDir = to_text (getValue cfg ''paths/scripts'');
        if scriptsDir = [] then State_Monad.return []
        else asks (confined E scriptsDir pathOrName) })"

section \<open>The state of a running backup\<close>

record 'w bst = "'w st" +
  bak_msgs :: "string list"
  pbs_msgs :: "string list"
  bak_logs :: "tiBackupJobLog list"
  pbs_logs :: "tiBackupJobPBSLog list"

definition bak_msg :: "string \<Rightarrow> (('w, 'z) bst_scheme, unit) state" where
  "bak_msg m = State_Monad.update (\<lambda>s. s\<lparr>bak_msgs := bak_msgs s @ [m]\<rparr>)"

definition pbs_msg :: "string \<Rightarrow> (('w, 'z) bst_scheme, unit) state" where
  "pbs_msg m = State_Monad.update (\<lambda>s. s\<lparr>pbs_msgs := pbs_msgs s @ [m]\<rparr>)"

definition bak_log :: "tiBackupJobLog \<Rightarrow> (('w, 'z) bst_scheme, unit) state" where
  "bak_log l = State_Monad.update (\<lambda>s. s\<lparr>bak_logs := bak_logs s @ [l]\<rparr>)"

definition pbs_log :: "tiBackupJobPBSLog \<Rightarrow> (('w, 'z) bst_scheme, unit) state" where
  "pbs_log l = State_Monad.update (\<lambda>s. s\<lparr>pbs_logs := pbs_logs s @ [l]\<rparr>)"

definition warn :: "string \<Rightarrow> (('w, 'z) bst_scheme, unit) state" where
  "warn m = do { bak_msg m; say m }"

lemma emits_msgs [emits_intros]:
  "emits P (bak_msg m)" "emits P (pbs_msg m)" "emits P (bak_log l)" "emits P (pbs_log l')"
  by (simp_all add: bak_msg_def pbs_msg_def bak_log_def pbs_log_def emits_update)

lemma emits_warn [emits_intros]: "P (Log m) \<Longrightarrow> emits P (warn m)"
  by (simp add: warn_def emits_bind emits_msgs emits_say)

section \<open>The script blocks\<close>

definition script_template :: string where "script_template = ''tibackup-XXXXXX.sh''"

definition quot :: "string \<Rightarrow> string" where
  "quot x = [CHR 0x27] @ x @ [CHR 0x27]"

definition rule_line :: string where "rule_line = ''------------------------------''"

text \<open>\<open>w\<close> is \<open>before\<close> or \<open>after\<close>, \<open>lead\<close> what the log line of the second block starts with.\<close>

definition stage_script ::
  "'w ext \<Rightarrow> string \<Rightarrow> (('w, 'z) bst_scheme, string option) state" where
  "stage_script E tmpSource = do {
     tmp \<leftarrow> asks (x_temp E script_template);
     case tmp of
       None \<Rightarrow> State_Monad.return None
     | Some f \<Rightarrow> do {
         write_text f tmpSource;
         change (\<lambda>s. ((), set_mode f {ReadOwner, WriteOwner, ExeOwner} s));
         State_Monad.return (Some f) } }"

definition script_block ::
  "'w ext \<Rightarrow> conf_env \<Rightarrow> string \<Rightarrow> string \<Rightarrow> string \<Rightarrow> string \<Rightarrow> string \<Rightarrow> (('w, 'z) bst_scheme, unit) state" where
  "script_block E V w lead script deviceMountDir scriptUser = do {
     scriptPath \<leftarrow> confineToScriptsDir E V script;
     if scriptPath = []
     then warn (''Script '' @ w @ '' Backup <'' @ script @ ''> is outside the scripts directory or missing, skipping'')
     else do {
       say (lead @ ''Script <'' @ scriptPath @ ''> will be taken as template'');
       scriptSource \<leftarrow> asks (\<lambda>s. case file_at s scriptPath of Some f \<Rightarrow> text_of E f | None \<Rightarrow> []);
       let tmpSource = convertGeneric2Path scriptSource deviceMountDir;
       tmp \<leftarrow> stage_script E tmpSource;
       case tmp of
         None \<Rightarrow> warn (''Script '' @ w @ '' Backup could not be staged.'')
       | Some tmpfilename \<Rightarrow> do {
           say (''Computed Script <'' @ tmpfilename @ ''> will be executed '' @ w @ '' backup as user '' @ quot scriptUser @ '':'');
           say rule_line; say tmpSource; say rule_line;
           rc \<leftarrow> runScriptAsUser E tmpfilename scriptUser;
           (if rc = - 1
            then warn (''Script '' @ w @ '' Backup NOT run: run-user '' @ quot scriptUser @ '' not found (refusing to run as root).'')
            else if rc \<noteq> 0
            then warn (''Script '' @ w @ '' Backup was not executed properly.'')
            else warn (''Script '' @ w @ '' Backup was executed properly.''));
           delete_file tmpfilename } } }"

section \<open>What may run\<close>

text \<open>
  A script command: a program run with the ids of the configured user.
\<close>

definition script_cmd :: "'w ext \<Rightarrow> string \<Rightarrow> cmd \<Rightarrow> bool" where
  "script_cmd E username c \<longleftrightarrow>
     (\<exists>u f. x_user E username = Some u \<and>
        c = AsUser f (u_uid u) (u_gid u) (u_groups u) (script_env (u_home u) username))"

definition script_event :: "'w ext \<Rightarrow> string \<Rightarrow> event \<Rightarrow> bool" where
  "script_event E username e \<longleftrightarrow>
     (case e of
        Exec c \<Rightarrow> script_cmd E username c
      | ExecPipe _ _ _ _ \<Rightarrow> False
      | Send _ \<Rightarrow> False
      | Smtp _ \<Rightarrow> False
      | _ \<Rightarrow> True)"

lemma emits_runScriptAsUser: "emits (script_event E username) (runScriptAsUser E f username)"
  unfolding runScriptAsUser_def
  by (intro emits_intros) (auto simp: script_event_def script_cmd_def)

lemma emits_confine [emits_intros]: "emits P (confineToScriptsDir E V p)"
  unfolding confineToScriptsDir_def by (intro emits_intros)

lemma emits_stage: "emits (script_event E username) (stage_script E src)"
  unfolding stage_script_def by (intro emits_intros) (auto simp: script_event_def)

lemma emits_script_block: "emits (script_event E username) (script_block E V w lead script d username)"
  unfolding script_block_def
  by (intro emits_intros emits_runScriptAsUser emits_stage) (auto simp: script_event_def)

text \<open>What the configuration names as the scripts directory, as the check sees it.\<close>

definition scripts_dir_of :: "'w ext \<Rightarrow> conf_env \<Rightarrow> 'w sys \<Rightarrow> string" where
  "scripts_dir_of E V w = to_text (getValue (fst (new_tiConfMain E V w)) ''paths/scripts'')"

lemma run_confine:
  "run_state (confineToScriptsDir E V p) s =
    (if p = [] then ([], s)
     else let w = snd (new_tiConfMain E V (os s)); sd = scripts_dir_of E V (os s)
          in (if sd = [] then [] else confined E sd p w, s\<lparr>os := w\<rparr>))"
  by (simp add: confineToScriptsDir_def run_simps scripts_dir_of_def)

definition inside :: "string \<Rightarrow> string \<Rightarrow> bool" where
  "inside p base \<longleftrightarrow> p = base \<or> prefix (base @ ''/'') p"

text \<open>
  A path the check may let through: the real path of an existing file below the real path of the
  scripts directory, or, for a file that does not exist, a path below it by its spelling.
\<close>

definition allowed_script :: "'w ext \<Rightarrow> string \<Rightarrow> 'w sys \<Rightarrow> string \<Rightarrow> bool" where
  "allowed_script E sd w r \<longleftrightarrow>
     (let base = x_clean E (x_absolute E sd); real = x_canonical E base w in
      \<exists>target. if x_canonical E target w \<noteq> []
        then r = x_canonical E target w \<and> inside r (if real = [] then base else real)
        else r = target \<and> inside r base)"

lemma confined_allowed:
  assumes "confined E sd p w \<noteq> []"
  shows "allowed_script E sd w (confined E sd p w)"
proof -
  let ?b = "x_clean E (x_absolute E sd)"
  let ?t = "if prefix ''/'' p then x_clean E p else x_clean E (filePath ?b p)"
  show ?thesis
    unfolding allowed_script_def Let_def
    using assms by (intro exI [of _ ?t]) (auto simp: confined_def Let_def inside_def split: if_splits)
qed

lemma run_stage_script:
  "run_state (stage_script E src) s =
    (case x_temp E script_template (os s) of
       None \<Rightarrow> (None, s)
     | Some f \<Rightarrow> (Some f, s\<lparr>trace := trace s @ [WriteText f src],
         os := set_mode f {ReadOwner, WriteOwner, ExeOwner} (file_write f (Plain src) (os s))\<rparr>))"
  by (simp add: stage_script_def write_text_def run_simps split: option.splits)

lemma run_runScriptAsUser:
  "run_state (runScriptAsUser E f username) s =
    (case x_user E username of
       None \<Rightarrow> (- 1, s)
     | Some u \<Rightarrow>
         (let c = AsUser f (u_uid u) (u_gid u) (u_groups u) (script_env (u_home u) username);
              r = x_exec E c (set_mode f {ReadOwner, WriteOwner, ExeOwner} (os s))
          in (p_code (fst r), s\<lparr>trace := trace s @ [ChangeOwner f (u_uid u) (u_gid u), Exec c], os := snd r\<rparr>)))"
  by (simp add: runScriptAsUser_def run_cmd_def run_simps split: option.splits)


definition script_user :: user where
  "script_user = \<lparr>u_uid = 1000, u_gid = 1000, u_home = ''/home/t'', u_groups = [1000]\<rparr>"

definition scripts_ext :: "unit ext" where
  "scripts_ext = calm_ext\<lparr>x_user := \<lambda>n. if n = ''tibackup'' then Some script_user else None\<rparr>"

definition calm_bst :: "unit bst" where
  "calm_bst = \<lparr>os = calm_sys, trace = [], ssl_ready = False, bak_msgs = [], pbs_msgs = [], bak_logs = [], pbs_logs = []\<rparr>"

lemma scripts_example_dir: "scripts_dir_of scripts_ext default_env calm_sys = ''/etc/tibackup/scripts''"
proof -
  have "conf_free default_env calm_sys"
    by (auto simp: conf_free_def default_env_def calm_sys_def mainConfigFile_def file_main_def Let_def
        parents_def file_at_def dest!: arg_cong [where f = length])
  from init_secured [OF this, of scripts_ext] show ?thesis
    by (simp add: scripts_dir_of_def new_tiConfMain_def getValue_def to_text_def conf_spec_def fresh_conf_def
        file_at_def calm_sys_def default_env_def Let_def)
qed

lemma scripts_ext_fields:
  "x_exec scripts_ext = (\<lambda>_ s. (\<lparr>p_end = Exited 0, p_out = []\<rparr>, s))"
  "x_temp scripts_ext = (\<lambda>t _. Some t)"
  "x_user scripts_ext ''tibackup'' = Some script_user"
  by (simp_all add: scripts_ext_def calm_ext_def)

lemma scripts_example_path:
  "confined scripts_ext ''/etc/tibackup/scripts'' ''a.sh'' w = ''/etc/tibackup/scripts/a.sh''"
  by (simp add: confined_def scripts_ext_def calm_ext_def filePath_def Let_def prefix_def)


end
