(* ===== verification/SshClient.thy ===== *)
theory SshClient
  imports JobData
begin

text \<open>
  \<open>sshClient\<close> (sshclient.cpp): the options every ssh call uses, quoting for the remote shell,
  capturing a host key, and the three remote operations. The remote shell is specified by
  \<open>sh_words\<close>, the words a POSIX shell reads from a command line without expansions; \<open>None\<close>
  means that the line is more than a list of plain words.
\<close>

section \<open>Quoting for the remote shell\<close>

definition sq :: char where "sq = CHR 0x27"
definition bs :: char where "bs = CHR 0x5C"

definition shellQuote :: "string \<Rightarrow> string" where
  "shellQuote s = [sq] @ replace_all [sq] [sq, bs, sq, sq] s @ [sq]"

text \<open>The words of a shell command line.\<close>

datatype sh_mode = Blank | Word string | Quoted string

definition sh_special :: "char set" where
  "sh_special = set ''|&;<>()$`*?[]#~=%!{}^'' \<union> {CHR 0x22, CHR 0x0A}"

fun sh_lex :: "sh_mode \<Rightarrow> string \<Rightarrow> string list option" where
  "sh_lex Blank [] = Some []"
| "sh_lex (Word w) [] = Some [w]"
| "sh_lex (Quoted w) [] = None"
| "sh_lex (Quoted w) (c # cs) = (if c = sq then sh_lex (Word w) cs else sh_lex (Quoted (w @ [c])) cs)"
| "sh_lex Blank (c # cs) =
     (if c = CHR '' '' \<or> c = CHR 0x09 then sh_lex Blank cs
      else if c = sq then sh_lex (Quoted []) cs
      else if c = bs then (case cs of [] \<Rightarrow> None | e # es \<Rightarrow> if e = CHR 0x0A then None else sh_lex (Word [e]) es)
      else if c \<in> sh_special then None else sh_lex (Word [c]) cs)"
| "sh_lex (Word w) (c # cs) =
     (if c = CHR '' '' \<or> c = CHR 0x09 then map_option (\<lambda>ws. w # ws) (sh_lex Blank cs)
      else if c = sq then sh_lex (Quoted w) cs
      else if c = bs then (case cs of [] \<Rightarrow> None | e # es \<Rightarrow> if e = CHR 0x0A then None else sh_lex (Word (w @ [e])) es)
      else if c \<in> sh_special then None else sh_lex (Word (w @ [c])) cs)"

definition sh_words :: "string \<Rightarrow> string list option" where
  "sh_words s = sh_lex Blank s"

lemma sq_bs [simp]: "sq \<noteq> bs" "bs \<noteq> sq" "sq \<noteq> CHR '' ''" "bs \<noteq> CHR '' ''"
    "sq \<noteq> CHR 0x09" "bs \<noteq> CHR 0x09" "sq \<noteq> CHR 0x0A"
  by (simp_all add: sq_def bs_def)

lemma sh_lex_quoted:
  "sh_lex (Quoted w) (replace_all [sq] [sq, bs, sq, sq] s @ sq # r) = sh_lex (Word (w @ s)) r"
  by (induction s arbitrary: w) (simp_all del: replace_all.simps(2))

lemma sh_lex_shellQuote: "sh_lex Blank (shellQuote s @ r) = sh_lex (Word s) r"
  using sh_lex_quoted [of "[]" s r] by (simp add: shellQuote_def)

section \<open>Options\<close>

definition sshOptions :: "SSHServer \<Rightarrow> string \<Rightarrow> string list" where
  "sshOptions srv kh =
     [''-p'', show_nat (unat (srv_port srv)), ''-o'', ''BatchMode=yes'', ''-o'', ''ConnectTimeout=10'',
      ''-o'', ''ServerAliveInterval=15'', ''-o'', ''ServerAliveCountMax=4'',
      ''-o'', ''StrictHostKeyChecking=yes'']
     @ (if kh \<noteq> [] then [''-o'', ''UserKnownHostsFile='' @ kh] else [])
     @ [''-o'', ''PreferredAuthentications=publickey'', ''-o'', ''PasswordAuthentication=no'']
     @ (if srv_keyfile srv \<noteq> [] then [''-i'', srv_keyfile srv] else [])"

definition sshArgv :: "SSHServer \<Rightarrow> string \<Rightarrow> string list" where
  "sshArgv srv kh = sshOptions srv kh"

definition rshCommand :: "SSHServer \<Rightarrow> string \<Rightarrow> string" where
  "rshCommand srv kh = ''ssh '' @ join '' '' (sshOptions srv kh)"

definition ssh_dest :: "SSHServer \<Rightarrow> string" where
  "ssh_dest srv = srv_username srv @ ''@'' @ srv_host srv"

section \<open>Host keys\<close>

text \<open>The two temporary file names are templates below \<open>QDir::tempPath\<close>.\<close>

definition hk_template :: string where "hk_template = ''tibackup-hk-XXXXXX''"
definition kh_template :: string where "kh_template = ''tibackup-kh-XXXXXX''"

definition key_lines :: "string \<Rightarrow> string list" where
  "key_lines out =
     filter (\<lambda>t. \<not> (t = [] \<or> startsWith t ''#'')) (map trimmed (split_on CHR 0x0A out))"

definition scanHostKey ::
  "'w ext \<Rightarrow> string \<Rightarrow> nat \<Rightarrow> (('w, 'z) st_scheme, (string \<times> string) option) state" where
  "scanHostKey E host port = do {
     r \<leftarrow> run_cmd E (Argv ''ssh-keyscan'' [''-T'', ''10'', ''-p'', show_nat port, host]);
     let keyLines = key_lines (p_out r);
     if keyLines = [] then State_Monad.return None
     else do {
       let keys = join [CHR 0x0A] keyLines @ [CHR 0x0A];
       kf \<leftarrow> asks (x_temp E hk_template);
       case kf of
         None \<Rightarrow> State_Monad.return (Some (keys, []))
       | Some f \<Rightarrow> do {
           write_text f keys;
           fp \<leftarrow> run_cmd E (Argv ''ssh-keygen'' [''-l'', ''-f'', f]);
           delete_file f;
           State_Monad.return (Some (keys, trimmed (p_out fp))) } } }"

section \<open>The remote operations\<close>

record TestResult =
  tr_ok :: bool
  tr_fingerprint :: string
  tr_hostkey :: string
  tr_message :: string

record DirEntry =
  e_name :: string
  e_isDir :: bool

record ListResult =
  lr_ok :: bool
  lr_entries :: "DirEntry list"
  lr_message :: string

record MkdirResult =
  mr_ok :: bool
  mr_message :: string

definition or_default :: "string \<Rightarrow> string \<Rightarrow> string" where
  "or_default out d = (if trimmed out = [] then d else trimmed out)"

text \<open>What the three methods share: run ssh against a temporary known_hosts file.\<close>

definition ssh_run ::
  "'w ext \<Rightarrow> SSHServer \<Rightarrow> string \<Rightarrow> string \<Rightarrow> (('w, 'z) st_scheme, presult option) state" where
  "ssh_run E srv hostkey command = do {
     kh \<leftarrow> asks (x_temp E kh_template);
     case kh of
       None \<Rightarrow> State_Monad.return None
     | Some f \<Rightarrow> do {
         write_text f hostkey;
         r \<leftarrow> run_cmd E (Argv ''ssh'' (sshArgv srv f @ [ssh_dest srv, command]));
         delete_file f;
         State_Monad.return (Some r) } }"

definition no_known_hosts :: string where
  "no_known_hosts = ''Could not create temporary known_hosts file.''"

definition no_pinned_key :: string where
  "no_pinned_key = ''No pinned host key; run '' @ [sq] @ ''Test connection'' @ [sq] @ '' first.''"

definition ssh_test :: "'w ext \<Rightarrow> SSHServer \<Rightarrow> (('w, 'z) st_scheme, TestResult) state" where
  "ssh_test E srv = do {
     scan \<leftarrow> scanHostKey E (srv_host srv) (unat (srv_port srv));
     case scan of
       None \<Rightarrow> State_Monad.return \<lparr>tr_ok = False, tr_fingerprint = [], tr_hostkey = [],
         tr_message = ''Host key scan failed (host unreachable or SSH not responding).''\<rparr>
     | Some (hostkey, fingerprint) \<Rightarrow> do {
         run \<leftarrow> ssh_run E srv hostkey ''true'';
         case run of
           None \<Rightarrow> State_Monad.return \<lparr>tr_ok = False, tr_fingerprint = fingerprint,
             tr_hostkey = hostkey, tr_message = no_known_hosts\<rparr>
         | Some r \<Rightarrow> State_Monad.return \<lparr>tr_ok = (p_code r = 0), tr_fingerprint = fingerprint,
             tr_hostkey = hostkey,
             tr_message = (if p_code r = 0 then [] else or_default (p_out r) ''SSH connection/auth failed.'')\<rparr> } }"

definition dir_entry :: "string \<Rightarrow> DirEntry" where
  "dir_entry name =
     (if endsWith name ''/'' then \<lparr>e_name = butlast name, e_isDir = True\<rparr>
      else \<lparr>e_name = name, e_isDir = False\<rparr>)"

definition parse_listing :: "string \<Rightarrow> DirEntry list" where
  "parse_listing out =
     filter (\<lambda>e. e_name e \<noteq> []) (map dir_entry (filter (\<lambda>l. l \<noteq> []) (split_on CHR 0x0A out)))"

definition ssh_listDir :: "'w ext \<Rightarrow> SSHServer \<Rightarrow> string \<Rightarrow> (('w, 'z) st_scheme, ListResult) state" where
  "ssh_listDir E srv path =
     (if srv_hostkey srv = []
      then State_Monad.return \<lparr>lr_ok = False, lr_entries = [], lr_message = no_pinned_key\<rparr>
      else do {
        let target = (if path = [] then ''/'' else path);
        run \<leftarrow> ssh_run E srv (srv_hostkey srv) (''ls -1Ap -- '' @ shellQuote target);
        case run of
          None \<Rightarrow> State_Monad.return \<lparr>lr_ok = False, lr_entries = [], lr_message = no_known_hosts\<rparr>
        | Some r \<Rightarrow> State_Monad.return
            (if p_code r \<noteq> 0
             then \<lparr>lr_ok = False, lr_entries = [], lr_message = or_default (p_out r) ''Remote listing failed.''\<rparr>
             else \<lparr>lr_ok = True, lr_entries = parse_listing (p_out r), lr_message = []\<rparr>) })"

definition ssh_mkdir :: "'w ext \<Rightarrow> SSHServer \<Rightarrow> string \<Rightarrow> (('w, 'z) st_scheme, MkdirResult) state" where
  "ssh_mkdir E srv path =
     (if srv_hostkey srv = [] then State_Monad.return \<lparr>mr_ok = False, mr_message = no_pinned_key\<rparr>
      else if path = [] then State_Monad.return \<lparr>mr_ok = False, mr_message = ''Empty remote path.''\<rparr>
      else do {
        run \<leftarrow> ssh_run E srv (srv_hostkey srv) (''mkdir -- '' @ shellQuote path);
        case run of
          None \<Rightarrow> State_Monad.return \<lparr>mr_ok = False, mr_message = no_known_hosts\<rparr>
        | Some r \<Rightarrow> State_Monad.return
            (if p_code r \<noteq> 0
             then \<lparr>mr_ok = False, mr_message = or_default (p_out r) ''Remote mkdir failed.''\<rparr>
             else \<lparr>mr_ok = True, mr_message = []\<rparr>) })"

section \<open>What the remote side is asked to do\<close>

text \<open>
  C39. A path never leaves its place in the remote command: the remote shell reads the command
  \<open>listDir\<close> and \<open>mkdir\<close> send as exactly the intended words, with the path, whatever characters it
  has, as the single last one. No path is split, expanded or run.
\<close>

theorem remote_command_words:
  "sh_words (''ls -1Ap -- '' @ shellQuote path) = Some [''ls'', ''-1Ap'', ''--'', path]
   \<and> sh_words (''mkdir -- '' @ shellQuote path) = Some [''mkdir'', ''--'', path]"
  using sh_lex_shellQuote [of path "[]"]
  by (simp add: sh_words_def sh_special_def sq_def bs_def)

lemma sshOptions_blank:
  "(\<forall>w \<in> set (sshOptions srv kh). CHR '' '' \<notin> set w)
   \<longleftrightarrow> CHR '' '' \<notin> set kh \<and> CHR '' '' \<notin> set (srv_keyfile srv)"
proof -
  have "CHR '' '' \<notin> set (show_nat n)" for n
    using show_nat_no_space [of "CHR '' ''" n] by (auto simp: is_digit_def)
  then show ?thesis
    by (cases "kh = []"; cases "srv_keyfile srv = []") (simp_all add: sshOptions_def)
qed

text \<open>
  \<open>rsync\<close> splits the value of \<open>-e\<close> at blanks. The words it gets are the program and the very
  options of the other ssh calls exactly if neither the known_hosts path nor the key file
  contains a blank.
\<close>

theorem rsh_command_words:
  "split_on CHR '' '' (rshCommand srv kh) = ''ssh'' # sshArgv srv kh
   \<longleftrightarrow> CHR '' '' \<notin> set kh \<and> CHR '' '' \<notin> set (srv_keyfile srv)"
proof -
  let ?ws = "''ssh'' # sshOptions srv kh"
  have cmd: "rshCommand srv kh = join '' '' ?ws"
    by (simp add: rshCommand_def sshOptions_def)
  have "split_on CHR '' '' (join '' '' ?ws) = ?ws \<longleftrightarrow> (\<forall>w \<in> set ?ws. CHR '' '' \<notin> set w)"
    using split_on_join [of ?ws "CHR '' ''"] split_on_no_sep [of _ "CHR '' ''" "join '' '' ?ws"]
    by (metis list.distinct(1))
  then show ?thesis
    unfolding cmd sshArgv_def by (simp add: sshOptions_blank)
qed

lemmas ssh_ops = run_cmd_def write_text_def delete_file_def run_simps

lemma run_ssh_run:
  "run_state (ssh_run E srv key command) s =
    (case x_temp E kh_template (os s) of
       None \<Rightarrow> (None, s)
     | Some f \<Rightarrow>
         (let w = file_write f (Plain key) (os s);
              c = Argv ''ssh'' (sshArgv srv f @ [ssh_dest srv, command]);
              r = x_exec E c w
          in (Some (fst r), s\<lparr>trace := trace s @ [WriteText f key, Exec c, Delete f],
                             os := snd (file_remove f (snd r))\<rparr>)))"
  by (simp add: ssh_run_def ssh_ops split: option.splits)

definition pinned_options :: "string \<Rightarrow> string list" where
  "pinned_options f = [''StrictHostKeyChecking=yes'', ''UserKnownHostsFile='' @ f,
     ''PreferredAuthentications=publickey'', ''PasswordAuthentication=no'']"

definition pinned_trace :: "'w ext \<Rightarrow> SSHServer \<Rightarrow> string \<Rightarrow> 'w sys \<Rightarrow> event list" where
  "pinned_trace E srv command w =
     (if srv_hostkey srv = [] then []
      else case x_temp E kh_template w of
        None \<Rightarrow> []
      | Some f \<Rightarrow> [WriteText f (srv_hostkey srv),
                   Exec (Argv ''ssh'' (sshOptions srv f @ [ssh_dest srv, command])), Delete f])"

lemma pinned_options_used:
  "f \<noteq> [] \<Longrightarrow> \<forall>x \<in> set (pinned_options f). \<exists>a b. sshOptions srv f = a @ [''-o'', x] @ b"
  by (auto simp: pinned_options_def sshOptions_def) (metis append_Cons append_Nil)+

text \<open>
  C38. The two remote operations talk to a server only on the strength of its pinned key.
  Without one nothing is run and the call fails; otherwise the pinned key is written to a new
  file, one ssh is run that must check the host against that very file and may only use public
  keys, and the file is deleted.
\<close>

theorem remote_calls_pinned:
  "trace (snd (run_state (ssh_listDir E srv path) s)) = trace s
     @ pinned_trace E srv (''ls -1Ap -- '' @ shellQuote (if path = [] then ''/'' else path)) (os s)
   \<and> trace (snd (run_state (ssh_mkdir E srv path) s)) = trace s
     @ (if path = [] then [] else pinned_trace E srv (''mkdir -- '' @ shellQuote path) (os s))
   \<and> (f \<noteq> [] \<longrightarrow> (\<forall>x \<in> set (pinned_options f). \<exists>a b. sshOptions srv f = a @ [''-o'', x] @ b))"
  using pinned_options_used [of f srv]
  by (auto simp: ssh_listDir_def ssh_mkdir_def pinned_trace_def run_ssh_run Let_def sshArgv_def
      split: option.splits)

theorem remote_calls_pinned_witness:
  "trace (snd (run_state (ssh_mkdir calm_ext ((new_SSHServer [])\<lparr>srv_hostkey := ''h k''\<rparr>) ''/b'') calm_st))
   = [WriteText kh_template ''h k'',
      Exec (Argv ''ssh'' (sshOptions (new_SSHServer []\<lparr>srv_hostkey := ''h k''\<rparr>) kh_template
        @ [''@'', ''mkdir -- '' @ shellQuote ''/b''])), Delete kh_template]
   \<and> (\<exists>a b. sshOptions (new_SSHServer []\<lparr>srv_hostkey := ''h k''\<rparr>) kh_template
        = a @ [''-o'', ''StrictHostKeyChecking=yes''] @ b)"
proof -
  have "kh_template \<noteq> []" by (simp add: kh_template_def)
  with remote_calls_pinned [of calm_ext "new_SSHServer []\<lparr>srv_hostkey := ''h k''\<rparr>" "''/b''" calm_st kh_template]
  show ?thesis
    by (simp add: pinned_trace_def calm_defs new_SSHServer_def pinned_options_def ssh_dest_def)
qed

definition ls_name :: "DirEntry \<Rightarrow> string" where
  "ls_name e = e_name e @ (if e_isDir e then ''/'' else [])"

definition ls_line :: "DirEntry \<Rightarrow> string" where
  "ls_line e = ls_name e @ [CHR 0x0A]"

lemma split_ls_lines:
  assumes "\<forall>e \<in> set es. CHR 0x0A \<notin> set (e_name e)"
  shows "split_on CHR 0x0A (concat (map ls_line es)) = map ls_name es @ [[]]"
  using assms
proof (induction es)
  case Nil
  then show ?case by simp
next
  case (Cons e es)
  have "CHR 0x0A \<notin> set (ls_name e)" using Cons.prems by (simp add: ls_name_def)
  moreover have "concat (map ls_line (e # es)) = ls_name e @ CHR 0x0A # concat (map ls_line es)"
    by (simp add: ls_line_def)
  ultimately show ?case
    using Cons split_on_append [of "CHR 0x0A" "ls_name e" "concat (map ls_line es)"] by simp
qed

text \<open>
  C40. What a listing shows is what the remote \<open>ls -1Ap\<close> printed: from the lines of any entries
  with proper names, directories marked by a slash, \<open>listDir\<close> reads exactly these entries back.
\<close>

theorem listing_roundtrip:
  assumes "\<forall>e \<in> set es. e_name e \<noteq> [] \<and> CHR 0x0A \<notin> set (e_name e) \<and> CHR ''/'' \<notin> set (e_name e)"
  shows "parse_listing (concat (map ls_line es)) = es"
proof -
  have entry: "dir_entry (ls_name e) = e" if "e \<in> set es" for e
  proof -
    have "\<not> suffix ''/'' (e_name e)"
      using assms that by (auto simp: suffix_def)
    then show ?thesis
      by (cases e) (auto simp: dir_entry_def suffix_def ls_name_def)
  qed
  have "\<forall>l \<in> set (map ls_name es). l \<noteq> []" using assms by (auto simp: ls_name_def)
  then have "filter (\<lambda>l. l \<noteq> []) (map ls_name es @ [[]]) = map ls_name es"
    by (simp add: filter_True)
  moreover have "map (\<lambda>e. dir_entry (ls_name e)) es = es"
    using entry by (simp add: map_idI)
  moreover have "filter (\<lambda>e. e_name e \<noteq> []) es = es" using assms by (intro filter_True) simp
  ultimately show ?thesis
    using assms by (simp add: parse_listing_def split_ls_lines comp_def)
qed

theorem listing_roundtrip_witness:
  "parse_listing ''home/'' = [\<lparr>e_name = ''home'', e_isDir = True\<rparr>]
   \<and> parse_listing (concat (map ls_line [\<lparr>e_name = ''a b'', e_isDir = False\<rparr>, \<lparr>e_name = ''etc'', e_isDir = True\<rparr>]))
     = [\<lparr>e_name = ''a b'', e_isDir = False\<rparr>, \<lparr>e_name = ''etc'', e_isDir = True\<rparr>]"
  using listing_roundtrip [of "[\<lparr>e_name = ''a b'', e_isDir = False\<rparr>, \<lparr>e_name = ''etc'', e_isDir = True\<rparr>]"]
  by (simp add: parse_listing_def dir_entry_def suffix_def)

section \<open>The connection test\<close>

definition scan_cmd :: "string \<Rightarrow> nat \<Rightarrow> cmd" where
  "scan_cmd host port = Argv ''ssh-keyscan'' [''-T'', ''10'', ''-p'', show_nat port, host]"

lemma scanHostKey_result:
  assumes "run_state (scanHostKey E host port) s = (Some (keys, fp), s')"
  shows "\<exists>t. t = p_out (fst (x_exec E (scan_cmd host port) (os s)))
    \<and> key_lines t \<noteq> [] \<and> keys = join [CHR 0x0A] (key_lines t) @ [CHR 0x0A]"
  using assms
  by (auto simp: scan_cmd_def scanHostKey_def ssh_ops split: if_splits option.splits)

text \<open>
  A connection test that reports success hands out a key that was really used: the key is
  made of the key lines \<open>ssh-keyscan\<close> printed, and an ssh call of this server's options, with that key
  as the only known one, ended with exit code 0 as \<open>QProcess\<close> reports it.
\<close>

theorem test_ok_key:
  assumes "run_state (ssh_test E srv) s = (res, s')" and "tr_ok res"
  shows "\<exists>t f w. t = p_out (fst (x_exec E (scan_cmd (srv_host srv) (unat (srv_port srv))) (os s)))
    \<and> key_lines t \<noteq> [] \<and> tr_hostkey res = join [CHR 0x0A] (key_lines t) @ [CHR 0x0A]
    \<and> Exec (Argv ''ssh'' (sshOptions srv f @ [ssh_dest srv, ''true''])) \<in> set (trace s')
    \<and> p_code (fst (x_exec E (Argv ''ssh'' (sshOptions srv f @ [ssh_dest srv, ''true'']))
                 (file_write f (Plain (tr_hostkey res)) w))) = 0"
proof -
  obtain scan s1 where scan: "run_state (scanHostKey E (srv_host srv) (unat (srv_port srv))) s = (scan, s1)"
    by fastforce
  with assms obtain keys fp where k: "scan = Some (keys, fp)"
    by (auto simp: ssh_test_def split: option.splits)
  with assms scan obtain f where f: "x_temp E kh_template (os s1) = Some f"
    by (auto simp: ssh_test_def run_ssh_run split: option.splits)
  let ?c = "Argv ''ssh'' (sshOptions srv f @ [ssh_dest srv, ''true''])"
  have last_call: "tr_hostkey res = keys \<and> p_code (fst (x_exec E ?c (file_write f (Plain keys) (os s1)))) = 0
      \<and> Exec ?c \<in> set (trace s')"
    using assms scan k f by (auto simp: ssh_test_def run_ssh_run Let_def sshArgv_def)
  obtain t where "t = p_out (fst (x_exec E (scan_cmd (srv_host srv) (unat (srv_port srv))) (os s)))"
    "key_lines t \<noteq> []" "keys = join [CHR 0x0A] (key_lines t) @ [CHR 0x0A]"
    using scanHostKey_result [OF scan [unfolded k]] by blast
  with last_call show ?thesis
    by (intro exI [of _ t] exI [of _ f] exI [of _ "os s1"]) simp
qed

text \<open>An outside world with one reachable ssh server, whose ssh ends in the given way.\<close>

definition ssh_ext :: "proc_end \<Rightarrow> unit ext" where
  "ssh_ext e = calm_ext\<lparr>x_exec := \<lambda>c s. (case c of
     Argv p _ \<Rightarrow> if p = ''ssh-keyscan'' then \<lparr>p_end = Exited 0, p_out = ''h k''\<rparr>
                 else if p = ''ssh'' then \<lparr>p_end = e, p_out = []\<rparr>
                 else \<lparr>p_end = Exited 0, p_out = []\<rparr>
   | _ \<Rightarrow> \<lparr>p_end = Exited 0, p_out = []\<rparr>, s)\<rparr>"

lemma key_lines_example: "key_lines ''h k'' = [''h k'']"
  by (simp add: key_lines_def trimmed_def is_space_def)

lemma ssh_test_example:
  "fst (run_state (ssh_test (ssh_ext e) (new_SSHServer [])) calm_st)
   = \<lparr>tr_ok = (p_code \<lparr>p_end = e, p_out = []\<rparr> = 0), tr_fingerprint = [], tr_hostkey = ''h k'' @ [CHR 0x0A],
      tr_message = (if p_code \<lparr>p_end = e, p_out = []\<rparr> = 0 then [] else ''SSH connection/auth failed.'')\<rparr>"
  by (simp add: ssh_test_def scanHostKey_def run_ssh_run ssh_ops ssh_ext_def calm_defs
      key_lines_example trimmed_def or_default_def)

theorem test_ok_key_witness:
  "\<exists>f. Exec (Argv ''ssh'' (sshOptions (new_SSHServer []) f @ [''@'', ''true'']))
     \<in> set (trace (snd (run_state (ssh_test (ssh_ext (Exited 0)) (new_SSHServer [])) calm_st)))"
proof -
  let ?r = "run_state (ssh_test (ssh_ext (Exited 0)) (new_SSHServer [])) calm_st"
  have "tr_ok (fst ?r)" by (simp add: ssh_test_example)
  from test_ok_key [OF _ this, of "ssh_ext (Exited 0)" "new_SSHServer []" calm_st "snd ?r"]
  show ?thesis by (auto simp: ssh_dest_def new_SSHServer_def)
qed

text \<open>
  The same verdict counts an ssh that did not finish within its 20 seconds, or could not be
  started, as a success: the exit code of such a process reads as 0.
\<close>

theorem test_timeout_is_ok:
  assumes "run_state (scanHostKey E (srv_host srv) (unat (srv_port srv))) s = (Some (keys, fp), s1)"
    and "x_temp E kh_template (os s1) = Some f"
    and "p_end (fst (x_exec E (Argv ''ssh'' (sshOptions srv f @ [ssh_dest srv, ''true'']))
           (file_write f (Plain keys) (os s1)))) \<in> {FailedToStart, Unfinished}"
  shows "tr_ok (fst (run_state (ssh_test E srv) s))"
  using assms by (auto simp: ssh_test_def run_ssh_run Let_def sshArgv_def p_code_def)

theorem test_timeout_is_ok_witness:
  "tr_ok (fst (run_state (ssh_test (ssh_ext Unfinished) (new_SSHServer [])) calm_st))"
proof -
  let ?E = "ssh_ext Unfinished" and ?srv = "new_SSHServer []"
  have "run_state (scanHostKey ?E (srv_host ?srv) (unat (srv_port ?srv))) calm_st
      = (Some (''h k'' @ [CHR 0x0A], []), snd (run_state (scanHostKey ?E (srv_host ?srv) (unat (srv_port ?srv))) calm_st))"
    by (simp add: scanHostKey_def ssh_ops ssh_ext_def calm_defs key_lines_example trimmed_def)
  moreover have "x_temp ?E kh_template w = Some kh_template" for w
    by (simp add: ssh_ext_def calm_ext_def)
  ultimately show ?thesis
    by (rule test_timeout_is_ok) (simp add: ssh_ext_def)
qed

end
