(* ===== verification/ConfFormat.thy ===== *)
theory ConfFormat
  imports Settings
begin

text \<open>
  The files of the three stores of ticonf.cpp: what \<open>saveBackupJob\<close> and the two \<open>saveItem\<close>
  methods write into a \<open>QSettings\<close> object, and what \<open>readBackupJobs\<close> and \<open>readItems\<close> read
  back, call for call. The rows of a \<open>QMultiHash\<close> come in the unspecified order of the hash
  (\<open>x_order\<close>). The round trips at the end are what the stores rest on.
\<close>

section \<open>PBS servers\<close>

definition pb_write :: "PBServer \<Rightarrow> (qsettings, unit) state" where
  "pb_write item = do {
     beginGroup ''pbserver'';
     setValue ''uuid'' (pb_uuid item);
     setValue ''name'' (pb_name item);
     setValue ''host'' (pb_host item);
     setValue ''port'' (of_u32 (pb_port item));
     setValue ''username'' (pb_username item);
     setValue ''password'' (pb_password item);
     setValue ''fingerprint'' (pb_fingerprint item);
     setValue ''keyfile'' (pb_keyfile item);
     setValue ''keypass'' (pb_keypass item);
     endGroup }"

definition pb_read :: "(qsettings, PBServer) state" where
  "pb_read = do {
     beginGroup ''pbserver'';
     uuid \<leftarrow> settings_value ''uuid'';
     name \<leftarrow> settings_value ''name'';
     host \<leftarrow> settings_value ''host'';
     port \<leftarrow> settings_value ''port'';
     username \<leftarrow> settings_value ''username'';
     password \<leftarrow> settings_value ''password'';
     fingerprint \<leftarrow> settings_value ''fingerprint'';
     keyfile \<leftarrow> settings_value ''keyfile'';
     keypass \<leftarrow> settings_value ''keypass'';
     endGroup;
     State_Monad.return \<lparr>pb_uuid = to_text uuid, pb_name = to_text name, pb_host = to_text host,
       pb_port = to_u32 port, pb_username = to_text username, pb_password = to_text password,
       pb_fingerprint = to_text fingerprint, pb_keyfile = to_text keyfile,
       pb_keypass = to_text keypass\<rparr> }"

section \<open>SSH servers\<close>

definition srv_write :: "SSHServer \<Rightarrow> (qsettings, unit) state" where
  "srv_write item = do {
     beginGroup ''sshserver'';
     setValue ''uuid'' (srv_uuid item);
     setValue ''name'' (srv_name item);
     setValue ''host'' (srv_host item);
     setValue ''port'' (of_u32 (srv_port item));
     setValue ''username'' (srv_username item);
     setValue ''keyfile'' (srv_keyfile item);
     setValue ''keypass'' (srv_keypass item);
     setValue ''hostkey'' (srv_hostkey item);
     endGroup }"

definition srv_read :: "(qsettings, SSHServer) state" where
  "srv_read = do {
     beginGroup ''sshserver'';
     uuid \<leftarrow> settings_value ''uuid'';
     name \<leftarrow> settings_value ''name'';
     host \<leftarrow> settings_value ''host'';
     port \<leftarrow> settings_value ''port'';
     username \<leftarrow> settings_value ''username'';
     keyfile \<leftarrow> settings_value ''keyfile'';
     keypass \<leftarrow> settings_value ''keypass'';
     hostkey \<leftarrow> settings_value ''hostkey'';
     endGroup;
     State_Monad.return \<lparr>srv_uuid = to_text uuid, srv_name = to_text name, srv_host = to_text host,
       srv_port = to_u32 port, srv_username = to_text username, srv_keyfile = to_text keyfile,
       srv_keypass = to_text keypass, srv_hostkey = to_text hostkey\<rparr> }"

section \<open>Backup jobs\<close>

definition folder_rows :: "'w ext \<Rightarrow> qmultihash \<Rightarrow> (string \<times> string) list list" where
  "folder_rows E ds = map (\<lambda>(src, dst). [(''source'', src), (''dest'', dst)]) (x_order E ds)"

definition ssh_rows :: "'w ext \<Rightarrow> tiBackupJobSSHTarget list \<Rightarrow> (string \<times> string) list list" where
  "ssh_rows E ts = concat (map (\<lambda>t.
     map (\<lambda>(src, dst). [(''server_uuid'', t_server_uuid t), (''source'', src), (''dest'', dst)])
       (x_order E (t_backupdirs t))) ts)"

definition job_write :: "'w ext \<Rightarrow> tiBackupJob \<Rightarrow> (qsettings, unit) state" where
  "job_write E job = do {
     beginGroup ''job'';
     setValue ''name'' (job_name job);
     setValue ''device'' (job_device job);
     setValue ''partition_uuid'' (partition_uuid job);
     endGroup;
     beginGroup ''backup'';
     setValue ''delete_add_file_on_dest'' (of_bool_text (delete_add_file_on_dest job));
     setValue ''start_backup_on_hotplug'' (of_bool_text (start_backup_on_hotplug job));
     setValue ''save_log'' (of_bool_text (save_log job));
     setValue ''compare_via_checksum'' (of_bool_text (compare_via_checksum job));
     setValue ''umount_after_backup'' (of_bool_text (umount_after_backup job));
     write_array ''folders'' (folder_rows E (backupdirs job));
     endGroup;
     beginGroup ''notify'';
     setValue ''enabled'' (of_bool_text (notify job));
     setValue ''recipients'' (notifyRecipients job);
     endGroup;
     beginGroup ''scripts'';
     setValue ''beforeBackup'' (scriptBeforeBackup job);
     setValue ''afterBackup'' (scriptAfterBackup job);
     endGroup;
     beginGroup ''pbs'';
     setValue ''enabled'' (of_bool_text (pbs job));
     setValue ''pbs_server_uuid'' (pbs_server_uuid job);
     setValue ''pbs_server_storage'' (pbs_server_storage job);
     setValue ''pbs_dest_folder'' (pbs_dest_folder job);
     write_array ''pbs_ids'' (map (\<lambda>b. [(''id'', b)]) (pbs_backup_ids job));
     endGroup;
     beginGroup ''ssh'';
     setValue ''enabled'' (of_bool_text (ssh job));
     write_array ''entries'' (ssh_rows E (ssh_targets job));
     endGroup;
     beginGroup ''task'';
     setValue ''type'' (of_i32 (interval_to_int (intervalType job)));
     setValue ''time'' (intervalTime job);
     setValue ''day'' (of_i32 (intervalDay job));
     endGroup;
     beginGroup ''encluks'';
     setValue ''type'' (of_i32 (luks_to_int (encLUKSType job)));
     setValue ''filepath'' (encLUKSFilePath job);
     endGroup }"

text \<open>
  The loop that groups the flat SSH entries back per server: \<open>sshTargetIdx\<close> maps a server to
  the index of its target in the list under construction.
\<close>

fun add_ssh_entry ::
  "(string \<Rightarrow> nat option) \<times> tiBackupJobSSHTarget list \<Rightarrow> string list \<Rightarrow>
   (string \<Rightarrow> nat option) \<times> tiBackupJobSSHTarget list" where
  "add_ssh_entry (idx, ts) [suuid, src, dst] =
     (let (i, idx', ts') =
            (case idx suuid of
               Some i \<Rightarrow> (i, idx, ts)
             | None \<Rightarrow> (length ts, idx(suuid \<mapsto> length ts),
                        ts @ [\<lparr>t_server_uuid = suuid, t_backupdirs = {#}\<rparr>]))
      in (idx', ts'[i := (ts' ! i)\<lparr>t_backupdirs := add_mset (src, dst) (t_backupdirs (ts' ! i))\<rparr>]))"
| "add_ssh_entry st _ = st"

definition group_ssh :: "string list list \<Rightarrow> tiBackupJobSSHTarget list" where
  "group_ssh rows = snd (foldl add_ssh_entry (Map.empty, []) rows)"

definition group_dirs :: "string list list \<Rightarrow> qmultihash" where
  "group_dirs rows = foldl (\<lambda>M r. add_mset (r ! 0, r ! 1) M) {#} rows"

definition job_read :: "(qsettings, tiBackupJob) state" where
  "job_read = do {
     beginGroup ''job'';
     name \<leftarrow> settings_value ''name'';
     device \<leftarrow> settings_value ''device'';
     part \<leftarrow> settings_value ''partition_uuid'';
     endGroup;
     beginGroup ''backup'';
     del \<leftarrow> settings_value ''delete_add_file_on_dest'';
     hot \<leftarrow> settings_value ''start_backup_on_hotplug'';
     sav \<leftarrow> settings_value ''save_log'';
     cmp \<leftarrow> settings_value ''compare_via_checksum'';
     umo \<leftarrow> settings_value ''umount_after_backup'';
     folders \<leftarrow> read_array ''folders'' [''source'', ''dest''];
     endGroup;
     beginGroup ''notify'';
     ntf \<leftarrow> settings_value ''enabled'';
     rcp \<leftarrow> settings_value ''recipients'';
     endGroup;
     beginGroup ''scripts'';
     before \<leftarrow> settings_value ''beforeBackup'';
     after \<leftarrow> settings_value ''afterBackup'';
     endGroup;
     beginGroup ''pbs'';
     pbe \<leftarrow> settings_value ''enabled'';
     pbu \<leftarrow> settings_value ''pbs_server_uuid'';
     pbst \<leftarrow> settings_value ''pbs_server_storage'';
     pbd \<leftarrow> settings_value ''pbs_dest_folder'';
     ids \<leftarrow> read_array ''pbs_ids'' [''id''];
     endGroup;
     beginGroup ''ssh'';
     she \<leftarrow> settings_value ''enabled'';
     entries \<leftarrow> read_array ''entries'' [''server_uuid'', ''source'', ''dest''];
     endGroup;
     beginGroup ''task'';
     ity \<leftarrow> settings_value ''type'';
     iti \<leftarrow> settings_value ''time'';
     ida \<leftarrow> settings_value ''day'';
     endGroup;
     beginGroup ''encluks'';
     ety \<leftarrow> settings_value ''type'';
     efi \<leftarrow> settings_value ''filepath'';
     endGroup;
     State_Monad.return \<lparr>job_name = to_text name, job_device = to_text device,
       partition_uuid = to_text part, backupdirs = group_dirs folders,
       delete_add_file_on_dest = to_bool del, start_backup_on_hotplug = to_bool hot,
       save_log = to_bool sav, compare_via_checksum = to_bool cmp,
       umount_after_backup = (case umo of None \<Rightarrow> True | Some _ \<Rightarrow> to_bool umo),
       notify = to_bool ntf, notifyRecipients = to_text rcp, scriptBeforeBackup = to_text before,
       scriptAfterBackup = to_text after, intervalType = interval_of_int (to_i32 ity),
       intervalTime = to_text iti, intervalDay = to_i32 ida, encLUKSType = luks_of_int (to_i32 ety),
       encLUKSFilePath = to_text efi, pbs = to_bool pbe, pbs_server_uuid = to_text pbu,
       pbs_server_storage = to_text pbst, pbs_backup_ids = map (\<lambda>r. r ! 0) ids,
       pbs_dest_folder = to_text pbd, ssh = to_bool she, ssh_targets = group_ssh entries\<rparr> }"

section \<open>Files and their contents\<close>

definition pb_encode :: "'w ext \<Rightarrow> PBServer \<Rightarrow> settings \<Rightarrow> settings" where
  "pb_encode E item m = q_map (snd (run_state (pb_write item) (qs_open m)))"
definition pb_decode :: "settings \<Rightarrow> PBServer" where
  "pb_decode m = fst (run_state pb_read (qs_open m))"

definition srv_encode :: "'w ext \<Rightarrow> SSHServer \<Rightarrow> settings \<Rightarrow> settings" where
  "srv_encode E item m = q_map (snd (run_state (srv_write item) (qs_open m)))"
definition srv_decode :: "settings \<Rightarrow> SSHServer" where
  "srv_decode m = fst (run_state srv_read (qs_open m))"

definition job_encode :: "'w ext \<Rightarrow> tiBackupJob \<Rightarrow> settings \<Rightarrow> settings" where
  "job_encode E job m = q_map (snd (run_state (job_write E job) (qs_open m)))"
definition job_decode :: "settings \<Rightarrow> tiBackupJob" where
  "job_decode m = fst (run_state job_read (qs_open m))"

section \<open>Round trips\<close>

lemma pb_roundtrip: "pb_decode (pb_encode E item m) = item"
  by (simp add: pb_decode_def pb_encode_def pb_read_def pb_write_def qs_open_def run_simps)

lemma srv_roundtrip: "srv_decode (srv_encode E item m) = item"
  by (simp add: srv_decode_def srv_encode_def srv_read_def srv_write_def qs_open_def run_simps)

text \<open>Rows in the shape \<open>write_array\<close> and \<open>read_array\<close> share.\<close>

definition folder_cells :: "string \<times> string \<Rightarrow> string list" where
  "folder_cells e = [fst e, snd e]"

definition ssh_cells :: "string \<times> string \<times> string \<Rightarrow> string list" where
  "ssh_cells e = [fst e, fst (snd e), snd (snd e)]"

definition ssh_entries :: "'w ext \<Rightarrow> tiBackupJobSSHTarget list \<Rightarrow> (string \<times> string \<times> string) list" where
  "ssh_entries E ts = concat (map (\<lambda>t. map (\<lambda>e. (t_server_uuid t, e)) (x_order E (t_backupdirs t))) ts)"

lemma folder_rows_zip:
  "folder_rows E ds = map (\<lambda>e. zip [''source'', ''dest''] (folder_cells e)) (x_order E ds)"
  by (auto simp: folder_rows_def folder_cells_def)

lemma ids_rows_zip:
  "map (\<lambda>b. [(''id'', b)]) bs = map (\<lambda>b. zip [''id''] [b]) bs"
  by simp

lemma ssh_rows_zip:
  "ssh_rows E ts = map (\<lambda>e. zip [''server_uuid'', ''source'', ''dest''] (ssh_cells e)) (ssh_entries E ts)"
  by (auto simp: ssh_rows_def ssh_entries_def ssh_cells_def map_concat comp_def
      intro!: arg_cong [where f = concat])

lemma group_dirs_cells: "group_dirs (map folder_cells es) = mset es"
proof -
  have "foldl (\<lambda>M r. add_mset (r ! 0, r ! 1) M) M (map folder_cells es) = M + mset es" for M
    by (induction es arbitrary: M) (auto simp: folder_cells_def)
  then show ?thesis by (simp add: group_dirs_def)
qed

lemma ssh_same_server:
  assumes "idx u = Some (length ts)"
  shows "foldl add_ssh_entry (idx, ts @ [\<lparr>t_server_uuid = u, t_backupdirs = M\<rparr>])
           (map (\<lambda>e. ssh_cells (u, e)) es)
       = (idx, ts @ [\<lparr>t_server_uuid = u, t_backupdirs = M + mset es\<rparr>])"
proof (induction es arbitrary: M)
  case Nil
  then show ?case by simp
next
  case (Cons e es)
  have "add_ssh_entry (idx, ts @ [\<lparr>t_server_uuid = u, t_backupdirs = M\<rparr>]) (ssh_cells (u, e))
      = (idx, ts @ [\<lparr>t_server_uuid = u, t_backupdirs = add_mset e M\<rparr>])"
    using assms by (cases e) (simp add: ssh_cells_def)
  with Cons show ?case by simp
qed

lemma ssh_new_server:
  assumes "idx (t_server_uuid t) = None" and "order_ok E" and "t_backupdirs t \<noteq> {#}"
  shows "foldl add_ssh_entry (idx, ts) (map (\<lambda>e. ssh_cells (t_server_uuid t, e)) (x_order E (t_backupdirs t)))
       = (idx(t_server_uuid t \<mapsto> length ts), ts @ [t])"
proof -
  have m: "mset (x_order E (t_backupdirs t)) = t_backupdirs t"
    using assms(2) by (simp add: order_ok_def)
  with assms(3) obtain e es where es: "x_order E (t_backupdirs t) = e # es"
    by (cases "x_order E (t_backupdirs t)") auto
  have "add_ssh_entry (idx, ts) (ssh_cells (t_server_uuid t, e))
      = (idx(t_server_uuid t \<mapsto> length ts), ts @ [\<lparr>t_server_uuid = t_server_uuid t, t_backupdirs = {#e#}\<rparr>])"
    using assms(1) by (cases e) (simp add: ssh_cells_def)
  moreover have "\<lparr>t_server_uuid = t_server_uuid t, t_backupdirs = add_mset e (mset es)\<rparr> = t"
    using m es by (cases t) simp
  ultimately show ?thesis
    by (simp add: es ssh_same_server)
qed

lemma group_ssh_cells:
  assumes "order_ok E" and "distinct (map t_server_uuid ts)" and "\<forall>t \<in> set ts. t_backupdirs t \<noteq> {#}"
  shows "group_ssh (map ssh_cells (ssh_entries E ts)) = ts"
proof -
  have "snd (foldl add_ssh_entry (idx, acc) (map ssh_cells (ssh_entries E ts))) = acc @ ts"
    if "\<forall>t \<in> set ts. idx (t_server_uuid t) = None" for idx acc
    using that assms(2,3)
  proof (induction ts arbitrary: idx acc)
    case Nil
    then show ?case by (simp add: ssh_entries_def)
  next
    case (Cons t ts)
    have "ssh_entries E (t # ts) = map (\<lambda>e. (t_server_uuid t, e)) (x_order E (t_backupdirs t)) @ ssh_entries E ts"
      by (simp add: ssh_entries_def)
    moreover have "\<forall>t' \<in> set ts. (idx(t_server_uuid t \<mapsto> length acc)) (t_server_uuid t') = None"
      using Cons.prems by (auto simp: image_iff)
    ultimately show ?case
      using Cons.IH [of "idx(t_server_uuid t \<mapsto> length acc)" "acc @ [t]"] Cons.prems
      by (simp add: ssh_new_server [OF _ assms(1)] comp_def del: fun_upd_apply)
  qed
  from this [of Map.empty "[]"] show ?thesis by (simp add: group_ssh_def)
qed

text \<open>
  The jobs whose file reads back: enum values as the code can hold them, array sizes within
  \<open>int\<close>, and SSH targets that name a server once and have something to copy. (A target without
  directories leaves no row, and two targets of one server come back as one.)
\<close>

definition wf_job :: "'w ext \<Rightarrow> tiBackupJob \<Rightarrow> bool" where
  "wf_job E j \<longleftrightarrow> wf_interval (intervalType j) \<and> wf_luks (encLUKSType j)
     \<and> size (backupdirs j) < 2 ^ 31 \<and> length (pbs_backup_ids j) < 2 ^ 31
     \<and> length (ssh_entries E (ssh_targets j)) < 2 ^ 31
     \<and> distinct (map t_server_uuid (ssh_targets j)) \<and> (\<forall>t \<in> set (ssh_targets j). t_backupdirs t \<noteq> {#})"

lemma length_order [simp]: "order_ok E \<Longrightarrow> length (x_order E M) = size M"
  by (metis order_ok_def size_mset)

lemma mset_order [simp]: "order_ok E \<Longrightarrow> mset (x_order E M) = M"
  by (simp add: order_ok_def)

lemma folders_cells:
  assumes "size (backupdirs j) < 2 ^ 31" and "order_ok E"
  shows "array_cells p [''source'', ''dest''] (put_array p (folder_rows E (backupdirs j)) m)
     = map folder_cells (x_order E (backupdirs j))"
  unfolding folder_rows_zip using assms by (intro array_cells_put) (auto simp: folder_cells_def)

lemma ids_cells:
  assumes "length bs < 2 ^ 31"
  shows "array_cells p [''id''] (put_array p (map (\<lambda>b. [(''id'', b)]) bs) m) = map (\<lambda>b. [b]) bs"
  unfolding ids_rows_zip using assms by (intro array_cells_put) auto

lemma entries_cells:
  assumes "length (ssh_entries E ts) < 2 ^ 31"
  shows "array_cells p [''server_uuid'', ''source'', ''dest''] (put_array p (ssh_rows E ts) m)
     = map ssh_cells (ssh_entries E ts)"
  unfolding ssh_rows_zip using assms by (intro array_cells_put) (auto simp: ssh_cells_def)

lemma job_roundtrip:
  assumes "order_ok E" and "wf_job E j"
  shows "job_decode (job_encode E j m) = j"
  using assms
  by (simp add: job_decode_def job_encode_def job_read_def job_write_def qs_open_def run_simps
      wf_job_def folders_cells ids_cells entries_cells group_dirs_cells group_ssh_cells
      put_array_other comp_def)

end
