(* ===== verification/ConfStores.thy ===== *)
theory ConfStores
  imports ConfFormat ConfMain
begin

text \<open>
  The three configuration stores of ticonf.cpp (\<open>tiConfBackupJobs\<close>, \<open>tiConfPBServers\<close>,
  \<open>tiConfSSHServers\<close>): a directory with one file per item. The directory is the value of
  \<open>paths/backupjobs\<close>, \<open>paths/pbservers\<close> or \<open>paths/sshservers\<close>. A job's file is named after the
  job, a server's after its uuid. What the three share is proved once in the locale
  \<open>conf_store\<close>: seen through \<open>store_abs\<close> a store is a map from keys to items, saving is an
  update and removing a deletion. The mutexes of the server stores only serialise these calls.
\<close>

section \<open>A directory of settings files\<close>

definition store_file :: "string \<Rightarrow> string \<Rightarrow> string" where
  "store_file d k = d @ ''/'' @ k @ ''.conf''"

definition save_settings :: "'w ext \<Rightarrow> string \<Rightarrow> string \<Rightarrow> (settings \<Rightarrow> settings) \<Rightarrow> 'w sys \<Rightarrow> 'w sys" where
  "save_settings E d filename wr s =
     (let s1 = (if d \<notin> dirs s then mkpath d s else s);
          s2 = (if path_exists s1 filename then snd (file_remove filename s1) else s1)
      in set_mode filename root_file
           (file_write filename (Settings (wr (file_keys E filename s2))) s2))"

definition conf_files :: "string \<Rightarrow> 'w sys \<Rightarrow> string list" where
  "conf_files d s = filter (\<lambda>p. endsWith p ''.conf'') (dir_entries d s)"

definition read_settings :: "'w ext \<Rightarrow> string \<Rightarrow> (settings \<Rightarrow> 'a) \<Rightarrow> 'w sys \<Rightarrow> 'a list" where
  "read_settings E d dec s = map (\<lambda>p. dec (file_keys E p s)) (conf_files d s)"

section \<open>Jobs\<close>

definition saveBackupJob :: "'w ext \<Rightarrow> string \<Rightarrow> tiBackupJob \<Rightarrow> 'w sys \<Rightarrow> 'w sys" where
  "saveBackupJob E d job s = save_settings E d (store_file d (job_name job)) (job_encode E job) s"

definition readBackupJobs :: "'w ext \<Rightarrow> string \<Rightarrow> 'w sys \<Rightarrow> tiBackupJob list" where
  "readBackupJobs E d s = read_settings E d job_decode s"

definition getJobs :: "'w ext \<Rightarrow> string \<Rightarrow> 'w sys \<Rightarrow> tiBackupJob list" where
  "getJobs E d s = readBackupJobs E d s"

definition getJobsByUuid :: "'w ext \<Rightarrow> string \<Rightarrow> string \<Rightarrow> 'w sys \<Rightarrow> tiBackupJob list" where
  "getJobsByUuid E d uuid s = filter (\<lambda>job. partition_uuid job = uuid) (readBackupJobs E d s)"

definition getJobByName :: "'w ext \<Rightarrow> string \<Rightarrow> string \<Rightarrow> 'w sys \<Rightarrow> tiBackupJob option" where
  "getJobByName E d jobname s = List.find (\<lambda>job. job_name job = jobname) (readBackupJobs E d s)"

definition removeJobByName :: "string \<Rightarrow> string \<Rightarrow> 'w sys \<Rightarrow> bool \<times> 'w sys" where
  "removeJobByName d jobname s = file_remove (store_file d jobname) s"

definition renameJob :: "string \<Rightarrow> string \<Rightarrow> string \<Rightarrow> 'w sys \<Rightarrow> bool \<times> 'w sys" where
  "renameJob d oldname newname s = file_rename (store_file d oldname) (store_file d newname) s"

section \<open>PBS servers\<close>

definition pb_saveItem :: "'w ext \<Rightarrow> string \<Rightarrow> PBServer \<Rightarrow> 'w sys \<Rightarrow> 'w sys" where
  "pb_saveItem E d item s = save_settings E d (store_file d (pb_uuid item)) (pb_encode E item) s"

definition pb_getItems :: "'w ext \<Rightarrow> string \<Rightarrow> 'w sys \<Rightarrow> PBServer list" where
  "pb_getItems E d s = read_settings E d pb_decode s"

definition pb_getItemByName :: "'w ext \<Rightarrow> string \<Rightarrow> string \<Rightarrow> 'w sys \<Rightarrow> PBServer option" where
  "pb_getItemByName E d name s = List.find (\<lambda>i. pb_name i = name) (pb_getItems E d s)"

definition pb_getItemByUuid :: "'w ext \<Rightarrow> string \<Rightarrow> string \<Rightarrow> 'w sys \<Rightarrow> PBServer option" where
  "pb_getItemByUuid E d uuid s = List.find (\<lambda>i. pb_uuid i = uuid) (pb_getItems E d s)"

definition pb_removeItemByName :: "string \<Rightarrow> string \<Rightarrow> 'w sys \<Rightarrow> bool \<times> 'w sys" where
  "pb_removeItemByName d name s = file_remove (store_file d name) s"

definition pb_removeItemByUuid :: "string \<Rightarrow> string \<Rightarrow> 'w sys \<Rightarrow> bool \<times> 'w sys" where
  "pb_removeItemByUuid d uuid s = file_remove (store_file d uuid) s"

definition pb_renameItem :: "string \<Rightarrow> string \<Rightarrow> string \<Rightarrow> 'w sys \<Rightarrow> bool \<times> 'w sys" where
  "pb_renameItem d oldname newname s = file_rename (store_file d oldname) (store_file d newname) s"

text \<open>The argument \<open>u\<close> is the uuid \<open>QUuid::createUuid\<close> draws.\<close>

definition pb_copyItem ::
  "'w ext \<Rightarrow> string \<Rightarrow> string \<Rightarrow> string \<Rightarrow> string \<Rightarrow> 'w sys \<Rightarrow> bool \<times> 'w sys" where
  "pb_copyItem E d u origname cpname s =
     (case pb_getItemByName E d origname s of
        None \<Rightarrow> (False, s)
      | Some item \<Rightarrow>
          (True, pb_saveItem E d ((pb_genNewUuid u item)\<lparr>pb_name := cpname\<rparr>) s))"

section \<open>SSH servers\<close>

definition srv_saveItem :: "'w ext \<Rightarrow> string \<Rightarrow> SSHServer \<Rightarrow> 'w sys \<Rightarrow> 'w sys" where
  "srv_saveItem E d item s = save_settings E d (store_file d (srv_uuid item)) (srv_encode E item) s"

definition srv_getItems :: "'w ext \<Rightarrow> string \<Rightarrow> 'w sys \<Rightarrow> SSHServer list" where
  "srv_getItems E d s = read_settings E d srv_decode s"

definition srv_getItemByName :: "'w ext \<Rightarrow> string \<Rightarrow> string \<Rightarrow> 'w sys \<Rightarrow> SSHServer option" where
  "srv_getItemByName E d name s = List.find (\<lambda>i. srv_name i = name) (srv_getItems E d s)"

definition srv_getItemByUuid :: "'w ext \<Rightarrow> string \<Rightarrow> string \<Rightarrow> 'w sys \<Rightarrow> SSHServer option" where
  "srv_getItemByUuid E d uuid s = List.find (\<lambda>i. srv_uuid i = uuid) (srv_getItems E d s)"

definition srv_removeItemByName :: "string \<Rightarrow> string \<Rightarrow> 'w sys \<Rightarrow> bool \<times> 'w sys" where
  "srv_removeItemByName d name s = file_remove (store_file d name) s"

definition srv_removeItemByUuid :: "string \<Rightarrow> string \<Rightarrow> 'w sys \<Rightarrow> bool \<times> 'w sys" where
  "srv_removeItemByUuid d uuid s = file_remove (store_file d uuid) s"

definition srv_renameItem :: "string \<Rightarrow> string \<Rightarrow> string \<Rightarrow> 'w sys \<Rightarrow> bool \<times> 'w sys" where
  "srv_renameItem d oldname newname s = file_rename (store_file d oldname) (store_file d newname) s"

definition srv_copyItem ::
  "'w ext \<Rightarrow> string \<Rightarrow> string \<Rightarrow> string \<Rightarrow> string \<Rightarrow> 'w sys \<Rightarrow> bool \<times> 'w sys" where
  "srv_copyItem E d u origname cpname s =
     (case srv_getItemByName E d origname s of
        None \<Rightarrow> (False, s)
      | Some item \<Rightarrow>
          (True, srv_saveItem E d ((srv_genNewUuid u item)\<lparr>srv_name := cpname\<rparr>) s))"

section \<open>File names\<close>

definition key_ok :: "string \<Rightarrow> bool" where
  "key_ok k \<longleftrightarrow> CHR ''/'' \<notin> set k"

lemma store_file_inject [simp]: "store_file d k = store_file d k' \<longleftrightarrow> k = k'"
  by (simp add: store_file_def)

lemma conf_files_iff:
  "p \<in> set (conf_files d s) \<longleftrightarrow> (\<exists>k. key_ok k \<and> p = store_file d k \<and> file_at s p \<noteq> None)"
proof
  assume p: "p \<in> set (conf_files d s)"
  then obtain n where n: "p = d @ ''/'' @ n" "CHR ''/'' \<notin> set n"
    by (auto simp: conf_files_def dir_entries_def prefix_def)
  from p have "suffix ''.conf'' p" by (simp add: conf_files_def)
  then have "suffix ''.conf'' n"
  proof -
    from \<open>suffix ''.conf'' p\<close> obtain q where q: "d @ ''/'' @ n = q @ ''.conf''"
      using n by (auto simp: suffix_def)
    show ?thesis
    proof (cases "5 \<le> length n")
      case True
      have "drop (length q) (d @ ''/'' @ n) = ''.conf''" using q by simp
      moreover have "length q = length d + 1 + (length n - 5)"
        using arg_cong [OF q, of length] True by simp
      ultimately have "drop (length n - 5) n = ''.conf''" by simp
      then show ?thesis by (metis suffix_drop)
    next
      case False
      with q have "CHR ''/'' \<in> set ''.conf''"
      proof -
        have "length q \<le> length d" using arg_cong [OF q, of length] False by simp
        then have "''.conf'' = drop (length q) d @ ''/'' @ n"
          using arg_cong [OF q, of "drop (length q)"] by simp
        then show ?thesis by simp
      qed
      then show ?thesis by simp
    qed
  qed
  then obtain k where "n = k @ ''.conf''" by (auto simp: suffix_def)
  moreover have "file_at s p \<noteq> None"
    using p by (auto simp: conf_files_def dir_entries_def file_at_def map_of_eq_None_iff)
  ultimately show "\<exists>k. key_ok k \<and> p = store_file d k \<and> file_at s p \<noteq> None"
    using n by (auto simp: key_ok_def store_file_def)
next
  assume "\<exists>k. key_ok k \<and> p = store_file d k \<and> file_at s p \<noteq> None"
  then show "p \<in> set (conf_files d s)"
    by (auto simp: conf_files_def dir_entries_def store_file_def key_ok_def file_at_def
        suffix_def map_of_eq_None_iff dest: map_of_SomeD)
qed

section \<open>The shared contract\<close>

text \<open>A store as a map from keys to items, and the invariant that each item lies under its own key.\<close>

definition store_abs ::
  "'w ext \<Rightarrow> (settings \<Rightarrow> 'a) \<Rightarrow> string \<Rightarrow> 'w sys \<Rightarrow> string \<Rightarrow> 'a option" where
  "store_abs E dec d s k = map_option (\<lambda>f. dec (keys_of E f)) (file_at s (store_file d k))"

definition store_consistent ::
  "'w ext \<Rightarrow> (settings \<Rightarrow> 'a) \<Rightarrow> ('a \<Rightarrow> string) \<Rightarrow> string \<Rightarrow> 'w sys \<Rightarrow> bool" where
  "store_consistent E dec key d s \<longleftrightarrow>
     (\<forall>k x. key_ok k \<longrightarrow> store_abs E dec d s k = Some x \<longrightarrow> key x = k)"

lemma read_settings_iff:
  "x \<in> set (read_settings E d dec s) \<longleftrightarrow> (\<exists>k. key_ok k \<and> store_abs E dec d s k = Some x)"
proof -
  have "x \<in> set (read_settings E d dec s) \<longleftrightarrow>
      (\<exists>p \<in> set (conf_files d s). x = dec (file_keys E p s))"
    by (auto simp: read_settings_def)
  also have "\<dots> \<longleftrightarrow> (\<exists>k f. key_ok k \<and> file_at s (store_file d k) = Some f \<and> x = dec (keys_of E f))"
    unfolding Bex_def conf_files_iff by (fastforce simp: file_keys_def)
  also have "\<dots> \<longleftrightarrow> (\<exists>k. key_ok k \<and> store_abs E dec d s k = Some x)"
    unfolding store_abs_def map_option_eq_Some by metis
  finally show ?thesis .
qed

lemma store_abs_remove:
  "\<not> refused s (store_file d k) \<Longrightarrow>
   store_abs E dec d (snd (file_remove (store_file d k) s)) = (store_abs E dec d s)(k := None)"
  by (auto simp: store_abs_def file_at_remove fun_eq_iff)

lemma file_at_save:
  assumes "\<not> refused s p"
  shows "\<exists>m. file_at (save_settings E d p wr s) q =
    (if q = p then Some \<lparr>f_body = Settings (wr m), f_mode = root_file\<rparr> else file_at s q)"
proof -
  let ?s1 = "if d \<notin> dirs s then mkpath d s else s"
  let ?s2 = "if path_exists ?s1 p then snd (file_remove p ?s1) else ?s1"
  have "\<not> refused ?s2 p" using assms by simp
  moreover have "q \<noteq> p \<Longrightarrow> file_at ?s2 q = file_at s q"
    using assms by (simp add: file_at_remove)
  ultimately show ?thesis
    by (intro exI [of _ "file_keys E p ?s2"])
       (simp add: save_settings_def Let_def file_at_set_mode file_at_write)
qed

lemma find_unique:
  assumes "x \<in> set xs" and "P x" and "\<And>y. y \<in> set xs \<Longrightarrow> P y \<Longrightarrow> y = x"
  shows "List.find P xs = Some x"
proof -
  have "List.find P xs \<noteq> None" using assms(1,2) by (auto simp: find_None_iff)
  then show ?thesis using assms(3) by (metis find_Some_iff_first not_None_eq)
qed

locale conf_store =
  fixes enc :: "'w ext \<Rightarrow> 'a \<Rightarrow> settings \<Rightarrow> settings"
    and dec :: "settings \<Rightarrow> 'a"
    and key :: "'a \<Rightarrow> string"
    and ok :: "'w ext \<Rightarrow> 'a \<Rightarrow> bool"
  assumes roundtrip: "order_ok E \<Longrightarrow> ok E x \<Longrightarrow> dec (enc E x m) = x"
begin

lemma abs_save:
  assumes "order_ok E" and "ok E x" and "\<not> refused s (store_file d k)"
  shows "store_abs E dec d (save_settings E d (store_file d k) (enc E x) s)
       = (store_abs E dec d s)(k \<mapsto> x)"
proof (rule ext)
  fix q
  obtain m where "file_at (save_settings E d (store_file d k) (enc E x) s) (store_file d q) =
      (if q = k then Some \<lparr>f_body = Settings (enc E x m), f_mode = root_file\<rparr>
       else file_at s (store_file d q))"
    using file_at_save [OF assms(3), of E d "enc E x" "store_file d q"] by auto
  then show "store_abs E dec d (save_settings E d (store_file d k) (enc E x) s) q
      = ((store_abs E dec d s)(k \<mapsto> x)) q"
    using assms(1,2) by (simp add: store_abs_def keys_of_def roundtrip)
qed

lemma save_consistent:
  assumes "order_ok E" and "ok E x" and "\<not> refused s (store_file d (key x))"
    and "store_consistent E dec key d s"
  shows "store_consistent E dec key d (save_settings E d (store_file d (key x)) (enc E x) s)"
  using assms(4) unfolding store_consistent_def abs_save [OF assms(1-3)] by simp

lemma remove_consistent:
  assumes "\<not> refused s (store_file d k)" and "store_consistent E dec key d s"
  shows "store_consistent E dec key d (snd (file_remove (store_file d k) s))"
  using assms(2) unfolding store_consistent_def store_abs_remove [OF assms(1)] by simp

text \<open>In a consistent store a lookup by key finds exactly the item under that key.\<close>

lemma consistent_items:
  assumes "store_consistent E dec key d s" and "key_ok k"
  shows "x \<in> set (read_settings E d dec s) \<and> key x = k \<longleftrightarrow> store_abs E dec d s k = Some x"
  using assms unfolding read_settings_iff store_consistent_def by metis

lemma find_key:
  assumes "store_consistent E dec key d s" and "key_ok k"
  shows "List.find (\<lambda>x. key x = k) (read_settings E d dec s) = store_abs E dec d s k"
proof (cases "store_abs E dec d s k")
  case None
  with consistent_items [OF assms] have "\<not> (\<exists>x. x \<in> set (read_settings E d dec s) \<and> key x = k)"
    by simp
  with None show ?thesis by (simp add: find_None_iff)
next
  case (Some x)
  then have only: "y \<in> set (read_settings E d dec s) \<and> key y = k \<longleftrightarrow> y = x" for y
    using consistent_items [OF assms] by auto
  have "List.find (\<lambda>x. key x = k) (read_settings E d dec s) = Some x"
    using only by (intro find_unique) blast+
  with Some show ?thesis by simp
qed

lemma find_after_save:
  assumes "order_ok E" and "ok E x" and "\<not> refused s (store_file d (key x))"
    and "store_consistent E dec key d s" and "key_ok k"
  shows "List.find (\<lambda>y. key y = k)
           (read_settings E d dec (save_settings E d (store_file d (key x)) (enc E x) s))
       = (if k = key x then Some x else List.find (\<lambda>y. key y = k) (read_settings E d dec s))"
  using find_key [OF save_consistent [OF assms(1-4)] assms(5)] find_key [OF assms(4,5)]
  by (simp add: abs_save [OF assms(1-3)])

lemma find_after_remove:
  assumes "\<not> refused s (store_file d k)" and "store_consistent E dec key d s" and "key_ok q"
  shows "List.find (\<lambda>y. key y = q) (read_settings E d dec (snd (file_remove (store_file d k) s)))
       = (if q = k then None else List.find (\<lambda>y. key y = q) (read_settings E d dec s))"
  using find_key [OF remove_consistent [OF assms(1,2)] assms(3)] find_key [OF assms(2,3)]
  by (simp add: store_abs_remove [OF assms(1)])

end

interpretation pb_store: conf_store pb_encode pb_decode pb_uuid "\<lambda>_ _. True"
  by unfold_locales (rule pb_roundtrip)

interpretation srv_store: conf_store srv_encode srv_decode srv_uuid "\<lambda>_ _. True"
  by unfold_locales (rule srv_roundtrip)

interpretation job_store: conf_store job_encode job_decode job_name wf_job
  by unfold_locales (rule job_roundtrip)

section \<open>What the stores promise\<close>

lemma getJobByName_name: "getJobByName E d n s = Some j \<Longrightarrow> job_name j = n"
  unfolding getJobByName_def by (drule find_Some_iff_first) simp

lemma getJobByName_mem: "getJobByName E d n s = Some j \<Longrightarrow> j \<in> set (getJobs E d s)"
  unfolding getJobByName_def getJobs_def by (drule find_Some_iff_first) simp

text \<open>
  The job store is a map from names to jobs: after \<open>saveBackupJob\<close> a lookup by the job's
  name gives the very job that was saved (each field, folder, PBS id and SSH target), a lookup
  by another name what it gave before, and the store stays consistent.
\<close>

theorem saved_job_found:
  assumes "order_ok E" and "wf_job E job" and "store_consistent E job_decode job_name d s"
    and "\<not> refused s (store_file d (job_name job))" and "key_ok n"
  shows "getJobByName E d n (saveBackupJob E d job s)
      = (if n = job_name job then Some job else getJobByName E d n s)
    \<and> store_consistent E job_decode job_name d (saveBackupJob E d job s)"
  using job_store.find_after_save [OF assms(1,2,4,3,5)] job_store.save_consistent [OF assms(1,2,4,3)]
  by (simp add: getJobByName_def readBackupJobs_def saveBackupJob_def)

lemma empty_store_consistent [simp]: "files s = [] \<Longrightarrow> store_consistent E dec key d s"
  by (simp add: store_consistent_def store_abs_def file_at_def)

definition full_job :: tiBackupJob where
  "full_job = (plain_job ''home'')\<lparr>backupdirs := {#(''/home'', ''%MNTBACKUPDIR%/home''), (''/etc'', ''%MNTBACKUPDIR%/etc'')#},
     intervalType := INTERVAL_WEEKLY, intervalTime := ''03:30'', intervalDay := 2, ssh := True,
     ssh_targets := [\<lparr>t_server_uuid = ''s1'', t_backupdirs = {#(''/srv'', ''%MNTBACKUPDIR%/srv'')#}\<rparr>]\<rparr>"

lemma full_job_wf: "wf_job calm_ext full_job"
proof -
  have "length (ssh_entries calm_ext (ssh_targets full_job)) = 1"
    by (simp add: ssh_entries_def full_job_def)
  then show ?thesis
    by (simp add: wf_job_def wf_interval_def wf_luks_def full_job_def plain_job_def)
qed

theorem saved_job_found_witness:
  "getJobByName calm_ext ''/c'' ''home'' (saveBackupJob calm_ext ''/c'' full_job calm_sys) = Some full_job"
proof -
  have "store_consistent calm_ext job_decode job_name ''/c'' calm_sys"
    "\<not> refused calm_sys (store_file ''/c'' (job_name full_job))" "key_ok ''home''" "job_name full_job = ''home''"
    by (simp_all add: calm_sys_def key_ok_def full_job_def plain_job_def)
  with saved_job_found [OF order_ok_calm(2) full_job_wf] show ?thesis by metis
qed

text \<open>
  \<open>removeJobByName\<close> deletes exactly the named job: it reports whether there was one, and
  afterwards only the lookup of that name changes, to nothing.
\<close>

theorem removed_job_gone:
  assumes "store_consistent E job_decode job_name d s" and "key_ok k"
    and "\<not> refused s (store_file d k)" and "key_ok n"
  shows "fst (removeJobByName d k s) = (getJobByName E d k s \<noteq> None)
    \<and> getJobByName E d n (snd (removeJobByName d k s)) = (if n = k then None else getJobByName E d n s)"
proof -
  have "getJobByName E d k s = store_abs E job_decode d s k"
    unfolding getJobByName_def readBackupJobs_def by (rule job_store.find_key [OF assms(1,2)])
  then have "fst (removeJobByName d k s) = (getJobByName E d k s \<noteq> None)"
    using assms(3) by (simp add: removeJobByName_def file_remove_def store_abs_def)
  moreover have "getJobByName E d n (snd (removeJobByName d k s)) = (if n = k then None else getJobByName E d n s)"
    unfolding getJobByName_def readBackupJobs_def removeJobByName_def
    by (rule job_store.find_after_remove [OF assms(3,1,4)])
  ultimately show ?thesis by simp
qed

definition one_job_sys :: "unit sys" where
  "one_job_sys = saveBackupJob calm_ext ''/c'' full_job calm_sys"

lemma one_job_sys:
  "store_consistent calm_ext job_decode job_name ''/c'' one_job_sys"
  "\<not> refused one_job_sys p"
  "getJobByName calm_ext ''/c'' ''home'' one_job_sys = Some full_job"
proof -
  have *: "store_consistent calm_ext job_decode job_name ''/c'' calm_sys"
    "\<not> refused calm_sys (store_file ''/c'' (job_name full_job))"
    by (simp_all add: calm_sys_def)
  have sv: "one_job_sys = save_settings calm_ext ''/c'' (store_file ''/c'' (job_name full_job)) (job_encode calm_ext full_job) calm_sys"
    by (simp add: one_job_sys_def saveBackupJob_def)
  show c: "store_consistent calm_ext job_decode job_name ''/c'' one_job_sys"
    unfolding sv by (rule job_store.save_consistent [OF order_ok_calm(2) full_job_wf *(2,1)])
  show "\<not> refused one_job_sys p"
    by (simp add: sv save_settings_def Let_def) (simp add: calm_sys_def)
  have "job_name full_job = ''home''" by (simp add: full_job_def plain_job_def)
  then show "getJobByName calm_ext ''/c'' ''home'' one_job_sys = Some full_job"
    using job_store.find_after_save [OF order_ok_calm(2) full_job_wf *(2,1), of "''home''"]
    by (simp add: getJobByName_def readBackupJobs_def sv key_ok_def)
qed

theorem removed_job_gone_witness:
  "fst (removeJobByName ''/c'' ''home'' one_job_sys)
   \<and> getJobByName calm_ext ''/c'' ''home'' (snd (removeJobByName ''/c'' ''home'' one_job_sys)) = None"
  using removed_job_gone [OF one_job_sys(1) _ one_job_sys(2), of "''home''" "''home''"] one_job_sys(3)
  by (simp add: key_ok_def)

text \<open>Renaming moves the file and nothing else.\<close>

lemma map_of_rename_key:
  "new \<notin> fst ` set es \<Longrightarrow> old \<noteq> new \<Longrightarrow>
   map_of (map (\<lambda>e. if fst e = old then (new, snd e) else e) es) q
   = (if q = new then map_of es old else if q = old then None else map_of es q)"
  by (induction es) (auto simp: map_of_eq_None_iff)

lemma file_at_rename:
  assumes "fst (file_rename old new s)" and "old \<noteq> new"
  shows "file_at (snd (file_rename old new s)) q
    = (if q = new then file_at s old else if q = old then None else file_at s q)"
proof -
  from assms(1) have "new \<notin> fst ` set (files s)"
    by (auto simp: file_rename_def path_exists_def file_at_def map_of_eq_None_iff
        split: option.splits if_splits)
  then have "map_of (map (\<lambda>e. if fst e = old then (new, snd e) else e) (files s)) q
     = (if q = new then map_of (files s) old else if q = old then None else map_of (files s) q)"
    using assms(2) by (rule map_of_rename_key)
  with assms(1) show ?thesis
    by (auto simp: file_rename_def file_at_def split: option.splits if_splits)
qed

lemma store_abs_rename:
  assumes "fst (file_rename (store_file d old) (store_file d new) s)" and "old \<noteq> new"
  shows "store_abs E dec d (snd (file_rename (store_file d old) (store_file d new) s)) k
    = (if k = new then store_abs E dec d s old else if k = old then None else store_abs E dec d s k)"
  using assms by (simp add: store_abs_def file_at_rename)

text \<open>
  \<open>renameJob\<close> moves the file but leaves the name stored in it: after a successful rename no
  job is found under the new name, and the job is still found under the old one.
\<close>

theorem renamed_job_keeps_old_name:
  assumes "store_consistent E job_decode job_name d s" and "key_ok old" and "key_ok new"
    and "old \<noteq> new" and "getJobByName E d old s = Some j" and "fst (renameJob d old new s)"
  shows "getJobByName E d new (snd (renameJob d old new s)) = None
    \<and> getJobByName E d old (snd (renameJob d old new s)) = Some j"
proof -
  let ?s = "snd (renameJob d old new s)"
  have abs: "store_abs E job_decode d ?s k = (if k = new then Some j else if k = old then None
      else store_abs E job_decode d s k)" for k
    using store_abs_rename [of d old new s E job_decode k] assms(4,5,6)
      job_store.find_key [OF assms(1,2)]
    by (simp add: renameJob_def getJobByName_def readBackupJobs_def)
  have items: "x \<in> set (readBackupJobs E d ?s) \<longleftrightarrow>
      x = j \<or> (\<exists>k. key_ok k \<and> k \<noteq> new \<and> k \<noteq> old \<and> store_abs E job_decode d s k = Some x)" for x
    unfolding readBackupJobs_def read_settings_iff abs using assms(3) by auto
  have name: "job_name x = k" if "key_ok k" "store_abs E job_decode d s k = Some x" for k x
    using assms(1) that by (simp add: store_consistent_def)
  have j: "job_name j = old" using assms(5) by (rule getJobByName_name)
  have "getJobByName E d new ?s = None"
    using items j name assms(4) unfolding getJobByName_def find_None_iff by metis
  moreover have "getJobByName E d old ?s = Some j"
    unfolding getJobByName_def using items j name by (intro find_unique) metis+
  ultimately show ?thesis by simp
qed

lemma parents_shorter: "q \<in> parents p \<Longrightarrow> length q < length p"
  by (auto simp: parents_def)

lemma dirs_ops [simp]:
  "dirs (set_mode q m s) = dirs s" "dirs (file_write q b s) = dirs s"
  "dirs (snd (file_remove q s)) = dirs s"
  by (cases "file_at s q"; simp add: set_mode_def file_write_def file_remove_def)+

lemma dirs_save:
  "dirs (save_settings E d p wr s)
   = (if d \<notin> dirs s \<and> \<not> refused s d then insert d (parents d \<union> dirs s) else dirs s)"
  by (simp add: save_settings_def Let_def mkpath_def)

lemma one_job_rename: "fst (renameJob ''/c'' ''home'' ''flat'' one_job_sys)"
proof -
  have name: "job_name full_job = ''home''" by (simp add: full_job_def plain_job_def)
  obtain f where "file_at one_job_sys (store_file ''/c'' ''home'') = Some f"
    "file_at one_job_sys (store_file ''/c'' ''flat'') = None"
    using file_at_save [of calm_sys "store_file ''/c'' ''home''" calm_ext "''/c''"
        "job_encode calm_ext full_job" "store_file ''/c'' ''home''"]
      file_at_save [of calm_sys "store_file ''/c'' ''home''" calm_ext "''/c''"
        "job_encode calm_ext full_job" "store_file ''/c'' ''flat''"]
    by (auto simp: one_job_sys_def saveBackupJob_def name calm_sys_def file_at_def)
  moreover have "dirs one_job_sys \<subseteq> insert ''/c'' (parents ''/c'')"
    by (simp add: one_job_sys_def saveBackupJob_def dirs_save) (auto simp: calm_sys_def)
  then have "store_file ''/c'' ''flat'' \<notin> dirs one_job_sys"
    by (auto simp: store_file_def dest!: parents_shorter)
  ultimately show ?thesis
    by (simp add: renameJob_def file_rename_def path_exists_def one_job_sys(2))
qed

theorem renamed_job_keeps_old_name_witness:
  "getJobByName calm_ext ''/c'' ''flat'' (snd (renameJob ''/c'' ''home'' ''flat'' one_job_sys)) = None
   \<and> getJobByName calm_ext ''/c'' ''home'' (snd (renameJob ''/c'' ''home'' ''flat'' one_job_sys)) = Some full_job"
  by (rule renamed_job_keeps_old_name [OF one_job_sys(1) _ _ _ one_job_sys(3) one_job_rename])
     (simp_all add: key_ok_def)

text \<open>
  The server stores are maps from uuids to servers: a saved PBS or SSH server is found
  under its uuid with every field as it was saved, all other lookups are unchanged, and so is
  the consistency of the store.
\<close>

theorem saved_server_found:
  assumes "order_ok E" and "key_ok u"
    and "store_consistent E pb_decode pb_uuid d s" and "\<not> refused s (store_file d (pb_uuid p))"
    and "store_consistent E srv_decode srv_uuid d' s" and "\<not> refused s (store_file d' (srv_uuid q))"
  shows "pb_getItemByUuid E d u (pb_saveItem E d p s)
      = (if u = pb_uuid p then Some p else pb_getItemByUuid E d u s)
    \<and> store_consistent E pb_decode pb_uuid d (pb_saveItem E d p s)
    \<and> srv_getItemByUuid E d' u (srv_saveItem E d' q s)
      = (if u = srv_uuid q then Some q else srv_getItemByUuid E d' u s)
    \<and> store_consistent E srv_decode srv_uuid d' (srv_saveItem E d' q s)"
  using pb_store.find_after_save [OF assms(1) TrueI assms(4,3,2)]
    pb_store.save_consistent [OF assms(1) TrueI assms(4,3)]
    srv_store.find_after_save [OF assms(1) TrueI assms(6,5,2)]
    srv_store.save_consistent [OF assms(1) TrueI assms(6,5)]
  by (simp add: pb_getItemByUuid_def pb_getItems_def pb_saveItem_def
      srv_getItemByUuid_def srv_getItems_def srv_saveItem_def)

definition pb_example :: PBServer where
  "pb_example = (new_PBServer ''{p1}'')\<lparr>pb_name := ''main'', pb_host := ''pbs.lan'', pb_port := 8007\<rparr>"

theorem saved_server_found_witness:
  "pb_getItemByUuid calm_ext ''/p'' ''p1'' (pb_saveItem calm_ext ''/p'' pb_example calm_sys) = Some pb_example
   \<and> srv_getItemByUuid calm_ext ''/s'' ''p1'' (srv_saveItem calm_ext ''/s'' (new_SSHServer ''{p1}'') calm_sys)
     = Some (new_SSHServer ''{p1}'')"
proof -
  have "key_ok ''p1''" "files calm_sys = []" "\<not> refused calm_sys f" for f
    by (simp_all add: key_ok_def calm_sys_def)
  moreover have "pb_uuid pb_example = ''p1''" "srv_uuid (new_SSHServer ''{p1}'') = ''p1''"
    by (simp_all add: pb_example_def new_PBServer_def new_SSHServer_def strip_braces_def)
  ultimately show ?thesis
    using saved_server_found [of calm_ext "''p1''" "''/p''" calm_sys pb_example "''/s''" "new_SSHServer ''{p1}''"]
    by simp
qed

text \<open>
  The methods of the server stores that take a name use it as if it were the uuid the files
  are called after: for a server found by a name that is no server's uuid, \<open>removeItemByName\<close> and
  \<open>renameItem\<close> report failure and change nothing. (Stated for the PBS store; \<open>tiConfSSHServers\<close> has
  the same code.)
\<close>

theorem server_name_is_no_key:
  assumes "store_consistent E pb_decode pb_uuid d s" and "key_ok n"
    and "pb_getItemByName E d n s = Some i" and "pb_getItemByUuid E d n s = None"
  shows "pb_removeItemByName d n s = (False, s) \<and> pb_renameItem d n n' s = (False, s)"
proof -
  have "store_abs E pb_decode d s n = None"
    using assms(4) pb_store.find_key [OF assms(1,2)]
    by (simp add: pb_getItemByUuid_def pb_getItems_def)
  then show ?thesis
    by (simp add: store_abs_def pb_removeItemByName_def pb_renameItem_def file_remove_def file_rename_def)
qed

definition one_pb_sys :: "unit sys" where
  "one_pb_sys = pb_saveItem calm_ext ''/p'' pb_example calm_sys"

lemma pb_example_fields: "pb_uuid pb_example = ''p1''" "pb_name pb_example = ''main''"
  by (simp_all add: pb_example_def new_PBServer_def strip_braces_def)

lemma one_pb_sys:
  "store_consistent calm_ext pb_decode pb_uuid ''/p'' one_pb_sys"
  "pb_getItemByName calm_ext ''/p'' ''main'' one_pb_sys = Some pb_example"
  "pb_getItemByUuid calm_ext ''/p'' ''main'' one_pb_sys = None"
  "\<not> refused one_pb_sys f"
proof -
  have nr: "\<not> refused calm_sys g" for g by (simp add: calm_sys_def)
  have c0: "store_consistent calm_ext pb_decode pb_uuid ''/p'' calm_sys" by (simp add: calm_sys_def)
  have sv: "one_pb_sys = save_settings calm_ext ''/p'' (store_file ''/p'' (pb_uuid pb_example))
      (pb_encode calm_ext pb_example) calm_sys"
    by (simp add: one_pb_sys_def pb_saveItem_def)
  show c: "store_consistent calm_ext pb_decode pb_uuid ''/p'' one_pb_sys"
    unfolding sv by (rule pb_store.save_consistent [OF order_ok_calm(2) TrueI nr c0])
  have abs: "store_abs calm_ext pb_decode ''/p'' one_pb_sys = [''p1'' \<mapsto> pb_example]"
    unfolding sv pb_store.abs_save [OF order_ok_calm(2) TrueI nr]
    by (simp add: pb_example_fields store_abs_def file_at_def calm_sys_def fun_eq_iff)
  have items: "x \<in> set (pb_getItems calm_ext ''/p'' one_pb_sys) \<longleftrightarrow> x = pb_example" for x
    unfolding pb_getItems_def read_settings_iff abs by (auto simp: key_ok_def)
  show "pb_getItemByName calm_ext ''/p'' ''main'' one_pb_sys = Some pb_example"
    unfolding pb_getItemByName_def using items pb_example_fields by (intro find_unique) auto
  show "pb_getItemByUuid calm_ext ''/p'' ''main'' one_pb_sys = None"
    unfolding pb_getItemByUuid_def find_None_iff using items pb_example_fields by auto
  show "\<not> refused one_pb_sys f"
    by (simp add: sv save_settings_def Let_def) (simp add: calm_sys_def)
qed

theorem server_name_is_no_key_witness:
  "pb_getItemByName calm_ext ''/p'' ''main'' one_pb_sys = Some pb_example
   \<and> fst (pb_removeItemByName ''/p'' ''main'' one_pb_sys) = False"
  using server_name_is_no_key [OF one_pb_sys(1) _ one_pb_sys(2,3)] one_pb_sys(2)
  by (simp add: key_ok_def)

text \<open>
  \<open>copyItem\<close> of a PBS server: when a server of the given name exists and the drawn uuid is
  new, the store afterwards holds the copy under that uuid, equal to the original but for uuid
  and name, and everything it held before; when there is none, nothing changes.
\<close>

theorem copied_server:
  assumes "order_ok E" and "store_consistent E pb_decode pb_uuid d s"
    and "\<not> refused s (store_file d (strip_braces u))" and "key_ok k"
  shows "fst (pb_copyItem E d u orig cp s) = (pb_getItemByName E d orig s \<noteq> None)
   \<and> pb_getItemByUuid E d k (snd (pb_copyItem E d u orig cp s)) =
      (if k = strip_braces u \<and> pb_getItemByName E d orig s \<noteq> None
       then map_option (\<lambda>i. i\<lparr>pb_uuid := k, pb_name := cp\<rparr>) (pb_getItemByName E d orig s)
       else pb_getItemByUuid E d k s)"
proof (cases "pb_getItemByName E d orig s")
  case None
  then show ?thesis by (simp add: pb_copyItem_def)
next
  case (Some i)
  let ?i = "i\<lparr>pb_uuid := strip_braces u, pb_name := cp\<rparr>"
  have "pb_copyItem E d u orig cp s = (True, pb_saveItem E d ?i s)"
    using Some by (simp add: pb_copyItem_def pb_genNewUuid_def)
  moreover have "\<not> refused s (store_file d (pb_uuid ?i))" using assms(3) by simp
  note pb_store.find_after_save [OF assms(1) TrueI this assms(2,4)]
  ultimately show ?thesis
    using Some by (simp add: pb_getItemByUuid_def pb_getItems_def pb_saveItem_def)
qed

theorem copied_server_witness:
  "pb_getItemByUuid calm_ext ''/p'' ''p2'' (snd (pb_copyItem calm_ext ''/p'' ''{p2}'' ''main'' ''copy'' one_pb_sys))
   = Some (pb_example\<lparr>pb_uuid := ''p2'', pb_name := ''copy''\<rparr>)"
proof -
  have u: "strip_braces ''{p2}'' = ''p2''" by (simp add: strip_braces_def)
  from copied_server [OF order_ok_calm(2) one_pb_sys(1,4), of "''p2''" "''{p2}''" "''main''" "''copy''"] one_pb_sys(2)
  show ?thesis by (simp add: key_ok_def u del: snd_conv)
qed

text \<open>
  C35. Whatever the stores save, jobs with the path of a LUKS key and servers with their
  passwords, ends in a file that is readable and writable for its owner only, and the saving
  changes no other file.
\<close>

theorem saved_files_private:
  assumes "\<not> refused s (store_file d k)" and "\<not> path_exists s (store_file d k) \<or> file_at s (store_file d k) \<noteq> None"
    and "s' \<in> {saveBackupJob E d (job\<lparr>job_name := k\<rparr>) s, pb_saveItem E d (p\<lparr>pb_uuid := k\<rparr>) s,
               srv_saveItem E d (q\<lparr>srv_uuid := k\<rparr>) s}"
  shows "map_option f_mode (file_at s' (store_file d k)) = Some {ReadOwner, WriteOwner}
    \<and> (\<forall>f. f \<noteq> store_file d k \<longrightarrow> file_at s' f = file_at s f)"
proof -
  obtain wr where s': "s' = save_settings E d (store_file d k) wr s"
    using assms(3) by (auto simp: saveBackupJob_def pb_saveItem_def srv_saveItem_def)
  have "\<exists>m. file_at s' f = (if f = store_file d k then Some \<lparr>f_body = Settings (wr m), f_mode = root_file\<rparr>
      else file_at s f)" for f
    unfolding s' by (rule file_at_save [OF assms(1)])
  then show ?thesis
    by (metis (no_types, lifting) option.simps(9) qfile.select_convs(2) root_file_def)
qed

theorem saved_files_private_witness:
  "map_option f_mode (file_at one_pb_sys (store_file ''/p'' ''p1'')) = Some {ReadOwner, WriteOwner}"
proof -
  have "pb_example\<lparr>pb_uuid := ''p1''\<rparr> = pb_example"
    using pb_example_fields(1) by (cases pb_example) simp
  then have "one_pb_sys \<in> {saveBackupJob calm_ext ''/p'' (full_job\<lparr>job_name := ''p1''\<rparr>) calm_sys,
      pb_saveItem calm_ext ''/p'' (pb_example\<lparr>pb_uuid := ''p1''\<rparr>) calm_sys,
      srv_saveItem calm_ext ''/p'' (new_SSHServer []\<lparr>srv_uuid := ''p1''\<rparr>) calm_sys}"
    by (simp add: one_pb_sys_def)
  from saved_files_private [OF _ _ this] show ?thesis
    by (simp add: calm_sys_def path_exists_def file_at_def)
qed

text \<open>
  A job file written before \<open>umount_after_backup\<close> existed keeps the old behaviour: without
  the key the job unmounts its target.
\<close>

theorem legacy_job_unmounts:
  "umount_after_backup (job_decode m)
   = (case m [''backup'', ''umount_after_backup''] of None \<Rightarrow> True | Some t \<Rightarrow> to_bool (Some t))"
  by (simp add: job_decode_def job_read_def qs_open_def run_simps split: option.splits)

section \<open>Beside the main configuration\<close>

lemma refused_save [simp]: "refused (save_settings E d p wr s) = refused s"
  by (simp add: save_settings_def Let_def)

text \<open>A store whose files are not the main configuration file itself.\<close>

definition apart :: "conf_env \<Rightarrow> string \<Rightarrow> bool" where
  "apart V d \<longleftrightarrow> (\<forall>k. mainConfigFile V \<noteq> store_file d k)"

lemma store_abs_content:
  "store_abs E dec d s k = map_option (\<lambda>b. dec (case b of Settings m \<Rightarrow> m | Plain t \<Rightarrow> x_ini_parse E t))
     (content_at s (store_file d k))"
  by (cases "file_at s (store_file d k)") (simp_all add: store_abs_def content_at_def keys_of_def)

lemma store_abs_new_tiConfMain:
  assumes "apart V d"
  shows "store_abs E dec d (snd (new_tiConfMain E V s)) = store_abs E dec d s"
proof
  fix k
  have "store_file d k \<noteq> mainConfigFile V" using assms by (metis apart_def)
  then show "store_abs E dec d (snd (new_tiConfMain E V s)) k = store_abs E dec d s k"
    by (simp add: store_abs_content content_new_tiConfMain)
qed

lemma getJobByName_new_tiConfMain:
  assumes "apart V d" and "store_consistent E job_decode job_name d s" and "key_ok n"
  shows "getJobByName E d n (snd (new_tiConfMain E V s)) = getJobByName E d n s"
proof -
  have "store_consistent E job_decode job_name d (snd (new_tiConfMain E V s))"
    using assms(2) unfolding store_consistent_def store_abs_new_tiConfMain [OF assms(1)] .
  from job_store.find_key [OF this assms(3)] job_store.find_key [OF assms(2,3)] show ?thesis
    unfolding getJobByName_def readBackupJobs_def store_abs_new_tiConfMain [OF assms(1)] by simp
qed

end
