(* ===== verification/Rsync.thy ===== *)
theory Rsync
  imports Scripts SshClient ConfStores
begin

text \<open>
  The copying itself, from \<open>tiBackupJob::startBackup\<close>: one \<open>rsync\<close> per entry of \<open>backupdirs\<close>, and
  one per entry of each SSH target, with the option lists the code builds. A hash is walked in
  the unspecified order \<open>x_order\<close>.
\<close>

section \<open>One leg\<close>

definition fat_fs :: "string \<Rightarrow> bool" where
  "fat_fs fs \<longleftrightarrow> toLower fs \<in> {''vfat'', ''msdos'', ''fat'', ''exfat''}"

definition fat_options :: "string list" where
  "fat_options = [''--no-perms'', ''--no-owner'', ''--no-group'', ''--modify-window=1'']"

text \<open>\<open>backupArg\<close>, built before the mount.\<close>

definition feature_flags :: "tiBackupJob \<Rightarrow> (('w, 'z) st_scheme, string list) state" where
  "feature_flags job = do {
     whenM (delete_add_file_on_dest job) (say ''Feature: Additional files will be deleted'');
     whenM (compare_via_checksum job) (say ''Feature: Checksum comparison enabled'');
     State_Monad.return ((if delete_add_file_on_dest job then [''--delete''] else [])
       @ (if compare_via_checksum job then [''--checksum''] else [])) }"

definition first_args :: "'w ext \<Rightarrow> string \<Rightarrow> (('w, 'z) st_scheme, string list) state" where
  "first_args E dest = do {
     fsType \<leftarrow> asks (x_fstype E dest);
     if fat_fs fsType
     then do {
       say (''Destination filesystem '' @ quot (toLower fsType) @ '' has no POSIX attributes; using FAT/exFAT-safe rsync options'');
       State_Monad.return (''-a'' # fat_options) }
     else State_Monad.return [''-a''] }"

text \<open>The log file of a leg is numbered by the legs so far.\<close>

definition leg_log_file ::
  "'w ext \<Rightarrow> tiConfMain \<Rightarrow> tiBackupJob \<Rightarrow> (('w, 'z) bst_scheme, string list \<times> string) state" where
  "leg_log_file E C job =
     (if save_log job
      then do {
        say ''Feature: Rsync Log will be archived'';
        date \<leftarrow> change (x_now E ''yyyyMMdd-hhmmss'');
        let logpathdir = to_text (getValue C ''paths/logs'') @ ''/'' @ job_name job;
        ex \<leftarrow> asks (\<lambda>s. logpathdir \<in> dirs s);
        whenM (\<not> ex) (make_path logpathdir);
        s \<leftarrow> State_Monad.get;
        let logpath = logpathdir @ ''/'' @ date @ ''_'' @ show_nat (length (bak_logs s)) @ ''.log'';
        State_Monad.return ([''--log-file='' @ logpath], logpath) }
      else State_Monad.return ([], []))"

definition rsync_outcome :: "string \<Rightarrow> presult \<Rightarrow> (('w, 'z) st_scheme, unit) state" where
  "rsync_outcome what r =
     (if p_code r \<noteq> 0
      then do {
        say (what @ '' Backup failed (rsync exit code '' @ show_int (p_code r) @ ''):'');
        (if trimmed (p_out r) \<noteq> [] then say (trimmed (p_out r)) else say ''(rsync produced no output)'') }
      else do {
        say (what @ '' Backup successful.'');
        whenM (trimmed (p_out r) \<noteq> []) (say (trimmed (p_out r))) })"

definition announce_leg :: "string \<Rightarrow> string \<Rightarrow> string \<Rightarrow> (('w, 'z) st_scheme, unit) state" where
  "announce_leg what src dest = do {
     say (what @ '' Backup: Backup '' @ src @ '' to '' @ dest);
     ex \<leftarrow> asks (\<lambda>s. dest \<in> dirs s);
     whenM (\<not> ex) (make_path dest) }"

definition run_leg ::
  "'w ext \<Rightarrow> string \<Rightarrow> string list \<Rightarrow> string \<Rightarrow> string \<Rightarrow> string \<Rightarrow> (('w, 'z) bst_scheme, unit) state" where
  "run_leg E what args logpath src dest = do {
     announce_leg what src dest;
     r \<leftarrow> run_cmd E (Argv ''rsync'' (args @ [src, dest]));
     rsync_outcome what r;
     bak_log \<lparr>log_rsync_path = logpath, log_source = src, log_destination = dest, log_ret_code = p_code r\<rparr> }"

section \<open>Local folders\<close>

definition local_leg ::
  "'w ext \<Rightarrow> tiConfMain \<Rightarrow> tiBackupJob \<Rightarrow> string list \<Rightarrow> string \<Rightarrow> string \<times> string \<Rightarrow> (('w, 'z) bst_scheme, unit) state" where
  "local_leg E C job backupArg mountDir e = do {
     let src = fst e;
     let dest = convertGeneric2Path (snd e) mountDir;
     a \<leftarrow> first_args E dest;
     l \<leftarrow> leg_log_file E C job;
     run_leg E ''RSYNC'' (a @ backupArg @ fst l) (snd l) src dest }"

definition local_backup ::
  "'w ext \<Rightarrow> tiConfMain \<Rightarrow> tiBackupJob \<Rightarrow> string list \<Rightarrow> string \<Rightarrow> (('w, 'z) bst_scheme, unit) state" where
  "local_backup E C job backupArg mountDir =
     for_each (x_order E (backupdirs job)) (local_leg E C job backupArg mountDir)"

section \<open>SSH sources\<close>

definition ssh_leg ::
  "'w ext \<Rightarrow> tiConfMain \<Rightarrow> tiBackupJob \<Rightarrow> string list \<Rightarrow> string \<Rightarrow> SSHServer \<Rightarrow> string \<Rightarrow> string \<times> string \<Rightarrow>
   (('w, 'z) bst_scheme, unit) state" where
  "ssh_leg E C job backupArg mountDir srv rsh e = do {
     let remoteSrc = srv_username srv @ ''@'' @ srv_host srv @ '':'' @ fst e;
     let dest = convertGeneric2Path (snd e) mountDir;
     a \<leftarrow> first_args E dest;
     l \<leftarrow> leg_log_file E C job;
     run_leg E ''SSH RSYNC'' (a @ backupArg @ [''--protect-args'', ''-e'', rsh] @ fst l) (snd l) remoteSrc dest }"

definition ssh_target_backup ::
  "'w ext \<Rightarrow> tiConfMain \<Rightarrow> tiBackupJob \<Rightarrow> string list \<Rightarrow> string \<Rightarrow> tiBackupJobSSHTarget \<Rightarrow>
   (('w, 'z) bst_scheme, unit) state" where
  "ssh_target_backup E C job backupArg mountDir target = do {
     srvOpt \<leftarrow> asks (srv_getItemByUuid E (to_text (getValue C ''paths/sshservers'')) (t_server_uuid target));
     case srvOpt of
       None \<Rightarrow> warn (''SSH server '' @ t_server_uuid target @ '' not found in config'')
     | Some srv \<Rightarrow>
         if srv_hostkey srv = []
         then warn (''SSH server '' @ srv_name srv @ '' ('' @ srv_host srv @ '') has no pinned host key; run ''
                    @ quot ''Test connection'' @ '' first'')
         else do {
           kh \<leftarrow> asks (x_temp E kh_template);
           case kh of
             None \<Rightarrow> warn ''Could not stage temporary known_hosts for SSH backup.''
           | Some f \<Rightarrow> do {
               write_text f (srv_hostkey srv);
               let rsh = rshCommand srv f;
               for_each (x_order E (t_backupdirs target)) (ssh_leg E C job backupArg mountDir srv rsh);
               delete_file f } } }"

definition ssh_backup ::
  "'w ext \<Rightarrow> tiConfMain \<Rightarrow> tiBackupJob \<Rightarrow> string list \<Rightarrow> string \<Rightarrow> (('w, 'z) bst_scheme, unit) state" where
  "ssh_backup E C job backupArg mountDir =
     whenM (ssh job) (for_each (ssh_targets job) (ssh_target_backup E C job backupArg mountDir))"

section \<open>What is run\<close>

text \<open>An operation that starts nothing and changes the system and the trace only.\<close>

definition quiet :: "(('w, 'z) st_scheme, 'a) state \<Rightarrow> bool" where
  "quiet m \<longleftrightarrow> (\<forall>s. \<exists>w es. snd (run_state m s) = s\<lparr>os := w, trace := trace s @ es\<rparr> \<and> execs es = [])"

lemma quiet_return [keeps_intros]: "quiet (State_Monad.return x)"
  unfolding quiet_def by (intro allI, rule_tac x = "os s" in exI, rule_tac x = "[]" in exI) simp

lemma quiet_bind [keeps_intros]:
  assumes "quiet m" and "\<And>x. quiet (f x)"
  shows "quiet (do { x \<leftarrow> m; f x })"
  unfolding quiet_def
proof
  fix s
  obtain x s1 where m: "run_state m s = (x, s1)" by fastforce
  with assms(1) obtain w es where 1: "s1 = s\<lparr>os := w, trace := trace s @ es\<rparr>" "execs es = []"
    unfolding quiet_def by (metis snd_conv)
  obtain w' es' where 2: "snd (run_state (f x) s1) = s1\<lparr>os := w', trace := trace s1 @ es'\<rparr>" "execs es' = []"
    using assms(2) unfolding quiet_def by metis
  show "\<exists>w es. snd (run_state (m \<bind> f) s) = s\<lparr>os := w, trace := trace s @ es\<rparr> \<and> execs es = []"
    using m 1 2 by (intro exI [of _ w'] exI [of _ "es @ es'"]) simp
qed

lemma quiet_if [keeps_intros]: "quiet m \<Longrightarrow> quiet n \<Longrightarrow> quiet (if b then m else n)"
  by simp

lemma quiet_whenM [keeps_intros]: "quiet m \<Longrightarrow> quiet (whenM b m)"
  by (simp add: whenM_def quiet_return)

lemma quiet_Let [keeps_intros]: "quiet (f x) \<Longrightarrow> quiet (Let x f)"
  by simp

lemma quiet_emit: "execs [e] = [] \<Longrightarrow> quiet (emit e)"
  unfolding quiet_def by (intro allI, rule_tac x = "os s" in exI, rule_tac x = "[e]" in exI) (simp add: run_simps)

lemma quiet_change [keeps_intros]: "quiet (change f)"
  unfolding quiet_def
  by (intro allI, rule_tac x = "snd (f (os s))" in exI, rule_tac x = "[]" in exI) (simp add: run_simps)

lemma quiet_asks [keeps_intros]: "quiet (asks f)"
  unfolding quiet_def by (intro allI, rule_tac x = "os s" in exI, rule_tac x = "[]" in exI) (simp add: run_simps)

lemma quiet_get [keeps_intros]: "quiet State_Monad.get"
  unfolding quiet_def by (intro allI, rule_tac x = "os s" in exI, rule_tac x = "[]" in exI) simp

lemma quiet_ops [keeps_intros]: "quiet (say m)" "quiet (make_path p)"
  unfolding say_def make_path_def by (intro keeps_intros quiet_emit, simp)+

lemma quietE:
  assumes "quiet m"
  obtains x w es where "run_state m s = (x, s\<lparr>os := w, trace := trace s @ es\<rparr>)" and "execs es = []"
  using assms unfolding quiet_def by (metis prod.collapse)

lemma quiet_unit:
  "quiet (m :: (('w, 'z) st_scheme, unit) state) \<Longrightarrow>
   \<exists>w es. run_state m s = ((), s\<lparr>os := w, trace := trace s @ es\<rparr>) \<and> execs es = []"
  unfolding quiet_def by (metis old.unit.exhaust prod.collapse)

text \<open>The options of a leg: archive mode, the FAT options or none, what the job adds, a log file or none.\<close>

definition leg_args :: "string list \<Rightarrow> string list \<Rightarrow> bool" where
  "leg_args extra args \<longleftrightarrow>
     (\<exists>fat lg. args = ''-a'' # fat @ extra @ lg \<and> fat \<in> {[], fat_options}
        \<and> (lg = [] \<or> (\<exists>p. lg = [''--log-file='' @ p])))"

lemma first_args_run:
  "\<exists>fat w es. run_state (first_args E dest) s = (''-a'' # fat, s\<lparr>os := w, trace := trace s @ es\<rparr>)
     \<and> execs es = [] \<and> fat \<in> {[], fat_options}"
proof -
  have "quiet (first_args E dest)" unfolding first_args_def by (intro keeps_intros)
  then obtain x w es where r: "run_state (first_args E dest) s = (x, s\<lparr>os := w, trace := trace s @ es\<rparr>)" "execs es = []"
    by (rule quietE)
  moreover have "x = [''-a''] \<or> x = ''-a'' # fat_options"
    using r(1) by (auto simp: first_args_def run_simps say_def split: if_splits)
  ultimately show ?thesis by fastforce
qed

lemma leg_log_run:
  "\<exists>lg w es. run_state (leg_log_file E C job) s = (lg, s\<lparr>os := w, trace := trace s @ es\<rparr>)
     \<and> execs es = [] \<and> fst lg = (if save_log job then [''--log-file='' @ snd lg] else [])"
proof -
  have "quiet (leg_log_file E C job)" unfolding leg_log_file_def by (intro keeps_intros)
  then obtain x w es where r: "run_state (leg_log_file E C job) s = (x, s\<lparr>os := w, trace := trace s @ es\<rparr>)" "execs es = []"
    by (rule quietE)
  moreover have "fst x = (if save_log job then [''--log-file='' @ snd x] else [])"
    using r(1) by (auto simp: leg_log_file_def run_simps split: if_splits prod.splits)
  ultimately show ?thesis by blast
qed

lemma run_leg_run:
  "\<exists>w es t. let c = Argv ''rsync'' (args @ [src, dest]) in
     run_state (run_leg E what args lp src dest) s
       = ((), s\<lparr>os := w, trace := trace s @ es,
               bak_logs := bak_logs s @ [\<lparr>log_rsync_path = lp, log_source = src, log_destination = dest,
                                        log_ret_code = p_code (fst (x_exec E c t))\<rparr>]\<rparr>)
     \<and> execs es = [c]"
proof -
  let ?c = "Argv ''rsync'' (args @ [src, dest])"
  have "quiet (announce_leg what src dest)" unfolding announce_leg_def by (intro keeps_intros)
  then obtain w1 es1 where 1: "run_state (announce_leg what src dest) s
      = ((), s\<lparr>os := w1, trace := trace s @ es1\<rparr>)" "execs es1 = []"
    using quiet_unit by blast
  let ?r = "x_exec E ?c w1"
  let ?s2 = "s\<lparr>trace := trace s @ es1 @ [Exec ?c], os := snd ?r\<rparr>"
  have "quiet (rsync_outcome what (fst ?r))" unfolding rsync_outcome_def by (intro keeps_intros)
  from quiet_unit [OF this, of ?s2] obtain w3 es3 where 3: "run_state (rsync_outcome what (fst ?r)) ?s2
      = ((), s\<lparr>os := w3, trace := (trace s @ es1 @ [Exec ?c]) @ es3\<rparr>)" "execs es3 = []"
    by auto
  let ?log = "\<lparr>log_rsync_path = lp, log_source = src, log_destination = dest, log_ret_code = p_code (fst ?r)\<rparr>"
  have "run_state (run_leg E what args lp src dest) s =
      ((), s\<lparr>os := w3, trace := trace s @ es1 @ [Exec ?c] @ es3, bak_logs := bak_logs s @ [?log]\<rparr>)"
    using 1(1) 3(1) by (simp add: run_leg_def run_cmd_def run_simps bak_log_def)
  then show ?thesis
    unfolding Let_def using 1(2) 3(2)
    by (intro exI [of _ w3] exI [of _ "es1 @ [Exec ?c] @ es3"] exI [of _ w1]) simp
qed

text \<open>A loop of legs: each runs one program and adds one log entry.\<close>

lemma for_each_legs:
  assumes "\<And>x s. x \<in> set xs \<Longrightarrow> \<exists>w es c l. run_state (f x) s
      = ((), s\<lparr>os := w, trace := trace s @ es, bak_logs := bak_logs s @ [l]\<rparr>) \<and> execs es = [c] \<and> Q x (c, l)"
  shows "\<exists>w es cls. run_state (for_each xs f) s
      = ((), s\<lparr>os := w, trace := trace s @ es, bak_logs := bak_logs s @ map snd cls\<rparr>)
      \<and> execs es = map fst cls \<and> list_all2 Q xs cls"
  using assms
proof (induction xs arbitrary: s)
  case Nil
  show ?case by (intro exI [of _ "os s"] exI [of _ "[]"]) simp
next
  case (Cons x xs)
  obtain w es c l where 1: "run_state (f x) s
      = ((), s\<lparr>os := w, trace := trace s @ es, bak_logs := bak_logs s @ [l]\<rparr>)" "execs es = [c]" "Q x (c, l)"
    using Cons.prems by (meson list.set_intros(1))
  let ?s1 = "s\<lparr>os := w, trace := trace s @ es, bak_logs := bak_logs s @ [l]\<rparr>"
  obtain w' es' cls where 2: "run_state (for_each xs f) ?s1
      = ((), ?s1\<lparr>os := w', trace := trace ?s1 @ es', bak_logs := bak_logs ?s1 @ map snd cls\<rparr>)"
      "execs es' = map fst cls" "list_all2 Q xs cls"
    using Cons.IH [of ?s1] Cons.prems by (meson list.set_intros(2))
  show ?case
    using 1 2 by (intro exI [of _ w'] exI [of _ "es @ es'"] exI [of _ "(c, l) # cls"]) simp
qed

text \<open>What a leg for an entry must have done.\<close>

definition leg_ok ::
  "'w ext \<Rightarrow> string list \<Rightarrow> string \<Rightarrow> (string \<Rightarrow> string) \<Rightarrow> string \<times> string \<Rightarrow> cmd \<times> tiBackupJobLog \<Rightarrow> bool" where
  "leg_ok E extra mountDir source e = (\<lambda>(c, l).
     (\<exists>args t. leg_args extra args \<and> c = Argv ''rsync'' (args @ [source (fst e), convertGeneric2Path (snd e) mountDir])
        \<and> log_source l = source (fst e) \<and> log_destination l = convertGeneric2Path (snd e) mountDir
        \<and> log_ret_code l = p_code (fst (x_exec E c t))))"

lemma leg_run:
  fixes s :: "('w, 'z) bst_scheme"
  assumes "m = (do { a \<leftarrow> first_args E dest; l \<leftarrow> leg_log_file E C job;
      run_leg E what (a @ extra @ fst l) (snd l) src dest })"
  shows "\<exists>w es c l. run_state m s
      = ((), s\<lparr>os := w, trace := trace s @ es, bak_logs := bak_logs s @ [l]\<rparr>) \<and> execs es = [c]
      \<and> (\<exists>args t. leg_args extra args \<and> c = Argv ''rsync'' (args @ [src, dest])
        \<and> log_source l = src \<and> log_destination l = dest \<and> log_ret_code l = p_code (fst (x_exec E c t)))"
proof -
  obtain fat w1 es1 where 1: "run_state (first_args E dest) s = (''-a'' # fat, s\<lparr>os := w1, trace := trace s @ es1\<rparr>)"
    "execs es1 = []" "fat \<in> {[], fat_options}"
    using first_args_run by metis
  let ?s1 = "s\<lparr>os := w1, trace := trace s @ es1\<rparr>"
  obtain lg w2 es2 where 2: "run_state (leg_log_file E C job) ?s1 = (lg, ?s1\<lparr>os := w2, trace := trace ?s1 @ es2\<rparr>)"
    "execs es2 = []" "fst lg = (if save_log job then [''--log-file='' @ snd lg] else [])"
    using leg_log_run by metis
  let ?s2 = "?s1\<lparr>os := w2, trace := trace ?s1 @ es2\<rparr>"
  let ?args = "''-a'' # fat @ extra @ fst lg"
  let ?c = "Argv ''rsync'' (?args @ [src, dest])"
  obtain w3 es3 t where 3: "run_state (run_leg E what ?args (snd lg) src dest) ?s2
      = ((), ?s2\<lparr>os := w3, trace := trace ?s2 @ es3,
              bak_logs := bak_logs ?s2 @ [\<lparr>log_rsync_path = snd lg, log_source = src, log_destination = dest,
                                         log_ret_code = p_code (fst (x_exec E ?c t))\<rparr>]\<rparr>)"
      "execs es3 = [?c]"
    using run_leg_run [of ?args src dest E what "snd lg" ?s2] by (metis (no_types, lifting))
  let ?l = "\<lparr>log_rsync_path = snd lg, log_source = src, log_destination = dest,
             log_ret_code = p_code (fst (x_exec E ?c t))\<rparr>"
  have "run_state m s = ((), s\<lparr>os := w3, trace := trace s @ es1 @ es2 @ es3, bak_logs := bak_logs s @ [?l]\<rparr>)"
    using 1(1) 2(1) 3(1) by (simp add: assms)
  moreover have "leg_args extra ?args"
    using 1(3) 2(3) unfolding leg_args_def by (intro exI [of _ fat] exI [of _ "fst lg"]) auto
  ultimately show ?thesis
    using 1(2) 2(2) 3(2)
    by (intro exI [of _ w3] exI [of _ "es1 @ es2 @ es3"] exI [of _ ?c] exI [of _ ?l] conjI exI [of _ ?args] exI [of _ t])
       simp_all
qed

lemma local_backup_run:
  "\<exists>w es cls. run_state (local_backup E C job flags d) s
      = ((), s\<lparr>os := w, trace := trace s @ es, bak_logs := bak_logs s @ map snd cls\<rparr>)
      \<and> execs es = map fst cls \<and> list_all2 (leg_ok E flags d id) (x_order E (backupdirs job)) cls"
  unfolding local_backup_def
proof (rule for_each_legs)
  fix e s
  show "\<exists>w es c l. run_state (local_leg E C job flags d e) s
      = ((), s\<lparr>os := w, trace := trace s @ es, bak_logs := bak_logs s @ [l]\<rparr>)
      \<and> execs es = [c] \<and> leg_ok E flags d id e (c, l)"
    using leg_run [where m = "local_leg E C job flags d e" and E = E and dest = "convertGeneric2Path (snd e) d"
        and C = C and job = job and what = "''RSYNC''" and extra = flags and src = "fst e" and s = s]
    unfolding leg_ok_def by (simp add: local_leg_def Let_def)
qed


definition empty_conf :: tiConfMain where
  "empty_conf = \<lparr>m_valid = True, m_settings = Map.empty\<rparr>"


section \<open>What is fetched over SSH\<close>

definition ssh_extra :: "string list \<Rightarrow> SSHServer \<Rightarrow> string \<Rightarrow> string list" where
  "ssh_extra flags srv f = flags @ [''--protect-args'', ''-e'', rshCommand srv f]"

definition remote_source :: "SSHServer \<Rightarrow> string \<Rightarrow> string" where
  "remote_source srv p = srv_username srv @ ''@'' @ srv_host srv @ '':'' @ p"

lemma ssh_legs_run:
  "\<exists>w es cls. run_state (for_each xs (ssh_leg E C job flags d srv (rshCommand srv f))) s
      = ((), s\<lparr>os := w, trace := trace s @ es, bak_logs := bak_logs s @ map snd cls\<rparr>)
      \<and> execs es = map fst cls \<and> list_all2 (leg_ok E (ssh_extra flags srv f) d (remote_source srv)) xs cls"
proof (rule for_each_legs)
  fix e s
  show "\<exists>w es c l. run_state (ssh_leg E C job flags d srv (rshCommand srv f) e) s
      = ((), s\<lparr>os := w, trace := trace s @ es, bak_logs := bak_logs s @ [l]\<rparr>)
      \<and> execs es = [c] \<and> leg_ok E (ssh_extra flags srv f) d (remote_source srv) e (c, l)"
    using leg_run [where m = "ssh_leg E C job flags d srv (rshCommand srv f) e" and E = E
        and dest = "convertGeneric2Path (snd e) d" and C = C and job = job and what = "''SSH RSYNC''"
        and extra = "ssh_extra flags srv f" and src = "remote_source srv (fst e)" and s = s]
    unfolding leg_ok_def by (simp add: ssh_leg_def Let_def ssh_extra_def remote_source_def)
qed

text \<open>
  C29. An SSH source is read only from a server whose key is pinned: for a target whose server is
  unknown, has no pinned key, or when the key cannot be staged, nothing is run and the reason is
  kept for the report; otherwise the key is written to a new file, each entry of the target is
  fetched by one \<open>rsync\<close> whose transport is the ssh command bound to that file, and the file is deleted.
\<close>

theorem ssh_target_pinned:
  assumes "order_ok E" and "run_state (ssh_target_backup E C job flags d t) s = ((), s')"
  shows "let sv = srv_getItemByUuid E (to_text (getValue C ''paths/sshservers'')) (t_server_uuid t) (os s) in
    (\<exists>srv f es cls entries. sv = Some srv \<and> srv_hostkey srv \<noteq> [] \<and> x_temp E kh_template (os s) = Some f
       \<and> trace s' = trace s @ [WriteText f (srv_hostkey srv)] @ es @ [Delete f]
       \<and> execs es = map fst cls \<and> mset entries = t_backupdirs t
       \<and> list_all2 (leg_ok E (ssh_extra flags srv f) d (remote_source srv)) entries cls
       \<and> bak_logs s' = bak_logs s @ map snd cls)
    \<or> (\<exists>msg. ((\<forall>srv. sv = Some srv \<longrightarrow> srv_hostkey srv = []) \<or> x_temp E kh_template (os s) = None)
       \<and> s' = s\<lparr>bak_msgs := bak_msgs s @ [msg], trace := trace s @ [Log msg]\<rparr>)"
proof -
  let ?sv = "srv_getItemByUuid E (to_text (getValue C ''paths/sshservers'')) (t_server_uuid t) (os s)"
  show ?thesis
  proof (cases "\<exists>srv f. ?sv = Some srv \<and> srv_hostkey srv \<noteq> [] \<and> x_temp E kh_template (os s) = Some f")
    case True
    then obtain srv f where sv: "?sv = Some srv" "srv_hostkey srv \<noteq> []" "x_temp E kh_template (os s) = Some f"
      by blast
    let ?s1 = "s\<lparr>trace := trace s @ [WriteText f (srv_hostkey srv)], os := file_write f (Plain (srv_hostkey srv)) (os s)\<rparr>"
    obtain w es cls where r: "run_state (for_each (x_order E (t_backupdirs t)) (ssh_leg E C job flags d srv (rshCommand srv f))) ?s1
      = ((), ?s1\<lparr>os := w, trace := trace ?s1 @ es, bak_logs := bak_logs ?s1 @ map snd cls\<rparr>)"
      "execs es = map fst cls"
      "list_all2 (leg_ok E (ssh_extra flags srv f) d (remote_source srv)) (x_order E (t_backupdirs t)) cls"
      using ssh_legs_run by metis
    have "trace s' = trace s @ [WriteText f (srv_hostkey srv)] @ es @ [Delete f] \<and> bak_logs s' = bak_logs s @ map snd cls"
      using assms(2) sv r(1) by (auto simp: ssh_target_backup_def run_simps write_text_def delete_file_def)
    moreover have "mset (x_order E (t_backupdirs t)) = t_backupdirs t" using assms(1) by (simp add: order_ok_def)
    ultimately show ?thesis unfolding Let_def using sv r(2,3) by blast
  next
    case False
    then show ?thesis
      using assms(2) by (auto simp: ssh_target_backup_def warn_def say_def bak_msg_def run_simps
          split: option.splits if_splits)
  qed
qed

definition pinned_server :: SSHServer where
  "pinned_server = (new_SSHServer ''s1'')\<lparr>srv_host := ''h'', srv_username := ''u'', srv_hostkey := ''h k''\<rparr>"

definition ssh_sys :: "unit sys" where
  "ssh_sys = srv_saveItem calm_ext [] pinned_server calm_sys"

lemma ssh_sys_server: "srv_getItemByUuid calm_ext [] ''s1'' ssh_sys = Some pinned_server"
proof -
  have u: "srv_uuid pinned_server = ''s1''" by (simp add: pinned_server_def new_SSHServer_def strip_braces_def)
  have "store_consistent calm_ext srv_decode srv_uuid [] calm_sys" "\<not> refused calm_sys p" "key_ok ''s1''" for p
    by (simp_all add: calm_sys_def key_ok_def)
  from srv_store.find_after_save [OF order_ok_calm(2) TrueI this(2,1,3), of pinned_server] u show ?thesis
    by (simp add: srv_getItemByUuid_def srv_getItems_def ssh_sys_def srv_saveItem_def)
qed

theorem ssh_target_pinned_witness:
  "let t = \<lparr>t_server_uuid = ''s1'', t_backupdirs = {#(''/srv'', ''%MNTBACKUPDIR%/s'')#}\<rparr>;
       r = run_state (ssh_target_backup calm_ext empty_conf (plain_job ''j'') [] ''/m'' t) (calm_bst\<lparr>os := ssh_sys\<rparr>)
   in \<exists>es. trace (snd r) = [WriteText kh_template ''h k''] @ es @ [Delete kh_template] \<and> length (execs es) = 1"
proof -
  let ?t = "\<lparr>t_server_uuid = ''s1'', t_backupdirs = {#(''/srv'', ''%MNTBACKUPDIR%/s'')#}\<rparr>"
  let ?s = "calm_bst\<lparr>os := ssh_sys\<rparr>"
  let ?r = "run_state (ssh_target_backup calm_ext empty_conf (plain_job ''j'') [] ''/m'' ?t) ?s"
  have r: "?r = ((), snd ?r)" by (simp add: prod_eq_iff)
  have conf: "to_text (getValue empty_conf k) = []" for k by (simp add: getValue_def empty_conf_def)
  have key: "srv_hostkey pinned_server = ''h k''" by (simp add: pinned_server_def)
  have tmp: "x_temp calm_ext kh_template ssh_sys = Some kh_template" by (simp add: calm_ext_def)
  have found: "srv_getItemByUuid calm_ext (to_text (getValue empty_conf ''paths/sshservers''))
      (t_server_uuid ?t) (os ?s) = Some pinned_server"
    by (simp add: conf ssh_sys_server)
  have "\<not> ((\<forall>srv. Some pinned_server = Some srv \<longrightarrow> srv_hostkey srv = []) \<or> x_temp calm_ext kh_template (os ?s) = None)"
    by (simp add: key tmp)
  with ssh_target_pinned [OF order_ok_calm(2) r, unfolded Let_def found] obtain srv f es cls entries where
    sv: "Some pinned_server = Some srv" "x_temp calm_ext kh_template (os ?s) = Some f"
      "trace (snd ?r) = trace ?s @ [WriteText f (srv_hostkey srv)] @ es @ [Delete f]"
    and es: "execs es = map fst cls" "mset entries = t_backupdirs ?t"
      "list_all2 (leg_ok calm_ext (ssh_extra [] srv f) ''/m'' (remote_source srv)) entries cls"
    by blast
  have "length cls = length entries" using es(3) by (simp add: list_all2_lengthD)
  moreover have "length entries = 1" using arg_cong [OF es(2), of size] by simp
  moreover have "trace (snd ?r) = [WriteText kh_template ''h k''] @ es @ [Delete kh_template]"
    using sv by (simp add: key tmp calm_bst_def)
  ultimately show ?thesis unfolding Let_def using es(1) by (metis length_map)
qed

end
