(* ===== verification/HttpStatus.thy ===== *)
theory HttpStatus
  imports Prelude
begin

text \<open>
  \<open>HttpStatusCodes.h\<close>: the HTTP status codes, their classes and reason phrases, and the translation
  between status codes and the errors of Qt's network replies. The PBS client compares the
  status of a reply with two of the codes.
\<close>

section \<open>Codes\<close>

text \<open>The enumeration \<open>Code\<close>, and the value of each enumerator.\<close>

datatype HttpCode =
    Continue | SwitchingProtocols | Processing | EarlyHints
    | OK | Created | Accepted | NonAuthoritativeInformation | NoContent | ResetContent
    | PartialContent | MultiStatus | AlreadyReported | IMUsed
    | MultipleChoices | MovedPermanently | Found | SeeOther | NotModified | UseProxy
    | TemporaryRedirect | PermanentRedirect
    | BadRequest | Unauthorized | PaymentRequired | Forbidden | NotFound | MethodNotAllowed
    | NotAcceptable | ProxyAuthenticationRequired | RequestTimeout | Conflict | Gone
    | LengthRequired | PreconditionFailed | PayloadTooLarge | URITooLong | UnsupportedMediaType
    | RangeNotSatisfiable | ExpectationFailed | ImATeapot | UnprocessableEntity | Locked
    | FailedDependency | UpgradeRequired | PreconditionRequired | TooManyRequests
    | RequestHeaderFieldsTooLarge | UnavailableForLegalReasons
    | InternalServerError | NotImplemented | BadGateway | ServiceUnavailable | GatewayTimeout
    | HTTPVersionNotSupported | VariantAlsoNegotiates | InsufficientStorage | LoopDetected
    | NotExtended | NetworkAuthenticationRequired
    | xxx_max

primrec code_of :: "HttpCode \<Rightarrow> int" where
  "code_of Continue = 100"
| "code_of SwitchingProtocols = 101"
| "code_of Processing = 102"
| "code_of EarlyHints = 103"
| "code_of OK = 200"
| "code_of Created = 201"
| "code_of Accepted = 202"
| "code_of NonAuthoritativeInformation = 203"
| "code_of NoContent = 204"
| "code_of ResetContent = 205"
| "code_of PartialContent = 206"
| "code_of MultiStatus = 207"
| "code_of AlreadyReported = 208"
| "code_of IMUsed = 226"
| "code_of MultipleChoices = 300"
| "code_of MovedPermanently = 301"
| "code_of Found = 302"
| "code_of SeeOther = 303"
| "code_of NotModified = 304"
| "code_of UseProxy = 305"
| "code_of TemporaryRedirect = 307"
| "code_of PermanentRedirect = 308"
| "code_of BadRequest = 400"
| "code_of Unauthorized = 401"
| "code_of PaymentRequired = 402"
| "code_of Forbidden = 403"
| "code_of NotFound = 404"
| "code_of MethodNotAllowed = 405"
| "code_of NotAcceptable = 406"
| "code_of ProxyAuthenticationRequired = 407"
| "code_of RequestTimeout = 408"
| "code_of Conflict = 409"
| "code_of Gone = 410"
| "code_of LengthRequired = 411"
| "code_of PreconditionFailed = 412"
| "code_of PayloadTooLarge = 413"
| "code_of URITooLong = 414"
| "code_of UnsupportedMediaType = 415"
| "code_of RangeNotSatisfiable = 416"
| "code_of ExpectationFailed = 417"
| "code_of ImATeapot = 418"
| "code_of UnprocessableEntity = 422"
| "code_of Locked = 423"
| "code_of FailedDependency = 424"
| "code_of UpgradeRequired = 426"
| "code_of PreconditionRequired = 428"
| "code_of TooManyRequests = 429"
| "code_of RequestHeaderFieldsTooLarge = 431"
| "code_of UnavailableForLegalReasons = 451"
| "code_of InternalServerError = 500"
| "code_of NotImplemented = 501"
| "code_of BadGateway = 502"
| "code_of ServiceUnavailable = 503"
| "code_of GatewayTimeout = 504"
| "code_of HTTPVersionNotSupported = 505"
| "code_of VariantAlsoNegotiates = 506"
| "code_of InsufficientStorage = 507"
| "code_of LoopDetected = 508"
| "code_of NotExtended = 510"
| "code_of NetworkAuthenticationRequired = 511"
| "code_of xxx_max = 1023"

definition isInformational :: "int \<Rightarrow> bool" where "isInformational code \<longleftrightarrow> 100 \<le> code \<and> code < 200"
definition isSuccessful :: "int \<Rightarrow> bool" where "isSuccessful code \<longleftrightarrow> 200 \<le> code \<and> code < 300"
definition isRedirection :: "int \<Rightarrow> bool" where "isRedirection code \<longleftrightarrow> 300 \<le> code \<and> code < 400"
definition isClientError :: "int \<Rightarrow> bool" where "isClientError code \<longleftrightarrow> 400 \<le> code \<and> code < 500"
definition isServerError :: "int \<Rightarrow> bool" where "isServerError code \<longleftrightarrow> 500 \<le> code \<and> code < 600"
definition isError :: "int \<Rightarrow> bool" where "isError code \<longleftrightarrow> 400 \<le> code"

lemmas http_classes = isInformational_def isSuccessful_def isRedirection_def isClientError_def
  isServerError_def isError_def

text \<open>The cases of \<open>reasonPhrase\<close>; for any other code the string is null.\<close>

definition reason_cases :: "(int \<times> string) list" where
  "reason_cases =
    [(100, ''Continue''),
     (101, ''Switching Protocols''),
     (102, ''Processing''),
     (103, ''Early Hints''),
     (200, ''OK''),
     (201, ''Created''),
     (202, ''Accepted''),
     (203, ''Non-Authoritative Information''),
     (204, ''No Content''),
     (205, ''Reset Content''),
     (206, ''Partial Content''),
     (207, ''Multi-Status''),
     (208, ''Already Reported''),
     (226, ''IM Used''),
     (300, ''Multiple Choices''),
     (301, ''Moved Permanently''),
     (302, ''Found''),
     (303, ''See Other''),
     (304, ''Not Modified''),
     (305, ''Use Proxy''),
     (307, ''Temporary Redirect''),
     (308, ''Permanent Redirect''),
     (400, ''Bad Request''),
     (401, ''Unauthorized''),
     (402, ''Payment Required''),
     (403, ''Forbidden''),
     (404, ''Not Found''),
     (405, ''Method Not Allowed''),
     (406, ''Not Acceptable''),
     (407, ''Proxy Authentication Required''),
     (408, ''Request Timeout''),
     (409, ''Conflict''),
     (410, ''Gone''),
     (411, ''Length Required''),
     (412, ''Precondition Failed''),
     (413, ''Payload Too Large''),
     (414, ''URI Too Long''),
     (415, ''Unsupported Media Type''),
     (416, ''Range Not Satisfiable''),
     (417, ''Expectation Failed''),
     (418, ''I'' @ [CHR 0x27] @ ''m a teapot''),
     (422, ''Unprocessable Entity''),
     (423, ''Locked''),
     (424, ''Failed Dependency''),
     (426, ''Upgrade Required''),
     (428, ''Precondition Required''),
     (429, ''Too Many Requests''),
     (431, ''Request Header Fields Too Large''),
     (451, ''Unavailable For Legal Reasons''),
     (500, ''Internal Server Error''),
     (501, ''Not Implemented''),
     (502, ''Bad Gateway''),
     (503, ''Service Unavailable''),
     (504, ''Gateway Time-out''),
     (505, ''HTTP Version Not Supported''),
     (506, ''Variant Also Negotiates''),
     (507, ''Insufficient Storage''),
     (508, ''Loop Detected''),
     (510, ''Not Extended''),
     (511, ''Network Authentication Required'')]"

definition reasonPhrase :: "int \<Rightarrow> string option" where
  "reasonPhrase code = map_of reason_cases code"

section \<open>Errors of network replies\<close>

text \<open>The enumerators of \<open>QNetworkReply::NetworkError\<close> the header names, and any other value.\<close>

datatype NetworkError =
    NoError | AuthenticationRequiredError | ContentAccessDenied | ContentNotFoundError
  | ContentOperationNotPermittedError | ProxyAuthenticationRequiredError | ContentConflictError
  | ContentGoneError | InternalServerErrorReply | OperationNotImplementedError
  | ServiceUnavailableError | ProtocolInvalidOperationError | UnknownContentError
  | UnknownServerError | ProtocolFailure | OtherNetworkError int

primrec networkErrorToStatusCode :: "NetworkError \<Rightarrow> int" where
  "networkErrorToStatusCode AuthenticationRequiredError = code_of Unauthorized"
| "networkErrorToStatusCode ContentAccessDenied = code_of Forbidden"
| "networkErrorToStatusCode ContentNotFoundError = code_of NotFound"
| "networkErrorToStatusCode ContentOperationNotPermittedError = code_of MethodNotAllowed"
| "networkErrorToStatusCode ProxyAuthenticationRequiredError = code_of ProxyAuthenticationRequired"
| "networkErrorToStatusCode ContentConflictError = code_of Conflict"
| "networkErrorToStatusCode ContentGoneError = code_of Gone"
| "networkErrorToStatusCode InternalServerErrorReply = code_of InternalServerError"
| "networkErrorToStatusCode OperationNotImplementedError = code_of NotImplemented"
| "networkErrorToStatusCode ServiceUnavailableError = code_of ServiceUnavailable"
| "networkErrorToStatusCode NoError = code_of OK"
| "networkErrorToStatusCode ProtocolInvalidOperationError = code_of BadRequest"
| "networkErrorToStatusCode UnknownContentError = code_of BadRequest"
| "networkErrorToStatusCode UnknownServerError = code_of InternalServerError"
| "networkErrorToStatusCode ProtocolFailure = - 1"
| "networkErrorToStatusCode (OtherNetworkError n) = - 1"

text \<open>The \<open>case\<close> labels of \<open>statusCodeToNetworkError\<close>.\<close>

definition error_cases :: "(int \<times> NetworkError) list" where
  "error_cases =
    [(code_of BadRequest, ProtocolInvalidOperationError),
     (code_of Unauthorized, AuthenticationRequiredError),
     (code_of Forbidden, ContentAccessDenied),
     (code_of NotFound, ContentNotFoundError),
     (code_of MethodNotAllowed, ContentOperationNotPermittedError),
     (code_of ProxyAuthenticationRequired, ProxyAuthenticationRequiredError),
     (code_of Conflict, ContentConflictError),
     (code_of Gone, ContentGoneError),
     (code_of ImATeapot, ProtocolInvalidOperationError),
     (code_of InternalServerError, InternalServerErrorReply),
     (code_of NotImplemented, OperationNotImplementedError),
     (code_of ServiceUnavailable, ServiceUnavailableError)]"

definition statusCodeToNetworkError :: "int \<Rightarrow> NetworkError" where
  "statusCodeToNetworkError code =
     (if \<not> isError code then NoError
      else (case map_of error_cases code of
              Some e \<Rightarrow> e
            | None \<Rightarrow> if isClientError code then UnknownContentError
                      else if isServerError code then UnknownServerError
                      else ProtocolFailure))"

section \<open>What the translations promise\<close>

text \<open>
  The way from a status code to a network error and back keeps the class of an error: a code
  with an error of its own comes back as itself, any other client error as 400, any other
  server error as 500, a code from 600 on as the invalid code, and what is no error as 200.
\<close>

theorem status_error_roundtrip:
  "networkErrorToStatusCode (statusCodeToNetworkError code) =
     (if \<not> isError code then code_of OK
      else if code \<in> {401, 403, 404, 405, 407, 409, 410, 500, 501, 503} then code
      else if isClientError code then code_of BadRequest
      else if isServerError code then code_of InternalServerError
      else - 1)"
  by (auto simp: statusCodeToNetworkError_def error_cases_def http_classes)

text \<open>
  Every enumerator but the last, which only fixes the range of the type, has a reason
  phrase, no two of them the same one, and no other number has one: the labels of
  \<open>reasonPhrase\<close> are the values of the enumerators, in their order.
\<close>

definition all_codes :: "HttpCode list" where
  "all_codes =
    [Continue, SwitchingProtocols, Processing, EarlyHints, OK, Created, Accepted,
     NonAuthoritativeInformation, NoContent, ResetContent, PartialContent, MultiStatus,
     AlreadyReported, IMUsed, MultipleChoices, MovedPermanently, Found, SeeOther, NotModified,
     UseProxy, TemporaryRedirect, PermanentRedirect, BadRequest, Unauthorized, PaymentRequired,
     Forbidden, NotFound, MethodNotAllowed, NotAcceptable, ProxyAuthenticationRequired,
     RequestTimeout, Conflict, Gone, LengthRequired, PreconditionFailed, PayloadTooLarge,
     URITooLong, UnsupportedMediaType, RangeNotSatisfiable, ExpectationFailed, ImATeapot,
     UnprocessableEntity, Locked, FailedDependency, UpgradeRequired, PreconditionRequired,
     TooManyRequests, RequestHeaderFieldsTooLarge, UnavailableForLegalReasons,
     InternalServerError, NotImplemented, BadGateway, ServiceUnavailable, GatewayTimeout,
     HTTPVersionNotSupported, VariantAlsoNegotiates, InsufficientStorage, LoopDetected,
     NotExtended, NetworkAuthenticationRequired, xxx_max]"

lemma reason_labels: "map fst reason_cases = map code_of (butlast all_codes)"
  by (simp add: reason_cases_def all_codes_def)

lemma distinct_reasons: "distinct (map snd reason_cases)"
  by (simp add: reason_cases_def)

end
