(* ===== verification/PbsClient.thy ===== *)
theory PbsClient
  imports JobData HttpStatus
begin

text \<open>
  \<open>pbsClient\<close> (pbsclient.cpp): the REST client for a Proxmox Backup Server. \<open>pbsClient\<close> is the
  object, \<open>on_ssl_errors\<close> the slot connected in its constructor, \<open>pbs_request\<close> what every method
  does with the network manager (send, wait for the reply, read status and body), and the
  methods follow. A \<open>QString\<close> whose UTF-16 units matter is a list of \<open>u16\<close>; the Unicode tables
  and the URL encoding are those of Qt, given by \<open>ext\<close>.
\<close>

section \<open>Fingerprints\<close>

definition units :: "string \<Rightarrow> u16 list" where
  "units s = map (\<lambda>c. word_of_nat (of_char c)) s"

definition normalizeFingerprint :: "'w ext \<Rightarrow> u16 list \<Rightarrow> u16 list" where
  "normalizeFingerprint E fp = map (x_upper E) (filter (x_letter E) fp)"

definition fingerprintMatches :: "'w ext \<Rightarrow> u16 list \<Rightarrow> u16 list \<Rightarrow> bool" where
  "fingerprintMatches E a b =
     (let na = normalizeFingerprint E a; nb = normalizeFingerprint E b in
      if na = [] \<or> length na \<noteq> length nb then False
      else foldl (\<lambda>diff i. or diff (xor (na ! i) (nb ! i))) 0 [0..<length na] = 0)"

text \<open>\<open>toHex(':')\<close> of the digest, in upper case.\<close>

definition hex_digit :: "nat \<Rightarrow> char" where
  "hex_digit n = (if n < 10 then char_of (48 + n) else char_of (55 + n))"

definition hex_byte :: "8 word \<Rightarrow> string" where
  "hex_byte b = [hex_digit (unat b div 16), hex_digit (unat b mod 16)]"

definition fingerprintOf :: "8 word list \<Rightarrow> string" where
  "fingerprintOf digest = join '':'' (map hex_byte digest)"

section \<open>Place markers\<close>

text \<open>
  \<open>QString::arg\<close>: every occurrence of the lowest-numbered place marker (a percent sign, an
  optional L, one or two digits) is replaced. Calls that are chained see what earlier ones
  inserted.
\<close>

datatype tok = Lit char | Mark nat string

definition marker :: "string \<Rightarrow> (nat \<times> string \<times> string) option" where
  "marker s =
     (let (l, t) = (case s of c # cs \<Rightarrow> if c = CHR ''L'' then ([c], cs) else ([], s) | [] \<Rightarrow> ([], [])) in
      case t of
        d1 # d2 # r \<Rightarrow>
          if \<not> is_digit d1 then None
          else if is_digit d2 then Some (10 * digit_val d1 + digit_val d2, l @ [d1, d2], r)
          else Some (digit_val d1, l @ [d1], d2 # r)
      | [d1] \<Rightarrow> if is_digit d1 then Some (digit_val d1, l @ [d1], []) else None
      | [] \<Rightarrow> None)"

lemma marker_shorter: "marker s = Some (n, raw, r) \<Longrightarrow> length r < length s"
  by (auto simp: marker_def split: list.splits if_splits prod.splits)

function toks :: "string \<Rightarrow> tok list" where
  "toks [] = []"
| "toks (c # cs) =
     (if c \<noteq> CHR ''%'' then Lit c # toks cs
      else (case marker cs of
              None \<Rightarrow> Lit c # toks cs
            | Some (n, raw, r) \<Rightarrow> Mark n (c # raw) # toks r))"
  by pat_completeness auto
termination
  by (relation "measure length") (auto dest: marker_shorter)

lemma toks_lit [simp]: "c \<noteq> CHR ''%'' \<Longrightarrow> toks (c # cs) = Lit c # toks cs"
  by simp

declare toks.simps(2) [simp del]

fun marks :: "tok list \<Rightarrow> nat list" where
  "marks [] = []"
| "marks (Lit c # ts) = marks ts"
| "marks (Mark n raw # ts) = n # marks ts"

fun fill :: "nat \<Rightarrow> string \<Rightarrow> tok list \<Rightarrow> string" where
  "fill k a [] = []"
| "fill k a (Lit c # ts) = c # fill k a ts"
| "fill k a (Mark n raw # ts) = (if n = k then a else raw) @ fill k a ts"

definition q_arg :: "string \<Rightarrow> string \<Rightarrow> string" where
  "q_arg s a = (let ts = toks s in if marks ts = [] then s else fill (Min (set (marks ts))) a ts)"

section \<open>The client\<close>

record pbsClient =
  cl_host :: string
  cl_port :: i32
  cl_username :: string
  cl_password :: string
  cl_ticket :: string
  cl_CSRF :: string
  cl_expected :: string
  cl_lastPeer :: string
  cl_capture :: bool
  cl_cookies :: "(string \<times> string) list"

definition new_pbsClient :: pbsClient where
  "new_pbsClient = \<lparr>cl_host = [], cl_port = 0, cl_username = [], cl_password = [], cl_ticket = [],
     cl_CSRF = [], cl_expected = [], cl_lastPeer = [], cl_capture = False, cl_cookies = []\<rparr>"

definition setExpectedFingerprint :: "string \<Rightarrow> pbsClient \<Rightarrow> pbsClient" where
  "setExpectedFingerprint fp cl = cl\<lparr>cl_expected := fp\<rparr>"

definition setCaptureMode :: "bool \<Rightarrow> pbsClient \<Rightarrow> pbsClient" where
  "setCaptureMode b cl = cl\<lparr>cl_capture := b\<rparr>"

definition capturedFingerprint :: "pbsClient \<Rightarrow> string" where
  "capturedFingerprint cl = cl_lastPeer cl"

text \<open>The slot: whether the errors are ignored, and the client afterwards.\<close>

definition on_ssl_errors :: "'w ext \<Rightarrow> 8 word list option \<Rightarrow> pbsClient \<Rightarrow> bool \<times> pbsClient" where
  "on_ssl_errors E cert cl =
     (case cert of
        None \<Rightarrow> (False, cl)
      | Some digest \<Rightarrow>
          (let cl' = cl\<lparr>cl_lastPeer := fingerprintOf digest\<rparr> in
           if cl_expected cl' \<noteq> [] \<and>
              fingerprintMatches E (units (cl_lastPeer cl')) (units (cl_expected cl'))
           then (True, cl')
           else if cl_capture cl' then (True, cl')
           else (False, cl')))"

definition failed_reply :: reply where
  "failed_reply = \<lparr>y_status = 0, y_json = JNull, y_raw = []\<rparr>"

definition pbs_request ::
  "'w ext \<Rightarrow> request \<Rightarrow> pbsClient \<Rightarrow> (('w, 'z) st_scheme, pbsClient \<times> reply) state" where
  "pbs_request E req cl = do {
     p \<leftarrow> asks (x_peer E (cl_host cl));
     let (accepted, cl') = (case p of NoTlsErrors \<Rightarrow> (True, cl) | TlsErrors cert \<Rightarrow> on_ssl_errors E cert cl);
     if accepted
     then do { emit (Send req); r \<leftarrow> change (x_http E req); State_Monad.return (cl', r) }
     else State_Monad.return (cl', failed_reply) }"

definition genPBSAPIPath :: "pbsClient \<Rightarrow> string \<Rightarrow> string" where
  "genPBSAPIPath cl path =
     q_arg (q_arg (q_arg ''https://%1:%2/api2/%3'' (cl_host cl)) (show_int (sint (cl_port cl)))) path"

definition genPBSAPIPath_query :: "'w ext \<Rightarrow> pbsClient \<Rightarrow> string \<Rightarrow> (string \<times> string) list \<Rightarrow> string" where
  "genPBSAPIPath_query E cl path q = x_query_url E (genPBSAPIPath cl path) q"

definition getNRAuth :: "pbsClient \<Rightarrow> string \<Rightarrow> request" where
  "getNRAuth cl url = \<lparr>r_method = ''GET'', r_url = url, r_cookies = cl_cookies cl, r_body = []\<rparr>"

definition json_get :: "string \<Rightarrow> json \<Rightarrow> json" where
  "json_get k j = (case j of JObj kvs \<Rightarrow> (case map_of kvs k of None \<Rightarrow> JNull | Some v \<Rightarrow> v) | _ \<Rightarrow> JNull)"

definition json_str :: "json \<Rightarrow> string" where
  "json_str j = (case j of JStr s \<Rightarrow> s | _ \<Rightarrow> [])"

text \<open>\<open>QNetworkCookieJar::insertCookie\<close> replaces a cookie of the same name.\<close>

definition insert_cookie :: "string \<times> string \<Rightarrow> pbsClient \<Rightarrow> pbsClient" where
  "insert_cookie c cl = cl\<lparr>cl_cookies := filter (\<lambda>d. fst d \<noteq> fst c) (cl_cookies cl) @ [c]\<rparr>"

definition http_ok :: int where "http_ok = code_of OK"

definition auth_request :: "'w ext \<Rightarrow> pbsClient \<Rightarrow> request" where
  "auth_request E cl = \<lparr>r_method = ''POST'', r_url = genPBSAPIPath cl ''json/access/ticket'', r_cookies = cl_cookies cl,
     r_body = x_form E [(''username'', cl_username cl), (''password'', x_percent E (cl_password cl))]\<rparr>"

definition pbs_auth ::
  "'w ext \<Rightarrow> string \<Rightarrow> i32 \<Rightarrow> string \<Rightarrow> string \<Rightarrow> pbsClient \<Rightarrow> (('w, 'z) st_scheme, pbsClient \<times> int) state" where
  "pbs_auth E host port username password cl0 = do {
     let cl1 = cl0\<lparr>cl_host := host, cl_username := username, cl_password := password, cl_port := port\<rparr>;
     (cl2, r) \<leftarrow> pbs_request E (auth_request E cl1) cl1;
     let d = json_get ''data'' (y_json r);
     let cl3 = cl2\<lparr>cl_ticket := json_str (json_get ''ticket'' d),
                   cl_CSRF := json_str (json_get ''CSRFPreventionToken'' d)\<rparr>;
     State_Monad.return
       (if y_status r = http_ok then insert_cookie (''PBSAuthCookie'', cl_ticket cl3) cl3 else cl3,
        y_status r) }"

definition pbs_auth_default ::
  "'w ext \<Rightarrow> string \<Rightarrow> string \<Rightarrow> string \<Rightarrow> pbsClient \<Rightarrow> (('w, 'z) st_scheme, pbsClient \<times> int) state" where
  "pbs_auth_default E host username password cl = pbs_auth E host 8007 username password cl"

definition getDatastores :: "'w ext \<Rightarrow> pbsClient \<Rightarrow> (('w, 'z) st_scheme, pbsClient \<times> reply) state" where
  "getDatastores E cl = pbs_request E (getNRAuth cl (genPBSAPIPath cl ''json/admin/datastore'')) cl"

definition getDatastoreSnapshots ::
  "'w ext \<Rightarrow> string \<Rightarrow> string \<Rightarrow> string \<Rightarrow> pbsClient \<Rightarrow> (('w, 'z) st_scheme, pbsClient \<times> reply) state" where
  "getDatastoreSnapshots E datastore backupid backuptype cl =
     (let q = (if backupid \<noteq> [] then [(''backup-id'', backupid)] else [])
              @ (if backuptype \<noteq> [] then [(''backup-type'', backuptype)] else []);
          url = genPBSAPIPath_query E cl (q_arg ''json/admin/datastore/%1/snapshots'' datastore) q
      in pbs_request E (getNRAuth cl url) cl)"

definition getDatastoreGroups ::
  "'w ext \<Rightarrow> string \<Rightarrow> pbsClient \<Rightarrow> (('w, 'z) st_scheme, pbsClient \<times> reply) state" where
  "getDatastoreGroups E datastore cl =
     pbs_request E (getNRAuth cl (genPBSAPIPath cl (q_arg ''json/admin/datastore/%1/groups'' datastore))) cl"

definition getBackupFile ::
  "'w ext \<Rightarrow> string \<Rightarrow> string \<Rightarrow> i32 \<Rightarrow> string \<Rightarrow> string \<Rightarrow> pbsClient \<Rightarrow>
   (('w, 'z) st_scheme, pbsClient \<times> reply) state" where
  "getBackupFile E datastore backupid backuptime backuptype filename cl =
     (let q = [(''backup-id'', backupid), (''backup-time'', show_int (sint backuptime)),
               (''backup-type'', backuptype), (''file-name'', filename)];
          url = genPBSAPIPath_query E cl (q_arg ''json/admin/datastore/%1/download-decoded'' datastore) q
      in pbs_request E (getNRAuth cl url) cl)"

definition getBackupFiles ::
  "'w ext \<Rightarrow> string \<Rightarrow> string \<Rightarrow> i32 \<Rightarrow> string \<Rightarrow> pbsClient \<Rightarrow> (('w, 'z) st_scheme, pbsClient \<times> reply) state" where
  "getBackupFiles E datastore backupid backuptime backuptype cl =
     (let q = [(''backup-id'', backupid), (''backup-time'', show_int (sint backuptime)),
               (''backup-type'', backuptype)];
          url = genPBSAPIPath_query E cl (q_arg ''json/admin/datastore/%1/files'' datastore) q
      in pbs_request E (getNRAuth cl url) cl)"

section \<open>Comparing fingerprints\<close>

lemma foldl_or_zero:
  "foldl (\<lambda>d i. or d (f i)) z is = 0 \<longleftrightarrow> z = (0 :: 'a :: len word) \<and> (\<forall>i \<in> set is. f i = 0)"
  by (induction "is" arbitrary: z) (auto simp: or_eq_0_iff)

lemma xor_zero_iff: "xor x y = 0 \<longleftrightarrow> x = (y :: 'a :: len word)"
  by (auto simp: bit_eq_iff bit_xor_iff)

lemma matches_iff:
  "fingerprintMatches E a b
   \<longleftrightarrow> normalizeFingerprint E a = normalizeFingerprint E b \<and> normalizeFingerprint E a \<noteq> []"
proof -
  let ?a = "normalizeFingerprint E a" and ?b = "normalizeFingerprint E b"
  have "foldl (\<lambda>diff i. or diff (xor (?a ! i) (?b ! i))) 0 [0..<length ?a] = 0 \<longleftrightarrow>
      (\<forall>i < length ?a. ?a ! i = ?b ! i)"
    by (auto simp: foldl_or_zero [of "\<lambda>i. xor (?a ! i) (?b ! i)"] xor_zero_iff)
  then have "fingerprintMatches E a b \<longleftrightarrow>
      ?a \<noteq> [] \<and> length ?a = length ?b \<and> (\<forall>i < length ?a. ?a ! i = ?b ! i)"
    unfolding fingerprintMatches_def Let_def by (simp only: if_False if_True) simp
  then show ?thesis
    unfolding list_eq_iff_nth_eq [of ?a ?b] by blast
qed

text \<open>
  The loop of \<open>fingerprintMatches\<close>, which accumulates the differing bits of all positions
  and never stops early, decides equality of the normalised fingerprints; nothing matches an
  empty one.
\<close>

theorem fingerprint_match_iff:
  "fingerprintMatches E a b
   \<longleftrightarrow> normalizeFingerprint E a = normalizeFingerprint E b \<and> normalizeFingerprint E a \<noteq> []"
  by (rule matches_iff)

text \<open>What the Unicode tables say of hexadecimal digits and the colon.\<close>

definition unit_of :: "char \<Rightarrow> u16" where
  "unit_of c = word_of_nat (of_char c)"

definition hex_tables :: "'w ext \<Rightarrow> bool" where
  "hex_tables E \<longleftrightarrow> \<not> x_letter E (unit_of CHR '':'') \<and>
     (\<forall>n < 16. x_letter E (unit_of (hex_digit n)) \<and> x_upper E (unit_of (hex_digit n)) = unit_of (hex_digit n)
        \<and> x_letter E (unit_of (lower_char (hex_digit n)))
        \<and> x_upper E (unit_of (lower_char (hex_digit n))) = unit_of (hex_digit n))"

lemma units_map: "units s = map unit_of s"
  by (simp add: units_def unit_of_def)

lemma len_u16: "LENGTH(16) = 16" by simp

lemma unat_unit_of: "unat (unit_of c) = of_char c"
proof -
  have "(of_char c :: nat) < 2 ^ 16"
    by (rule order_less_le_trans [OF nat_of_char_less_256]) simp
  then show ?thesis unfolding unit_of_def unat_of_nat by (simp only: len_u16 mod_less)
qed

lemma unit_of_inject [simp]: "unit_of c = unit_of d \<longleftrightarrow> c = d"
  by (metis unat_unit_of of_char_eq_iff)

lemma of_char_hex: "n < 16 \<Longrightarrow> (of_char (hex_digit n) :: nat) = (if n < 10 then 48 + n else 55 + n)"
  by (simp add: hex_digit_def)

lemma hex_digit_inject:
  assumes "m < 16" and "n < 16" and "hex_digit m = hex_digit n"
  shows "m = n"
proof -
  have "(if m < 10 then 48 + m else 55 + m) = (if n < 10 then 48 + n else 55 + n)"
    using assms of_char_hex by metis
  then show ?thesis by (simp split: if_splits)
qed

lemma unat_byte: "unat (b :: 8 word) < 256"
  by (rule order_less_le_trans [OF unsigned_less]) simp

lemma hex_byte_inject: "hex_byte b = hex_byte c \<Longrightarrow> b = c"
proof -
  assume eq: "hex_byte b = hex_byte c"
  have "unat b div 16 < 16" "unat c div 16 < 16" using unat_byte [of b] unat_byte [of c] by auto
  then have "unat b div 16 = unat c div 16" "unat b mod 16 = unat c mod 16"
    using eq hex_digit_inject [of "unat b div 16" "unat c div 16"]
      hex_digit_inject [of "unat b mod 16" "unat c mod 16"]
    by (simp_all add: hex_byte_def)
  then have "unat b = unat c" by (metis div_mult_mod_eq)
  then show "b = c" by (rule unsigned_word_eqI)
qed

lemma length_hex_byte [simp]: "length (hex_byte b) = 2"
  by (simp add: hex_byte_def)

lemma hex_bytes_inject: "concat (map hex_byte d) = concat (map hex_byte e) \<Longrightarrow> d = e"
proof (induction d arbitrary: e)
  case Nil
  then show ?case by (cases e) (auto simp: hex_byte_def)
next
  case (Cons b d)
  then obtain c es where e: "e = c # es" by (cases e) (auto simp: hex_byte_def)
  with Cons.prems have "hex_byte b = hex_byte c \<and> concat (map hex_byte d) = concat (map hex_byte es)"
    by (metis append_eq_append_conv concat.simps(2) length_hex_byte list.simps(9))
  with Cons.IH hex_byte_inject e show ?case by blast
qed

text \<open>The three usual spellings of a digest normalise to the same digits.\<close>

lemma normalize_append:
  "normalizeFingerprint E (a @ b) = normalizeFingerprint E a @ normalizeFingerprint E b"
  by (simp add: normalizeFingerprint_def)

definition hex_string :: "string \<Rightarrow> bool" where
  "hex_string s \<longleftrightarrow> set s \<subseteq> hex_digit ` {..<16}"

lemma hex_string_byte: "hex_string (hex_byte b)"
  using unat_byte [of b] by (auto simp: hex_string_def hex_byte_def)

lemma normalize_hex:
  "hex_tables E \<Longrightarrow> hex_string s \<Longrightarrow> normalizeFingerprint E (units s) = units s
     \<and> normalizeFingerprint E (units (map lower_char s)) = units s"
  by (induction s) (auto simp: normalizeFingerprint_def units_map hex_tables_def hex_string_def)

lemma normalize_colon:
  "hex_tables E \<Longrightarrow> normalizeFingerprint E (unit_of CHR '':'' # a) = normalizeFingerprint E a"
  by (simp add: normalizeFingerprint_def hex_tables_def)

lemma normalize_spellings:
  assumes "hex_tables E"
  shows "normalizeFingerprint E (units (fingerprintOf d)) = units (concat (map hex_byte d))
    \<and> normalizeFingerprint E (units (map lower_char (fingerprintOf d))) = units (concat (map hex_byte d))
    \<and> normalizeFingerprint E (units (concat (map hex_byte d))) = units (concat (map hex_byte d))"
proof -
  have colon: "lower_char CHR '':'' = CHR '':''" by (simp add: lower_char_def)
  have "normalizeFingerprint E (units (join '':'' (map hex_byte d))) = units (concat (map hex_byte d))
    \<and> normalizeFingerprint E (units (map lower_char (join '':'' (map hex_byte d)))) = units (concat (map hex_byte d))"
  proof (induction d rule: induct_list012)
    case (3 x y zs)
    then show ?case
      using normalize_hex [OF assms hex_string_byte] normalize_colon [OF assms]
      by (simp add: units_map normalize_append colon)
  qed (use normalize_hex [OF assms hex_string_byte] in \<open>auto simp: units_map normalizeFingerprint_def\<close>)
  moreover have "hex_string (concat (map hex_byte d))"
    using hex_string_byte by (fastforce simp: hex_string_def)
  ultimately show ?thesis
    using normalize_hex [OF assms] by (simp add: fingerprintOf_def)
qed

lemma units_inject [simp]: "units s = units t \<longleftrightarrow> s = t"
  by (simp add: units_map inj_map_eq_map inj_def)

lemma pin_match:
  assumes "hex_tables E" and "d \<noteq> []" and "normalizeFingerprint E (units pin) = units (concat (map hex_byte e))"
  shows "fingerprintMatches E (units (fingerprintOf d)) (units pin) \<longleftrightarrow> d = e"
proof -
  have "units (concat (map hex_byte d)) \<noteq> []"
    using assms(2) by (cases d) (simp_all add: hex_byte_def units_def)
  then show ?thesis
    using assms(3) normalize_spellings [OF assms(1)] hex_bytes_inject
    by (auto simp: matches_iff)
qed

text \<open>
  A pinned fingerprint names one certificate: the fingerprint of a presented certificate with
  digest \<open>d\<close> matches a pin for the digest \<open>e\<close>, given in the Proxmox form, in lower case or
  without colons, exactly if \<open>d\<close> is \<open>e\<close>.
\<close>

theorem pin_names_one_certificate:
  assumes "hex_tables E" and "d \<noteq> []"
    and "pin \<in> {fingerprintOf e, map lower_char (fingerprintOf e), concat (map hex_byte e)}"
  shows "fingerprintMatches E (units (fingerprintOf d)) (units pin) \<longleftrightarrow> d = e"
  using assms normalize_spellings [OF assms(1)] by (intro pin_match) auto

text \<open>An outside world with the ASCII part of the Unicode tables.\<close>

definition ascii_letter :: "u16 \<Rightarrow> bool" where
  "ascii_letter u \<longleftrightarrow> 48 \<le> u \<and> u \<le> 57 \<or> 65 \<le> u \<and> u \<le> 90 \<or> 97 \<le> u \<and> u \<le> 122"

definition ascii_upper :: "u16 \<Rightarrow> u16" where
  "ascii_upper u = (if 97 \<le> u \<and> u \<le> 122 then u - 32 else u)"

definition ascii_ext :: "unit ext" where
  "ascii_ext = calm_ext\<lparr>x_letter := ascii_letter, x_upper := ascii_upper\<rparr>"

lemma hex_tables_ascii: "hex_tables (ascii_ext\<lparr>x_peer := p\<rparr>)" "hex_tables ascii_ext"
proof -
  have "ascii_letter (unit_of (hex_digit n)) \<and> ascii_upper (unit_of (hex_digit n)) = unit_of (hex_digit n)
      \<and> ascii_letter (unit_of (lower_char (hex_digit n)))
      \<and> ascii_upper (unit_of (lower_char (hex_digit n))) = unit_of (hex_digit n)" if "n < 16" for n
  proof -
    have "n \<in> {0,1,2,3,4,5,6,7,8,9,10,11,12,13,14,15}" using that by (simp, presburger)
    then show ?thesis
      by (elim insertE emptyE)
         (simp_all add: ascii_letter_def ascii_upper_def unit_of_def hex_digit_def lower_char_def)
  qed
  then show "hex_tables (ascii_ext\<lparr>x_peer := p\<rparr>)" "hex_tables ascii_ext"
    by (simp_all add: hex_tables_def ascii_ext_def)
       (simp_all add: ascii_letter_def unit_of_def)
qed

theorem pin_names_one_certificate_witness:
  "fingerprintMatches ascii_ext (units (fingerprintOf [0xAB, 0x01])) (units ''ab:01'')
   \<and> \<not> fingerprintMatches ascii_ext (units (fingerprintOf [0xAB, 0x02])) (units ''ab:01'')"
proof -
  have "map lower_char (fingerprintOf [0xAB, 0x01]) = ''ab:01''"
    by code_simp
  with pin_names_one_certificate [OF hex_tables_ascii(2), of _ "''ab:01''" "[0xAB, 0x01]"]
  show ?thesis by simp
qed

section \<open>What is sent, and to whom\<close>

definition pin_ok :: "'w ext \<Rightarrow> pbsClient \<Rightarrow> 8 word list \<Rightarrow> bool" where
  "pin_ok E cl digest \<longleftrightarrow> cl_expected cl \<noteq> [] \<and>
     fingerprintMatches E (units (fingerprintOf digest)) (units (cl_expected cl))"

definition tls_accepted :: "'w ext \<Rightarrow> pbsClient \<Rightarrow> 'w sys \<Rightarrow> bool" where
  "tls_accepted E cl w \<longleftrightarrow>
     (case x_peer E (cl_host cl) w of
        NoTlsErrors \<Rightarrow> True
      | TlsErrors None \<Rightarrow> False
      | TlsErrors (Some digest) \<Rightarrow> pin_ok E cl digest \<or> cl_capture cl)"

lemma pbs_request_trace:
  "trace (snd (run_state (pbs_request E req cl) s))
   = trace s @ (if tls_accepted E cl (os s) then [Send req] else [])
   \<and> (\<not> tls_accepted E cl (os s) \<longrightarrow> os (snd (run_state (pbs_request E req cl) s)) = os s
        \<and> snd (fst (run_state (pbs_request E req cl) s)) = failed_reply)"
  by (auto simp: pbs_request_def run_simps tls_accepted_def on_ssl_errors_def pin_ok_def
      split: peer.splits option.splits prod.splits if_splits)

lemma pbs_auth_run:
  "run_state (pbs_auth E host port u pw cl) s =
    (let cl1 = cl\<lparr>cl_host := host, cl_username := u, cl_password := pw, cl_port := port\<rparr>;
         ((cl2, r), s') = run_state (pbs_request E (auth_request E cl1) cl1) s;
         d = json_get ''data'' (y_json r);
         cl3 = cl2\<lparr>cl_ticket := json_str (json_get ''ticket'' d),
                   cl_CSRF := json_str (json_get ''CSRFPreventionToken'' d)\<rparr>
     in ((if y_status r = http_ok then insert_cookie (''PBSAuthCookie'', cl_ticket cl3) cl3 else cl3,
          y_status r), s'))"
  by (simp add: pbs_auth_def Let_def split: prod.splits)

lemma pbs_request_cookies:
  "run_state (pbs_request E req cl) s = ((cl2, r), s') \<Longrightarrow>
   cl_cookies cl2 = cl_cookies cl \<and> cl_host cl2 = cl_host cl \<and> cl_port cl2 = cl_port cl
   \<and> cl_expected cl2 = cl_expected cl \<and> cl_capture cl2 = cl_capture cl"
  by (auto simp: pbs_request_def run_simps on_ssl_errors_def
      split: peer.splits option.splits prod.splits if_splits)

text \<open>
  C28. Against a server whose certificate does not validate by itself (the self-signed rule for
  PBS), \<open>auth\<close> sends the password only if the certificate is the pinned one, or in capture mode;
  without a certificate, a pin or a match nothing is sent, the status is 0 and no cookie is set.
\<close>

theorem auth_needs_pin:
  assumes "x_peer E host (os s) = TlsErrors cert" and "\<not> cl_capture cl"
  shows "let ((cl', status), s') = run_state (pbs_auth E host port u pw cl) s in
    if \<exists>d. cert = Some d \<and> pin_ok E cl d
    then \<exists>r. trace s' = trace s @ [Send r] \<and> r_method r = ''POST''
           \<and> r_body r = x_form E [(''username'', u), (''password'', x_percent E pw)]
    else trace s' = trace s \<and> os s' = os s \<and> status = 0 \<and> cl_cookies cl' = cl_cookies cl"
proof -
  let ?cl = "cl\<lparr>cl_host := host, cl_username := u, cl_password := pw, cl_port := port\<rparr>"
  obtain cl2 r s' where run: "run_state (pbs_request E (auth_request E ?cl) ?cl) s = ((cl2, r), s')"
    by (metis surj_pair)
  have acc: "tls_accepted E ?cl (os s) \<longleftrightarrow> (\<exists>d. cert = Some d \<and> pin_ok E cl d)"
    using assms by (auto simp: tls_accepted_def pin_ok_def split: option.splits)
  have tr: "trace s' = trace s @ (if tls_accepted E ?cl (os s) then [Send (auth_request E ?cl)] else [])
      \<and> (\<not> tls_accepted E ?cl (os s) \<longrightarrow> os s' = os s \<and> r = failed_reply)"
    using pbs_request_trace [of E "auth_request E ?cl" ?cl s] by (simp add: run)
  have req: "r_method (auth_request E ?cl) = ''POST''"
    "r_body (auth_request E ?cl) = x_form E [(''username'', u), (''password'', x_percent E pw)]"
    by (simp_all add: auth_request_def)
  show ?thesis
  proof (cases "tls_accepted E ?cl (os s)")
    case True
    with tr req acc show ?thesis
      by (simp add: pbs_auth_run Let_def run)
  next
    case False
    with tr have "r = failed_reply" by simp
    with False tr acc pbs_request_cookies [OF run] show ?thesis
      by (auto simp: pbs_auth_run Let_def run failed_reply_def http_ok_def)
  qed
qed

definition pbs_peer_ext :: "peer \<Rightarrow> unit ext" where
  "pbs_peer_ext p = ascii_ext\<lparr>x_peer := \<lambda>_ _. p\<rparr>"

theorem auth_needs_pin_witness:
  "trace (snd (run_state (pbs_auth (pbs_peer_ext (TlsErrors (Some [1]))) ''h'' 8007 ''u'' ''p''
      (setExpectedFingerprint ''02'' new_pbsClient)) calm_st)) = []
   \<and> trace (snd (run_state (pbs_auth (pbs_peer_ext (TlsErrors (Some [1]))) ''h'' 8007 ''u'' ''p''
      (setExpectedFingerprint ''01'' new_pbsClient)) calm_st)) \<noteq> []"
proof -
  let ?E = "pbs_peer_ext (TlsErrors (Some [1]))"
  have e: "x_peer ?E ''h'' (os calm_st) = TlsErrors (Some [1])" by (simp add: pbs_peer_ext_def)
  have two: "(2 :: 8 word) \<noteq> 1" by simp
  have hex: "''02'' = concat (map hex_byte [2])" "''01'' = concat (map hex_byte [1])"
    by code_simp+
  have "hex_tables ?E" unfolding pbs_peer_ext_def by (rule hex_tables_ascii)
  from pin_match [OF this, of "[1]"] normalize_spellings [OF this]
  have "\<not> fingerprintMatches ?E (units (fingerprintOf [1])) (units ''02'')"
    and "fingerprintMatches ?E (units (fingerprintOf [1])) (units ''01'')"
    unfolding hex by (metis list.distinct(1) list.inject two)+
  then have "\<not> pin_ok ?E (setExpectedFingerprint ''02'' new_pbsClient) [1]"
    and "pin_ok ?E (setExpectedFingerprint ''01'' new_pbsClient) [1]"
    by (simp_all add: pin_ok_def setExpectedFingerprint_def)
  moreover have "\<not> cl_capture (setExpectedFingerprint p new_pbsClient)" for p
    by (simp add: setExpectedFingerprint_def new_pbsClient_def)
  ultimately show ?thesis
    using auth_needs_pin [OF e, of "setExpectedFingerprint ''02'' new_pbsClient" 8007 "''u''" "''p''"]
      auth_needs_pin [OF e, of "setExpectedFingerprint ''01'' new_pbsClient" 8007 "''u''" "''p''"]
    by (auto simp: calm_st_def split: prod.splits)
qed

text \<open>
  The pin is consulted only when the TLS library reports an error: on a connection without
  one, a certificate that validates against the system's authorities, the request is sent
  whatever the client's pin says, an empty one included.
\<close>

theorem pin_unused_without_tls_errors:
  assumes "x_peer E (cl_host cl) (os s) = NoTlsErrors"
  shows "run_state (pbs_request E req (setExpectedFingerprint fp cl)) s
    = ((setExpectedFingerprint fp cl, fst (x_http E req (os s))),
       s\<lparr>trace := trace s @ [Send req], os := snd (x_http E req (os s))\<rparr>)"
  using assms by (simp add: pbs_request_def run_simps setExpectedFingerprint_def)

theorem pin_unused_without_tls_errors_witness:
  "trace (snd (run_state (pbs_request calm_ext (getNRAuth new_pbsClient ''u'')
      (setExpectedFingerprint [] new_pbsClient)) calm_st)) = [Send (getNRAuth new_pbsClient ''u'')]"
  using pin_unused_without_tls_errors [of calm_ext new_pbsClient calm_st "getNRAuth new_pbsClient ''u''" "[]"]
  by (simp add: calm_defs)

text \<open>
  A login that succeeds gives the client exactly one session cookie, the new ticket, and
  every later request carries it; a login that fails leaves the cookies alone.
\<close>

theorem login_cookie:
  assumes "run_state (pbs_auth E host port u pw cl) s = ((cl', status), s')"
  shows "(if status = http_ok
          then filter (\<lambda>c. fst c = ''PBSAuthCookie'') (r_cookies (getNRAuth cl' url))
                 = [(''PBSAuthCookie'', cl_ticket cl')]
               \<and> filter (\<lambda>c. fst c \<noteq> ''PBSAuthCookie'') (r_cookies (getNRAuth cl' url))
                 = filter (\<lambda>c. fst c \<noteq> ''PBSAuthCookie'') (cl_cookies cl)
          else cl_cookies cl' = cl_cookies cl)
    \<and> cl_host cl' = host \<and> cl_port cl' = port"
proof -
  let ?cl = "cl\<lparr>cl_host := host, cl_username := u, cl_password := pw, cl_port := port\<rparr>"
  obtain cl2 r t where run: "run_state (pbs_request E (auth_request E ?cl) ?cl) s = ((cl2, r), t)"
    by (metis surj_pair)
  show ?thesis
    using assms pbs_request_cookies [OF run]
    by (auto simp: pbs_auth_run Let_def run getNRAuth_def insert_cookie_def filter_empty_conv)
qed

definition login_ext :: "unit ext" where
  "login_ext = calm_ext\<lparr>x_http := \<lambda>_ s. (\<lparr>y_status = 200,
     y_json = JObj [(''data'', JObj [(''ticket'', JStr ''T'')])], y_raw = []\<rparr>, s)\<rparr>"

lemma login_run:
  "fst (run_state (pbs_auth login_ext ''h'' 8007 ''u'' ''p'' new_pbsClient) calm_st)
   = (new_pbsClient\<lparr>cl_host := ''h'', cl_port := 8007, cl_username := ''u'', cl_password := ''p'',
        cl_ticket := ''T'', cl_cookies := [(''PBSAuthCookie'', ''T'')]\<rparr>, 200)"
  by (simp add: pbs_auth_run Let_def pbs_request_def run_simps login_ext_def calm_defs json_get_def
      json_str_def http_ok_def insert_cookie_def new_pbsClient_def)

theorem login_cookie_witness:
  "filter (\<lambda>c. fst c = ''PBSAuthCookie'')
     (r_cookies (getNRAuth (fst (fst (run_state (pbs_auth login_ext ''h'' 8007 ''u'' ''p'' new_pbsClient) calm_st))) ''x''))
   = [(''PBSAuthCookie'', ''T'')]"
proof -
  obtain cl' status s' where
    r: "run_state (pbs_auth login_ext ''h'' 8007 ''u'' ''p'' new_pbsClient) calm_st = ((cl', status), s')"
    by (metis surj_pair)
  with login_run have "status = http_ok" "cl_ticket cl' = ''T''" by (auto simp: http_ok_def)
  with login_cookie [OF r, of "''x''"] r show ?thesis by simp
qed

section \<open>URLs\<close>

lemma toks_plain: "CHR ''%'' \<notin> set p \<Longrightarrow> toks (p @ s) = map Lit p @ toks s"
  by (induction p) auto

lemma marks_append [simp]: "marks (a @ b) = marks a @ marks b"
  by (induction a rule: marks.induct) auto

lemma marks_Lit [simp]: "marks (map Lit p) = []"
  by (induction p) auto

lemma fill_append [simp]: "fill k a (x @ y) = fill k a x @ fill k a y"
  by (induction k a x rule: fill.induct) auto

lemma fill_Lit [simp]: "fill k a (map Lit p) = p"
  by (induction p) auto

lemma toks_mark: "marker t = Some (n, raw, r) \<Longrightarrow> toks (CHR ''%'' # t) = Mark n (CHR ''%'' # raw) # toks r"
  by (simp add: toks.simps(2))

lemma digit_facts:
  "is_digit CHR ''1''" "is_digit CHR ''2''" "is_digit CHR ''3''"
  "digit_val CHR ''1'' = 1" "digit_val CHR ''2'' = 2" "digit_val CHR ''3'' = 3"
  by (simp_all add: is_digit_def digit_val_def)

lemma toks_mark1: "\<not> is_digit c \<Longrightarrow> toks (CHR ''%'' # CHR ''1'' # c # s) = Mark 1 ''%1'' # toks (c # s)"
  by (rule toks_mark) (simp add: marker_def digit_facts)

lemma toks_mark2: "\<not> is_digit c \<Longrightarrow> toks (CHR ''%'' # CHR ''2'' # c # s) = Mark 2 ''%2'' # toks (c # s)"
  by (rule toks_mark) (simp add: marker_def digit_facts)

lemma toks_mark3: "toks ''%3'' = [Mark 3 ''%3'']"
  using toks_mark [of "''3''" 3 "''3''" "[]"] by (simp add: marker_def digit_facts)

text \<open>
  The URLs have the documented shape: for a host without percent signs \<open>genPBSAPIPath\<close>
  joins scheme, host, port and path, with the path, whatever it contains, put in last and not
  searched for markers.
\<close>

theorem api_url:
  assumes "CHR ''%'' \<notin> set (cl_host cl)"
  shows "genPBSAPIPath cl path
    = ''https://'' @ cl_host cl @ '':'' @ show_int (sint (cl_port cl)) @ ''/api2/'' @ path"
proof -
  let ?port = "show_int (sint (cl_port cl))"
  have port: "CHR ''%'' \<notin> set ?port"
    using show_nat_no_space [of "CHR ''%''"] by (auto simp: show_int_def is_digit_def)
  have nd: "\<not> is_digit CHR '':''" "\<not> is_digit CHR ''/''" by (simp_all add: is_digit_def)
  have 1: "q_arg ''https://%1:%2/api2/%3'' (cl_host cl) = ''https://'' @ cl_host cl @ '':%2/api2/%3''"
  proof -
    have "toks ''https://%1:%2/api2/%3'' = map Lit ''https://'' @ [Mark 1 ''%1'', Lit CHR '':'', Mark 2 ''%2'']
        @ map Lit ''/api2/'' @ [Mark 3 ''%3'']"
      by (simp add: toks_mark1 toks_mark2 toks_mark3 nd)
    then show ?thesis by (simp add: q_arg_def Let_def)
  qed
  have 2: "q_arg (''https://'' @ cl_host cl @ '':%2/api2/%3'') ?port
      = ''https://'' @ cl_host cl @ '':'' @ ?port @ ''/api2/%3''"
  proof -
    have "toks ('':%2/api2/%3'') = [Lit CHR '':'', Mark 2 ''%2''] @ map Lit ''/api2/'' @ [Mark 3 ''%3'']"
      by (simp add: toks_mark2 toks_mark3 nd)
    then have "toks (''https://'' @ cl_host cl @ '':%2/api2/%3'')
        = map Lit (''https://'' @ cl_host cl) @ [Lit CHR '':'', Mark 2 ''%2''] @ map Lit ''/api2/'' @ [Mark 3 ''%3'']"
      using toks_plain [of "''https://'' @ cl_host cl" "'':%2/api2/%3''"] assms by simp
    then show ?thesis by (simp add: q_arg_def Let_def)
  qed
  have 3: "q_arg (''https://'' @ cl_host cl @ '':'' @ ?port @ ''/api2/%3'') path
      = ''https://'' @ cl_host cl @ '':'' @ ?port @ ''/api2/'' @ path"
  proof -
    have "toks (''https://'' @ cl_host cl @ '':'' @ ?port @ ''/api2/%3'')
        = map Lit (''https://'' @ cl_host cl @ '':'' @ ?port @ ''/api2/'') @ [Mark 3 ''%3'']"
      using toks_plain [of "''https://'' @ cl_host cl @ '':'' @ ?port @ ''/api2/''" "''%3''"] assms port
      by (simp add: toks_mark3)
    then show ?thesis by (simp add: q_arg_def Let_def)
  qed
  show ?thesis by (simp only: genPBSAPIPath_def 1 2 3)
qed

lemma show_8007: "show_int 8007 = ''8007''"
  by (simp add: show_int_def show_nat.simps digit_def, code_simp)

theorem api_url_witness:
  "genPBSAPIPath (new_pbsClient\<lparr>cl_host := ''pbs'', cl_port := 8007\<rparr>) ''json/a%1''
   = ''https://pbs:8007/api2/json/a%1''"
  using api_url [of "new_pbsClient\<lparr>cl_host := ''pbs'', cl_port := 8007\<rparr>" "''json/a%1''"]
  using show_8007 by simp

end
