(* ===== verification/PbsRestore.thy ===== *)
theory PbsRestore
  imports Rsync PbsClient
begin

text \<open>
  The PBS part of \<open>tiBackupJob::startBackup\<close>: for each backup id the newest snapshot is looked up,
  its images are restored with \<open>proxmox-backup-client\<close>, packed and cleaned away. Reading
  \<open>vmImages[0]\<close> of an empty list is undefined in C++ and ends the model's run: \<open>None\<close>.
\<close>

section \<open>Snapshots and files\<close>

definition json_int :: "json \<Rightarrow> int" where
  "json_int j = (case j of JNum n \<Rightarrow> if - (2 ^ 31) \<le> n \<and> n < 2 ^ 31 then n else 0 | _ \<Rightarrow> 0)"

definition json_arr :: "json \<Rightarrow> json list" where
  "json_arr j = (case j of JArr l \<Rightarrow> l | _ \<Rightarrow> [])"

definition snap_time :: "json \<Rightarrow> int" where
  "snap_time snap = json_int (json_get ''backup-time'' snap)"

definition newest :: "json list \<Rightarrow> nat" where
  "newest snapshots =
     fst (foldl (\<lambda>(li, lb) (i, snap). if lb < snap_time snap then (i, snap_time snap) else (li, lb))
            (0, 0) (List.enumerate 0 snapshots))"

text \<open>The first group of \<open>^(.*?)\.[^.]*$\<close>: what precedes the last dot, or nothing without a dot.\<close>

definition strip_ext :: "string \<Rightarrow> string" where
  "strip_ext s = rev (drop 1 (dropWhile (\<lambda>c. c \<noteq> CHR ''.'') (rev s)))"

section \<open>Restoring the files of a snapshot\<close>

record restore =
  rs_log :: tiBackupJobPBSLog
  rs_conf :: string
  rs_images :: "string list"
  rs_err :: bool

definition add_errmsg :: "string \<Rightarrow> tiBackupJobPBSLog \<Rightarrow> tiBackupJobPBSLog" where
  "add_errmsg m l = l\<lparr>pbslog_errmsg := pbslog_errmsg l @ m\<rparr>"

definition add_msg :: "string \<Rightarrow> tiBackupJobPBSLog \<Rightarrow> tiBackupJobPBSLog" where
  "add_msg m l = l\<lparr>pbslog_msg := pbslog_msg l @ m\<rparr>"

definition restore_env :: "tiBackupJob \<Rightarrow> PBServer \<Rightarrow> (string \<times> string) list" where
  "restore_env job pb =
     [(''PBS_REPOSITORY'', pb_username pb @ ''@'' @ pb_host pb @ '':'' @ pbs_server_storage job),
      (''PBS_PASSWORD'', pb_password pb), (''PBS_FINGERPRINT'', pb_fingerprint pb),
      (''PROXMOX_OUTPUT_FORMAT'', ''json'')]
     @ (if pb_keypass pb \<noteq> [] then [(''PBS_ENCRYPTION_PASSWORD'', pb_keypass pb)] else [])"

text \<open>
  The restore command. A configured key file that is missing is recorded as an error, and the
  command runs without it.
\<close>

definition key_args :: "PBServer \<Rightarrow> restore \<Rightarrow> (('w, 'z) st_scheme, string list \<times> restore) state" where
  "key_args pb rs =
     (if pb_keyfile pb = [] then State_Monad.return ([], rs)
      else do {
        ex \<leftarrow> asks (\<lambda>s. path_exists s (pb_keyfile pb));
        if ex then State_Monad.return ([''--keyfile'', pb_keyfile pb], rs)
        else do {
          let errmsg = ''Encryption file '' @ pb_keyfile pb @ '' not found!'';
          say errmsg;
          State_Monad.return ([], rs\<lparr>rs_log := add_errmsg (errmsg @ '', '') (rs_log rs), rs_err := True\<rparr>) } })"

definition restore_run ::
  "'w ext \<Rightarrow> tiBackupJob \<Rightarrow> PBServer \<Rightarrow> string \<Rightarrow> string \<Rightarrow> string \<Rightarrow> restore \<Rightarrow> (('w, 'z) st_scheme, restore) state" where
  "restore_run E job pb vmdir respec name rs = do {
     let target = vmdir @ ''/'' @ name;
     ex \<leftarrow> asks (\<lambda>s. path_exists s target);
     whenM ex (do { say (''File '' @ name @ '' already exists on target, deleting''); delete_file target });
     (keyargs, rs1) \<leftarrow> key_args pb rs;
     let startargs = [''restore'', respec, name, target] @ keyargs;
     say (''Start PBS backup cmd: proxmox-backup-client '' @ join '','' startargs);
     r \<leftarrow> run_cmd E (ArgvEnv ''proxmox-backup-client'' startargs (restore_env job pb));
     if p_code r = 0
     then do { say (''Successful backup for '' @ respec @ name @ p_out r); State_Monad.return rs1 }
     else do {
       say (''Failed backup for '' @ respec @ name @ p_out r);
       State_Monad.return (rs1\<lparr>rs_log := add_errmsg (p_out r @ '', '') (rs_log rs1), rs_err := True\<rparr>) } }"

definition restore_one ::
  "'w ext \<Rightarrow> tiBackupJob \<Rightarrow> PBServer \<Rightarrow> string \<Rightarrow> string \<Rightarrow> string \<Rightarrow> restore \<Rightarrow>
   (('w, 'z) st_scheme, restore) state" where
  "restore_one E job pb vmdir respec orig_name rs = do {
     let name = strip_ext orig_name;
     say (''Backup restore :: '' @ name @ '' orig::'' @ orig_name);
     if endsWith name ''.conf''
     then restore_run E job pb vmdir respec name (rs\<lparr>rs_conf := name\<rparr>)
     else if endsWith name ''.pxar'' \<or> endsWith name ''.img''
     then restore_run E job pb vmdir respec name (rs\<lparr>rs_images := rs_images rs @ [name]\<rparr>)
     else do { say (''File '' @ name @ '' not needed, skipping''); State_Monad.return rs } }"

fun restore_all ::
  "'w ext \<Rightarrow> tiBackupJob \<Rightarrow> PBServer \<Rightarrow> string \<Rightarrow> string \<Rightarrow> json list \<Rightarrow> restore \<Rightarrow> (('w, 'z) st_scheme, restore) state" where
  "restore_all E job pb vmdir respec [] rs = State_Monad.return rs"
| "restore_all E job pb vmdir respec (f # fs) rs = do {
     rs' \<leftarrow> restore_one E job pb vmdir respec (json_str (json_get ''filename'' f)) rs;
     restore_all E job pb vmdir respec fs rs' }"

section \<open>Packing\<close>

text \<open>\<open>QDir::entryList\<close> matches its patterns, and sorts, without regard to case.\<close>

definition entry_list :: "string \<Rightarrow> string \<Rightarrow> 'w sys \<Rightarrow> string list" where
  "entry_list base pre s =
     sort_key toLower (filter (\<lambda>p. startsWith (toLower (drop (length base + 1) p)) (toLower pre)) (dir_entries base s))"

definition remove_old :: "string \<Rightarrow> string \<Rightarrow> (('w, 'z) st_scheme, unit) state" where
  "remove_old base pre = do {
     fs \<leftarrow> asks (entry_list base pre);
     for_each fs delete_file }"

definition size_gb :: "int \<Rightarrow> string" where
  "size_gb n = show_int (n div 1024 div 1024 div 1024) @ ''.00''"

definition archived_msg :: "string list \<Rightarrow> string \<Rightarrow> int \<Rightarrow> string" where
  "archived_msg images outName n =
     q_arg (''Successful backup, files: '' @ join '' '' images @ '', archive: '' @ outName @ '' (Size: %3GB)'') (size_gb n)"

definition check_archive ::
  "'w ext \<Rightarrow> string \<Rightarrow> string \<Rightarrow> string list \<Rightarrow> string \<Rightarrow> tiBackupJobPBSLog \<Rightarrow> (('w, 'z) st_scheme, tiBackupJobPBSLog) state" where
  "check_archive E outPath outName images empty_msg log = do {
     n \<leftarrow> asks (x_filesize E outPath);
     if 1000 < n
     then do { let msg = archived_msg images outName n; say msg; State_Monad.return (add_msg msg log) }
     else do { say (empty_msg @ outName); State_Monad.return (add_errmsg (empty_msg @ outName) log) } }"

definition package_vm ::
  "'w ext \<Rightarrow> string \<Rightarrow> string \<Rightarrow> int \<Rightarrow> string \<Rightarrow> string list \<Rightarrow> tiBackupJobPBSLog \<Rightarrow>
   (('w, 'z) st_scheme, tiBackupJobPBSLog) state" where
  "package_vm E base vmID t vmConf vmImages log = do {
     let imageArgs = map (\<lambda>img. hd (split_on CHR ''.'' img) @ ''='' @ base @ ''/'' @ img) vmImages;
     remove_old base ''vzdump-qemu-'';
     say ''Start compressing VM'';
     let outName = ''vzdump-qemu-'' @ vmID @ ''-'' @ x_utc E ''yyyy_MM_dd-hh_mm_ss'' t @ ''.vma.zst'';
     let vmConfPath = base @ ''/'' @ vmConf;
     let outPath = base @ ''/'' @ outName;
     let vmaArgs = [''create'', ''/dev/stdout'', ''-c'', vmConfPath] @ imageArgs;
     say (''Execute VMA-ZStd: vma '' @ join '' '' vmaArgs @ '' | zstd -f -3 -T4 -o '' @ outPath);
     let zstdArgs = [''-f'', ''-3'', ''-T4'', ''-o'', outPath];
     emit (ExecPipe ''vma'' vmaArgs ''zstd'' zstdArgs);
     r \<leftarrow> change (x_pipe E ''vma'' vmaArgs ''zstd'' zstdArgs);
     if pipe_normal1 r \<and> pipe_code1 r = 0 \<and> pipe_normal2 r \<and> pipe_code2 r = 0
     then check_archive E outPath outName vmImages
            ''Failed backup, compression or packaging produced an empty archive: '' log
     else do {
       let msg = q_arg (q_arg (q_arg ''Compression or packaging failed for %1 (vma exit %2, zstd exit %3)'' outName)
                   (show_int (pipe_code1 r))) (show_int (pipe_code2 r));
       say msg;
       State_Monad.return (add_errmsg msg log) } }"

text \<open>\<open>QFile::copy\<close> does not overwrite.\<close>

definition file_copy :: "string \<Rightarrow> string \<Rightarrow> 'w sys \<Rightarrow> unit \<times> 'w sys" where
  "file_copy a b s = ((), case file_at s a of
     None \<Rightarrow> s | Some f \<Rightarrow> if path_exists s b then s else file_write b (f_body f) s)"

definition package_ct ::
  "'w ext \<Rightarrow> string \<Rightarrow> string \<Rightarrow> int \<Rightarrow> string \<Rightarrow> string list \<Rightarrow> tiBackupJobPBSLog \<Rightarrow>
   (('w, 'z) st_scheme, tiBackupJobPBSLog option) state" where
  "package_ct E base vmID t vmConf vmImages log =
     (case vmImages of
        [] \<Rightarrow> State_Monad.return None
      | img # _ \<Rightarrow> do {
          let outName = ''vzdump-lxc-'' @ vmID @ ''-'' @ x_utc E ''yyyy_MM_dd-hh_mm_ss'' t @ ''.tar.zst'';
          let imgDir = base @ ''/'' @ img;
          make_path (imgDir @ ''/etc/vzdump/'');
          emit (CopyFile (base @ ''/'' @ vmConf) (imgDir @ ''/etc/vzdump/'' @ vmConf));
          change (file_copy (base @ ''/'' @ vmConf) (imgDir @ ''/etc/vzdump/'' @ vmConf));
          remove_old base ''vzdump-lxc-'';
          say ''Start compressing CT'';
          let tarPath = base @ ''/ct.tar'';
          let outPath = base @ ''/'' @ outName;
          tar \<leftarrow> run_cmd E (Argv ''tar'' [''-C'', imgDir, ''-cf'', tarPath, ''.'']);
          if p_code tar = 0
          then do {
            zst \<leftarrow> run_cmd E (Argv ''zstd'' [''-f'', ''-3'', ''-T4'', ''--rm'', tarPath, ''-o'', outPath]);
            if p_code zst = 0
            then do {
              l \<leftarrow> check_archive E outPath outName vmImages ''Failed backup, compression produced an empty archive: '' log;
              State_Monad.return (Some l) }
            else do {
              let msg = ''Compression failed for '' @ outName @ '' (zstd)'';
              say msg; State_Monad.return (Some (add_errmsg msg log)) } }
          else do {
            let msg = ''Packaging failed for '' @ outName @ '' (tar)'';
            say msg; State_Monad.return (Some (add_errmsg msg log)) } })"

definition delete_tree :: "string \<Rightarrow> (('w, 'z) st_scheme, unit) state" where
  "delete_tree p = do {
     emit (DeleteTree p);
     change (\<lambda>s. ((), s\<lparr>files := filter (\<lambda>e. \<not> prefix (p @ ''/'') (fst e)) (files s),
                        dirs := {d \<in> dirs s. d \<noteq> p \<and> \<not> prefix (p @ ''/'') d}\<rparr>)) }"

definition cleanup :: "string \<Rightarrow> string \<Rightarrow> string \<Rightarrow> string list \<Rightarrow> (('w, 'z) st_scheme, unit) state" where
  "cleanup vmType vmdir vmConf vmImages = do {
     delete_file (vmdir @ ''/'' @ vmConf);
     for_each vmImages (\<lambda>image.
       if vmType = ''ct''
       then do { delete_tree (vmdir @ ''/'' @ image); say (''Cleanup, remove dir '' @ vmdir @ ''/'' @ image) }
       else do { delete_file (vmdir @ ''/'' @ image); say (''Cleanup, remove file '' @ vmdir @ ''/'' @ image) }) }"

section \<open>One backup id\<close>

text \<open>
  The result: the client, and whether the run goes on. A snapshot whose files could not all be
  restored leaves the iteration by \<open>continue\<close>, before the log entry is appended.
\<close>

definition restore_snapshot ::
  "'w ext \<Rightarrow> tiBackupJob \<Rightarrow> PBServer \<Rightarrow> string \<Rightarrow> string \<Rightarrow> string \<Rightarrow> string \<Rightarrow> json list \<Rightarrow>
   tiBackupJobPBSLog \<Rightarrow> (('w, 'z) bst_scheme, bool) state" where
  "restore_snapshot E job pb groupid vmType vmID vmdir snapshots log = do {
     let snap = snapshots ! newest snapshots;
     let t = snap_time snap;
     let iso = x_utc E ''ISODate'' t;
     say (''Newest backup file for'' @ groupid @ '' from '' @ iso);
     rs \<leftarrow> restore_all E job pb vmdir (groupid @ ''/'' @ iso) (json_arr (json_get ''files'' snap))
             \<lparr>rs_log = log, rs_conf = [], rs_images = [], rs_err = False\<rparr>;
     if rs_err rs
     then do { say ''Error processing proxmox-backup-client, check logs for details!''; State_Monad.return True }
     else do {
       packed \<leftarrow> (if vmType = ''vm''
                  then do { l \<leftarrow> package_vm E vmdir vmID t (rs_conf rs) (rs_images rs) (rs_log rs); State_Monad.return (Some l) }
                  else package_ct E vmdir vmID t (rs_conf rs) (rs_images rs) (rs_log rs));
       case packed of
         None \<Rightarrow> State_Monad.return False
       | Some l \<Rightarrow> do {
           cleanup vmType vmdir (rs_conf rs) (rs_images rs);
           pbs_log l;
           State_Monad.return True } } }"

text \<open>An id of which there is nothing to restore: the reason is a message, and the log entry stays empty.\<close>

definition pbs_no_result :: "tiBackupJobPBSLog \<Rightarrow> string \<Rightarrow> (('w, 'z) bst_scheme, unit) state" where
  "pbs_no_result log msg = do { pbs_msg msg; say msg; pbs_log log }"

definition pbs_one ::
  "'w ext \<Rightarrow> tiBackupJob \<Rightarrow> PBServer \<Rightarrow> string \<Rightarrow> string \<Rightarrow> pbsClient \<Rightarrow> (('w, 'z) bst_scheme, pbsClient \<times> bool) state" where
  "pbs_one E job pb mountDir groupid cl =
     (let pbs_id = split_on CHR ''/'' groupid in
      if length pbs_id < 2 \<or> pbs_id ! 0 = [] \<or> pbs_id ! 1 = []
      then do { say (''Skipping malformed PBS backup id: '' @ groupid); State_Monad.return (cl, True) }
      else if pbs_id ! 0 \<noteq> ''vm'' \<and> pbs_id ! 0 \<noteq> ''ct''
      then do {
        say (''Skipping unsupported PBS backup type '' @ quot (pbs_id ! 0) @ '' for id '' @ groupid);
        State_Monad.return (cl, True) }
      else do {
        let vmdir = convertGeneric2Path (pbs_dest_folder job) mountDir @ ''/'' @ pbs_id ! 1;
        make_path vmdir;
        let log = \<lparr>pbslog_vmid = groupid, pbslog_msg = [], pbslog_errmsg = []\<rparr>;
        say (''PBS Backup: Start backup for id '' @ groupid @ '' to path '' @ vmdir);
        (cl1, _) \<leftarrow> pbs_auth E (pb_host pb) (pb_port pb) (pb_username pb) (pb_password pb) cl;
        (cl2, ret) \<leftarrow> getDatastoreSnapshots E (pbs_server_storage job) (pbs_id ! 1) (pbs_id ! 0) cl1;
        if y_status ret = http_ok
        then (let snapshots = json_arr (json_get ''data'' (y_json ret)) in
          if 0 < length snapshots
          then do {
            alive \<leftarrow> restore_snapshot E job pb groupid (pbs_id ! 0) (pbs_id ! 1) vmdir snapshots log;
            State_Monad.return (cl2, alive) }
          else do {
            pbs_no_result log (''VM-ID '' @ groupid @ '' has no backups, skipping'');
            State_Monad.return (cl2, True) })
        else do {
          pbs_no_result log (''PBS datastore listing for '' @ groupid @ '' not successful'');
          State_Monad.return (cl2, True) } })"

fun pbs_all ::
  "'w ext \<Rightarrow> tiBackupJob \<Rightarrow> PBServer \<Rightarrow> string \<Rightarrow> string list \<Rightarrow> pbsClient \<Rightarrow> (('w, 'z) bst_scheme, bool) state" where
  "pbs_all E job pb mountDir [] cl = State_Monad.return True"
| "pbs_all E job pb mountDir (g # gs) cl = do {
     (cl', alive) \<leftarrow> pbs_one E job pb mountDir g cl;
     if alive then pbs_all E job pb mountDir gs cl' else State_Monad.return False }"

section \<open>The whole PBS part\<close>

definition http_bad_request :: int where "http_bad_request = code_of BadRequest"

definition pbs_fail :: "string \<Rightarrow> (('w, 'z) bst_scheme, bool) state" where
  "pbs_fail msg = do { pbs_msg msg; say msg; State_Monad.return True }"

definition pbs_refused :: "tiBackupJob \<Rightarrow> PBServer \<Rightarrow> (('w, 'z) bst_scheme, bool) state" where
  "pbs_refused job pb =
     pbs_fail (if pb_fingerprint pb = []
       then ''PBS '' @ pb_name pb @ '' ('' @ pb_host pb @ '') has no pinned TLS fingerprint; run ''
            @ quot ''Test connection'' @ '' and save it first''
       else ''PBS '' @ pbs_server_uuid job @ '' auth not successful'')"

definition pbs_backup ::
  "'w ext \<Rightarrow> tiConfMain \<Rightarrow> tiBackupJob \<Rightarrow> string \<Rightarrow> (('w, 'z) bst_scheme, bool) state" where
  "pbs_backup E C job mountDir =
     (if \<not> pbs job then State_Monad.return True
      else do {
        link \<leftarrow> asks (x_symlink E ''/dev/stdout'');
        if \<not> link
        then pbs_fail ''File /dev/stdout is not a symlink, system integrity error! Cannot start PBS backup!''
        else do {
          pbOpt \<leftarrow> asks (pb_getItemByUuid E (to_text (getValue C ''paths/pbservers'')) (pbs_server_uuid job));
          case pbOpt of
            None \<Rightarrow> pbs_fail (''PBS '' @ pbs_server_uuid job @ '' not found in config'')
          | Some pb \<Rightarrow> do {
              let cl0 = setExpectedFingerprint (pb_fingerprint pb) new_pbsClient;
              (cl, status) \<leftarrow> (if pb_fingerprint pb = [] then State_Monad.return (cl0, http_bad_request)
                 else pbs_auth E (pb_host pb) (pb_port pb) (pb_username pb) (pb_password pb) cl0);
              if status = http_ok
              then pbs_all E job pb mountDir (pbs_backup_ids job) cl
              else pbs_refused job pb } } })"

section \<open>Which snapshot\<close>

lemma newest_fold:
  assumes "foldl (\<lambda>(li, lb) (i, snap). if lb < snap_time snap then (i, snap_time snap) else (li, lb))
    (li0, lb0) (List.enumerate k ss) = (li, lb)"
  shows "lb0 \<le> lb \<and> (\<forall>x \<in> set ss. snap_time x \<le> lb) \<and>
    (if lb = lb0 then li = li0
     else \<exists>j < length ss. li = k + j \<and> snap_time (ss ! j) = lb \<and> (\<forall>i < j. snap_time (ss ! i) < lb))"
  using assms
proof (induction ss arbitrary: li0 lb0 k)
  case Nil
  then show ?case by simp
next
  case (Cons x ss)
  show ?case
  proof (cases "lb0 < snap_time x")
    case True
    with Cons.prems have "foldl (\<lambda>(li, lb) (i, snap). if lb < snap_time snap then (i, snap_time snap) else (li, lb))
      (k, snap_time x) (List.enumerate (Suc k) ss) = (li, lb)" by simp
    from Cons.IH [OF this] have IH: "snap_time x \<le> lb" "\<forall>y \<in> set ss. snap_time y \<le> lb"
      "if lb = snap_time x then li = k else \<exists>j < length ss. li = Suc k + j \<and> snap_time (ss ! j) = lb
        \<and> (\<forall>i < j. snap_time (ss ! i) < lb)" by blast+
    show ?thesis
    proof (cases "lb = snap_time x")
      case True
      with IH \<open>lb0 < snap_time x\<close> show ?thesis by (auto intro!: exI [of _ 0])
    next
      case False
      with IH obtain j where j: "j < length ss" "li = Suc k + j" "snap_time (ss ! j) = lb" "\<forall>i < j. snap_time (ss ! i) < lb"
        by auto
      have "\<forall>i < Suc j. snap_time ((x # ss) ! i) < lb"
        using j(4) IH(1) False by (auto simp: nth_Cons split: nat.split)
      with j IH \<open>lb0 < snap_time x\<close> show ?thesis by (auto intro!: exI [of _ "Suc j"])
    qed
  next
    case False
    with Cons.prems have "foldl (\<lambda>(li, lb) (i, snap). if lb < snap_time snap then (i, snap_time snap) else (li, lb))
      (li0, lb0) (List.enumerate (Suc k) ss) = (li, lb)" by simp
    from Cons.IH [OF this] have IH: "lb0 \<le> lb" "\<forall>y \<in> set ss. snap_time y \<le> lb"
      "if lb = lb0 then li = li0 else \<exists>j < length ss. li = Suc k + j \<and> snap_time (ss ! j) = lb
        \<and> (\<forall>i < j. snap_time (ss ! i) < lb)" by blast+
    show ?thesis
    proof (cases "lb = lb0")
      case True
      with IH False show ?thesis by auto
    next
      case neq: False
      with IH obtain j where j: "j < length ss" "li = Suc k + j" "snap_time (ss ! j) = lb" "\<forall>i < j. snap_time (ss ! i) < lb"
        by auto
      have "\<forall>i < Suc j. snap_time ((x # ss) ! i) < lb"
        using j(4) IH(1) neq False by (auto simp: nth_Cons split: nat.split)
      with j IH neq False show ?thesis by (auto intro!: exI [of _ "Suc j"])
    qed
  qed
qed

text \<open>
  C24. The snapshot that is restored is the newest one: if any snapshot has a positive time that
  fits an \<open>int\<close>, the index found is in range, no snapshot is newer, and of several equally new
  ones it is the first; otherwise it is the first of all.
\<close>

theorem newest_snapshot:
  assumes "snapshots \<noteq> []"
  shows "newest snapshots < length snapshots
    \<and> (if \<exists>x \<in> set snapshots. 0 < snap_time x
       then (\<forall>x \<in> set snapshots. snap_time x \<le> snap_time (snapshots ! newest snapshots))
          \<and> (\<forall>i < newest snapshots. snap_time (snapshots ! i) < snap_time (snapshots ! newest snapshots))
       else newest snapshots = 0)"
proof -
  obtain li lb where f: "foldl (\<lambda>(li, lb) (i, snap). if lb < snap_time snap then (i, snap_time snap) else (li, lb))
      (0, 0) (List.enumerate 0 snapshots) = (li, lb)" by fastforce
  then have "newest snapshots = li" by (simp add: newest_def)
  show ?thesis
  proof (cases "lb = 0")
    case True
    with newest_fold [OF f] \<open>newest snapshots = li\<close> assms show ?thesis by (auto simp: not_less)
  next
    case False
    with newest_fold [OF f] \<open>newest snapshots = li\<close> have
      n: "newest snapshots < length snapshots" "snap_time (snapshots ! newest snapshots) = lb" "0 < lb"
        "\<forall>i < newest snapshots. snap_time (snapshots ! i) < lb" "\<forall>x \<in> set snapshots. snap_time x \<le> lb"
      by auto
    then have "\<exists>x \<in> set snapshots. 0 < snap_time x" by (metis nth_mem)
    with n show ?thesis by simp
  qed
qed

definition snap_json :: "int \<Rightarrow> json" where
  "snap_json t = JObj [(''backup-time'', JNum t)]"

theorem newest_snapshot_witness:
  "newest (map snap_json [5, 9, 7, 9]) = 1 \<and> newest (map snap_json [5, 9, 7, 9]) < 4"
  using newest_snapshot [of "map snap_json [5, 9, 7, 9]"]
  by (simp add: newest_def snap_time_def snap_json_def json_get_def json_int_def)

text \<open>A time past the range of \<open>int\<close>, from January 2038 on, reads as 0, and so is never the newest.\<close>

lemma snap_time_2038: "2 ^ 31 \<le> t \<Longrightarrow> snap_time (snap_json t) = 0"
  by (simp add: snap_time_def snap_json_def json_get_def json_int_def)

lemma strip_ext_dot: "CHR ''.'' \<notin> set b \<Longrightarrow> strip_ext (a @ ''.'' @ b) = a"
  by (simp add: strip_ext_def dropWhile_append)

lemma strip_ext_no_dot: "CHR ''.'' \<notin> set s \<Longrightarrow> strip_ext s = []"
proof -
  assume "CHR ''.'' \<notin> set s"
  then have "dropWhile (\<lambda>c. c \<noteq> CHR ''.'') (rev s) = []" by (auto simp: dropWhile_eq_Nil_conv)
  then show ?thesis unfolding strip_ext_def by (simp only: drop_Nil rev.simps)
qed

section \<open>What is contacted and run\<close>

text \<open>
  C26. The PBS part of a job never talks to a server without a pinned fingerprint: if the part is
  disabled, \<open>/dev/stdout\<close> is no link, the server is unknown or its fingerprint is empty, no
  request is sent, no program is started and nothing is changed; but for the disabled case the
  reason is kept for the report.
\<close>

theorem pbs_needs_pinned_server:
  assumes "run_state (pbs_backup E C job d) s = (alive, s')"
    and "pb_getItemByUuid E (to_text (getValue C ''paths/pbservers'')) (pbs_server_uuid job) (os s) = sv"
    and "\<not> pbs job \<or> \<not> x_symlink E ''/dev/stdout'' (os s) \<or> sv = None
      \<or> (\<exists>p. sv = Some p \<and> pb_fingerprint p = [])"
  shows "alive \<and> (if pbs job
    then \<exists>msg. s' = s\<lparr>pbs_msgs := pbs_msgs s @ [msg], trace := trace s @ [Log msg]\<rparr>
    else s' = s)"
  using assms
  by (auto simp: pbs_backup_def pbs_refused_def pbs_fail_def pbs_msg_def say_def run_simps http_bad_request_def http_ok_def
      split: if_splits option.splits)

theorem pbs_needs_pinned_server_witness:
  "\<exists>msg. trace (snd (run_state (pbs_backup (calm_ext\<lparr>x_symlink := \<lambda>_ _. True\<rparr>) empty_conf
      (plain_job ''j''\<lparr>pbs := True\<rparr>) ''/m'') calm_bst)) = [Log msg]"
proof -
  let ?E = "calm_ext\<lparr>x_symlink := \<lambda>_ _. True\<rparr>" and ?job = "plain_job ''j''\<lparr>pbs := True\<rparr>"
  let ?r = "run_state (pbs_backup ?E empty_conf ?job ''/m'') calm_bst"
  have none: "pb_getItemByUuid ?E (to_text (getValue empty_conf ''paths/pbservers'')) (pbs_server_uuid ?job) (os calm_bst) = None"
    by (simp add: pb_getItemByUuid_def pb_getItems_def read_settings_def conf_files_def dir_entries_def
        calm_bst_def calm_sys_def)
  have "?r = (fst ?r, snd ?r)" by simp
  from pbs_needs_pinned_server [OF this none] show ?thesis
    by (auto simp: plain_job_def calm_bst_def)
qed

definition pbs_event :: "tiBackupJob \<Rightarrow> PBServer \<Rightarrow> event \<Rightarrow> bool" where
  "pbs_event job pb e \<longleftrightarrow>
     (case e of
        Exec c \<Rightarrow> (\<exists>respec name target key. c = ArgvEnv ''proxmox-backup-client''
                      ([''restore'', respec, name, target] @ key) (restore_env job pb)
                      \<and> key \<in> {[], [''--keyfile'', pb_keyfile pb]})
                  \<or> (\<exists>args. c = Argv ''tar'' args) \<or> (\<exists>args. c = Argv ''zstd'' args)
      | ExecPipe p1 _ p2 _ \<Rightarrow> p1 = ''vma'' \<and> p2 = ''zstd''
      | Smtp _ \<Rightarrow> False
      | _ \<Rightarrow> True)"

lemma emits_pbs_request [emits_intros]: "(\<And>r. P (Send r)) \<Longrightarrow> emits P (pbs_request E req cl)"
  unfolding pbs_request_def by (intro emits_intros) auto

lemma emits_pbs_calls [emits_intros]:
  assumes "\<And>r. P (Send r)"
  shows "emits P (pbs_auth E h p u w cl)" "emits P (getDatastoreSnapshots E ds i ty cl)"
  unfolding pbs_auth_def getDatastoreSnapshots_def by (intro emits_intros assms)+

lemma emits_restore_run: "emits (pbs_event job pb) (restore_run E job pb vmdir respec name rs)"
proof -
  have key: "emits (pbs_event job pb) (key_args pb rs)"
    unfolding key_args_def by (intro emits_intros) (auto simp: pbs_event_def)
  have cont: "emits (pbs_event job pb) (case fst (run_state (key_args pb rs) s) of (keyargs, rs1) \<Rightarrow> do {
      let startargs = [''restore'', respec, name, vmdir @ ''/'' @ name] @ keyargs;
      say (''Start PBS backup cmd: proxmox-backup-client '' @ join '','' startargs);
      r \<leftarrow> run_cmd E (ArgvEnv ''proxmox-backup-client'' startargs (restore_env job pb));
      if p_code r = 0
      then do { say (''Successful backup for '' @ respec @ name @ p_out r); State_Monad.return rs1 }
      else do {
        say (''Failed backup for '' @ respec @ name @ p_out r);
        State_Monad.return (rs1\<lparr>rs_log := add_errmsg (p_out r @ '', '') (rs_log rs1), rs_err := True\<rparr>) } })" for s
  proof -
    obtain ka rs1 where k: "fst (run_state (key_args pb rs) s) = (ka, rs1)" by fastforce
    moreover have "ka \<in> {[], [''--keyfile'', pb_keyfile pb]}"
      using k by (auto simp: key_args_def run_simps say_def split: if_splits)
    ultimately show ?thesis
      by (auto simp only: prod.case) (intro emits_intros; auto simp: pbs_event_def)+
  qed
  show ?thesis
    unfolding restore_run_def Let_def
    by (rule emits_bind emits_asks emits_whenM emits_say emits_delete_file emits_bind_range key
        cont [unfolded Let_def] | simp add: pbs_event_def)+
qed

lemma emits_restore_all: "emits (pbs_event job pb) (restore_all E job pb vmdir respec fs rs)"
proof (induction fs arbitrary: rs)
  case Nil
  show ?case by (simp add: emits_return)
next
  case (Cons f fs)
  have "emits (pbs_event job pb) (restore_one E job pb vmdir respec n rs)" for n
    unfolding restore_one_def Let_def
    by (intro emits_intros emits_restore_run) (auto simp: pbs_event_def)
  with Cons show ?case by (auto intro!: emits_bind)
qed

lemma emits_packing:
  "emits (pbs_event job pb) (package_vm E base vmID t vmConf imgs log)"
  "emits (pbs_event job pb) (package_ct E base vmID t vmConf imgs log)"
  "emits (pbs_event job pb) (cleanup vmType vmdir vmConf imgs)"
  unfolding package_vm_def package_ct_def cleanup_def check_archive_def remove_old_def delete_tree_def Let_def
  by (intro emits_intros; auto simp: pbs_event_def)+

lemma emits_restore_snapshot:
  "emits (pbs_event job pb) (restore_snapshot E job pb g vmType vmID vmdir snaps log)"
  unfolding restore_snapshot_def Let_def
  by (intro emits_intros emits_restore_all emits_packing) (auto simp: pbs_event_def)

lemma emits_pbs_one: "emits (pbs_event job pb) (pbs_one E job pb d g cl)"
  unfolding pbs_one_def pbs_no_result_def Let_def
  by (intro emits_intros emits_restore_snapshot) (auto simp: pbs_event_def)

lemma emits_pbs_all: "emits (pbs_event job pb) (pbs_all E job pb d gs cl)"
  by (induction gs arbitrary: cl) (auto intro!: emits_return emits_bind emits_if emits_prod emits_pbs_one split: prod.split)


definition pbs_conf :: tiConfMain where
  "pbs_conf = \<lparr>m_valid = True, m_settings = [mkey ''paths/pbservers'' \<mapsto> ''/p'']\<rparr>"

lemma pbs_example_server:
  "pb_getItemByUuid calm_ext (to_text (getValue pbs_conf ''paths/pbservers'')) ''p1'' one_pb_sys = Some pb_example"
proof -
  have "store_consistent calm_ext pb_decode pb_uuid ''/p'' calm_sys" "\<not> refused calm_sys p" "key_ok ''p1''" for p
    by (simp_all add: calm_sys_def key_ok_def)
  from pb_store.find_after_save [OF order_ok_calm(2) TrueI this(2,1,3), of pb_example] show ?thesis
    by (simp add: pb_getItemByUuid_def pb_getItems_def one_pb_sys_def pb_saveItem_def pb_example_fields
        getValue_def pbs_conf_def)
qed


section \<open>Failures\<close>

lemma frame_restore_all: "frame (restore_all E job pb vmdir respec fs rs)"
proof (induction fs arbitrary: rs)
  case Nil
  show ?case by (simp add: frame_return)
next
  case (Cons f fs)
  have "frame (restore_one E job pb vmdir respec n rs)" for n
    unfolding restore_one_def restore_run_def key_args_def Let_def by (intro frame_intros)
  with Cons show ?case by (auto intro!: frame_bind)
qed

lemma frame_packing:
  "frame (package_vm E base vmID t vmConf imgs log)"
  "frame (package_ct E base vmID t vmConf imgs log)"
  "frame (cleanup vmType vmdir vmConf imgs)"
  unfolding package_vm_def package_ct_def cleanup_def check_archive_def remove_old_def delete_tree_def Let_def
  by (intro frame_intros)+

definition restored ::
  "'w ext \<Rightarrow> tiBackupJob \<Rightarrow> PBServer \<Rightarrow> string \<Rightarrow> string \<Rightarrow> json list \<Rightarrow> tiBackupJobPBSLog \<Rightarrow>
   ('w, 'z) st_scheme \<Rightarrow> restore \<times> ('w, 'z) st_scheme" where
  "restored E job pb groupid vmdir snaps log s =
     (let snap = snaps ! newest snaps; iso = x_utc E ''ISODate'' (snap_time snap) in
      run_state (restore_all E job pb vmdir (groupid @ ''/'' @ iso) (json_arr (json_get ''files'' snap))
                   \<lparr>rs_log = log, rs_conf = [], rs_images = [], rs_err = False\<rparr>)
        (s\<lparr>trace := trace s @ [Log (''Newest backup file for'' @ groupid @ '' from '' @ iso)]\<rparr>))"

lemma restored_frame:
  fixes s :: "('w, 'z) bst_scheme"
  assumes "s1 = snd (restored E job pb groupid vmdir snaps log s)"
  shows "pbs_logs s1 = pbs_logs s \<and> pbs_msgs s1 = pbs_msgs s \<and> bak_msgs s1 = bak_msgs s \<and> bak_logs s1 = bak_logs s"
proof -
  have fr: "\<exists>w t. snd (run_state (restore_all E job pb vmdir r fs rs) s0) = s0\<lparr>os := w, trace := t\<rparr>"
    for r fs rs and s0 :: "('w, 'z) bst_scheme"
    using frame_restore_all unfolding frame_def by blast
  obtain r fs rs x where "s1 = snd (run_state (restore_all E job pb vmdir r fs rs) (s\<lparr>trace := x\<rparr>))"
    using assms unfolding restored_def Let_def by blast
  with fr [of r fs rs "s\<lparr>trace := x\<rparr>"] show ?thesis by auto
qed

lemma restore_snapshot_run:
  "run_state (restore_snapshot E job pb groupid vmType vmID vmdir snaps log) s =
    (let (rs, s1) = restored E job pb groupid vmdir snaps log s; t = snap_time (snaps ! newest snaps) in
     if rs_err rs
     then (True, s1\<lparr>trace := trace s1 @ [Log ''Error processing proxmox-backup-client, check logs for details!'']\<rparr>)
     else run_state (do {
       packed \<leftarrow> (if vmType = ''vm''
                  then do { l \<leftarrow> package_vm E vmdir vmID t (rs_conf rs) (rs_images rs) (rs_log rs); State_Monad.return (Some l) }
                  else package_ct E vmdir vmID t (rs_conf rs) (rs_images rs) (rs_log rs));
       case packed of
         None \<Rightarrow> State_Monad.return False
       | Some l \<Rightarrow> do { cleanup vmType vmdir (rs_conf rs) (rs_images rs); pbs_log l; State_Monad.return True } }) s1)"
  by (simp add: restore_snapshot_def restored_def Let_def say_def run_emit split: prod.splits)

text \<open>
  A failed restore leaves no mark in the report: if a file of the snapshot could not be
  restored, neither a log entry nor a message about this id is kept, and the run goes on.
\<close>

theorem failed_restore_unreported:
  assumes "rs_err (fst (restored E job pb groupid vmdir snaps log s))"
    and "run_state (restore_snapshot E job pb groupid vmType vmID vmdir snaps log) s = (alive, s')"
  shows "alive \<and> pbs_logs s' = pbs_logs s \<and> pbs_msgs s' = pbs_msgs s \<and> bak_msgs s' = bak_msgs s"
proof -
  obtain rs s1 where r: "restored E job pb groupid vmdir snaps log s = (rs, s1)" by fastforce
  from restored_frame [of s1 E job pb groupid vmdir snaps log s]
  have "pbs_logs s1 = pbs_logs s \<and> pbs_msgs s1 = pbs_msgs s \<and> bak_msgs s1 = bak_msgs s"
    by (simp add: r)
  with r assms show ?thesis by (auto simp: restore_snapshot_run Let_def)
qed

definition bad_restore_ext :: "unit ext" where
  "bad_restore_ext = calm_ext\<lparr>x_exec := \<lambda>_ s. (\<lparr>p_end = Exited 1, p_out = ''no''\<rparr>, s)\<rparr>"

definition one_snapshot :: "json list" where
  "one_snapshot = [JObj [(''backup-time'', JNum 5),
     (''files'', JArr [JObj [(''filename'', JStr ''d.img.fidx'')]])]]"

lemma newest_one: "newest one_snapshot = 0"
  by (simp add: newest_def one_snapshot_def snap_time_def json_get_def json_int_def)

theorem failed_restore_unreported_witness:
  "pbs_logs (snd (run_state (restore_snapshot bad_restore_ext (plain_job ''j'') pb_example ''vm/100'' ''vm'' ''100''
      ''/m/100'' one_snapshot \<lparr>pbslog_vmid = ''vm/100'', pbslog_msg = [], pbslog_errmsg = []\<rparr>) calm_bst)) = []"
proof -
  let ?log = "\<lparr>pbslog_vmid = ''vm/100'', pbslog_msg = [], pbslog_errmsg = []\<rparr>"
  let ?r = "run_state (restore_snapshot bad_restore_ext (plain_job ''j'') pb_example ''vm/100'' ''vm'' ''100''
      ''/m/100'' one_snapshot ?log) calm_bst"
  have n: "strip_ext ''d.img.fidx'' = ''d.img''" by (simp add: strip_ext_def)
  have files: "json_arr (json_get ''files'' (one_snapshot ! 0)) = [JObj [(''filename'', JStr ''d.img.fidx'')]]"
    by (simp add: one_snapshot_def json_get_def json_arr_def)
  have fname: "json_str (json_get ''filename'' (JObj [(''filename'', JStr ''d.img.fidx'')])) = ''d.img.fidx''"
    by (simp add: json_get_def json_str_def)
  have sfx: "\<not> suffix ''.conf'' ''d.img''" "suffix ''.img'' ''d.img''" by (simp_all add: suffix_def)
  have key: "pb_keyfile pb_example = []" by (simp add: pb_example_def new_PBServer_def)
  have code: "p_code (fst (x_exec bad_restore_ext c w)) = 1" for c w by (simp add: bad_restore_ext_def)
  have "rs_err (fst (restored bad_restore_ext (plain_job ''j'') pb_example ''vm/100'' ''/m/100'' one_snapshot ?log calm_bst))"
    unfolding restored_def Let_def newest_one files
    by (simp add: fname n sfx restore_one_def restore_run_def key_args_def key code run_simps say_def
        run_cmd_def delete_file_def)
  moreover have "?r = (fst ?r, snd ?r)" by simp
  ultimately have "pbs_logs (snd ?r) = pbs_logs calm_bst"
    by (rule failed_restore_unreported [THEN conjunct2, THEN conjunct1])
  then show ?thesis by (simp add: calm_bst_def)
qed

text \<open>
  A container snapshot without an archive among its files ends the run: the code takes the first
  element of an empty list.
\<close>

lemma ct_without_archive_crashes:
  assumes "\<not> rs_err (fst (restored E job pb g vmdir snaps log s))"
    and "rs_images (fst (restored E job pb g vmdir snaps log s)) = []" and "vmType \<noteq> ''vm''"
  shows "\<not> fst (run_state (restore_snapshot E job pb g vmType vmID vmdir snaps log) s)"
proof -
  obtain rs s1 where "restored E job pb g vmdir snaps log s = (rs, s1)" by fastforce
  with assms show ?thesis by (simp add: restore_snapshot_run Let_def package_ct_def)
qed

end
