(* ===== verification/RunLaws.thy ===== *)
theory RunLaws
  imports PbsRestore
begin

text \<open>
  What the parts of a backup run have in common, proved once for each: which events they may
  cause, and how they may change the lists of messages and log entries a run collects (the
  locales \<open>run_order\<close> and \<open>pbs_order\<close>, interpreted for the growth of the list of copies and for the
  lists only the PBS part adds to). The composition of the parts (BackupJob) rests on these laws.
\<close>

section \<open>Events of the working part\<close>

text \<open>
  Between mounting and releasing no mail is sent, nothing is mounted, unlocked or released, and
  no command line is given to a shell or split by the library.
\<close>

definition work_event :: "event \<Rightarrow> bool" where
  "work_event e \<longleftrightarrow>
     (case e of
        Exec c \<Rightarrow>
          (case c of
             Argv p _ \<Rightarrow> p \<notin> {''mount'', ''umount'', ''cryptsetup''}
           | ArgvEnv p _ _ \<Rightarrow> p = ''proxmox-backup-client''
           | AsUser _ _ _ _ _ \<Rightarrow> True
           | _ \<Rightarrow> False)
      | Smtp _ \<Rightarrow> False
      | _ \<Rightarrow> True)"

lemma work_event_simps [simp]:
  "work_event (Log m)" "work_event (MakePath p)" "work_event (RemoveDir p)" "work_event (Delete p)"
  "work_event (DeleteTree p)" "work_event (WriteText p t)" "work_event (CopyFile p q)"
  "work_event (ChangeOwner p u g)" "work_event (Send r)" "work_event (ExecPipe p a q b)"
  "\<not> work_event (Smtp c)"
  by (simp_all add: work_event_def)

lemma work_pbs_event: "pbs_event job pb e \<Longrightarrow> work_event e"
  by (cases e) (auto simp: pbs_event_def work_event_def)

lemma work_script_event: "script_event E u e \<Longrightarrow> work_event e"
  by (cases e) (auto simp: script_event_def script_cmd_def work_event_def)

lemma emits_run_leg: "emits work_event (run_leg E what args lp src dest)"
  unfolding run_leg_def announce_leg_def rsync_outcome_def
  by (intro emits_intros) (auto simp: work_event_def)

lemma emits_leg_parts: "emits work_event (first_args E dest)" "emits work_event (leg_log_file E C job)"
  unfolding first_args_def leg_log_file_def Let_def by (intro emits_intros; simp)+

lemma work_local: "emits work_event (local_backup E C job flags d)"
  unfolding local_backup_def local_leg_def Let_def
  by (intro emits_intros emits_run_leg emits_leg_parts)

lemma work_ssh: "emits work_event (ssh_backup E C job flags d)"
  unfolding ssh_backup_def ssh_target_backup_def ssh_leg_def Let_def
  by (intro emits_intros emits_run_leg emits_leg_parts) simp_all

lemma work_script: "emits work_event (script_block E V w lead script d u)"
  by (rule emits_weaken [OF emits_script_block work_script_event])

lemma work_pbs: "emits work_event (pbs_backup E C job d)"
proof -
  have "emits work_event (pbs_all E job pb d gs cl)" for pb gs cl
    by (rule emits_weaken [OF emits_pbs_all work_pbs_event])
  then show ?thesis
    unfolding pbs_backup_def pbs_refused_def pbs_fail_def Let_def by (intro emits_intros) simp_all
qed

section \<open>How the lists of a run change\<close>

text \<open>
  \<open>runs_along le m\<close>: whatever state \<open>m\<close> is run from, it ends in one that is related to it by \<open>le\<close>.
  For an order that does not look at the system and the trace, and lets the messages and log
  entries of scripts and copies be added, every part of a run but the PBS part does so; for one that
  lets PBS messages and entries be added as well, the PBS part does too.
\<close>

definition runs_along ::
  "(('w, 'z) bst_scheme \<Rightarrow> ('w, 'z) bst_scheme \<Rightarrow> bool) \<Rightarrow> (('w, 'z) bst_scheme, 'a) state \<Rightarrow> bool" where
  "runs_along le m \<longleftrightarrow> (\<forall>s. le s (snd (run_state m s)))"

lemma runs_alongD: "runs_along le m \<Longrightarrow> run_state m s = (x, s') \<Longrightarrow> le s s'"
  unfolding runs_along_def by (metis snd_conv)

locale run_order =
  fixes le :: "('w, 'z) bst_scheme \<Rightarrow> ('w, 'z) bst_scheme \<Rightarrow> bool"
  assumes le_refl: "le s s"
    and le_trans: "le s t \<Longrightarrow> le t u \<Longrightarrow> le s u"
    and le_system: "le s (s\<lparr>os := w, trace := es\<rparr>)"
    and le_bak_msg: "le s (s\<lparr>bak_msgs := bak_msgs s @ [m]\<rparr>)"
    and le_bak_log: "le s (s\<lparr>bak_logs := bak_logs s @ [l]\<rparr>)"
begin

lemma along_frame:
  assumes "frame m"
  shows "runs_along le m"
  using assms le_system unfolding frame_def runs_along_def by metis

lemma along_bind [keeps_intros]:
  assumes "runs_along le m" and "\<And>x. runs_along le (f x)"
  shows "runs_along le (do { x \<leftarrow> m; f x })"
  unfolding runs_along_def
proof
  fix s
  obtain x s1 where m: "run_state m s = (x, s1)" by fastforce
  have "le s s1" by (rule runs_alongD [OF assms(1) m])
  moreover have "le s1 (snd (run_state (f x) s1))" using assms(2) by (simp add: runs_along_def)
  ultimately show "le s (snd (run_state (m \<bind> f) s))" using m by (simp add: le_trans)
qed

lemma along_return [keeps_intros]: "runs_along le (State_Monad.return x)"
  by (simp add: runs_along_def le_refl)

lemma along_if [keeps_intros]: "runs_along le m \<Longrightarrow> runs_along le n \<Longrightarrow> runs_along le (if b then m else n)"
  by simp

lemma along_option [keeps_intros]:
  "runs_along le m \<Longrightarrow> (\<And>y. runs_along le (f y)) \<Longrightarrow> runs_along le (case x of None \<Rightarrow> m | Some y \<Rightarrow> f y)"
  by (cases x) auto

lemma along_prod [keeps_intros]:
  "(\<And>a b. runs_along le (f a b)) \<Longrightarrow> runs_along le (case x of (a, b) \<Rightarrow> f a b)"
  by (cases x) auto

lemma along_whenM [keeps_intros]: "runs_along le m \<Longrightarrow> runs_along le (whenM b m)"
  by (simp add: whenM_def along_return)

lemma along_for_each [keeps_intros]: "(\<And>x. runs_along le (f x)) \<Longrightarrow> runs_along le (for_each xs f)"
  by (induction xs) (auto intro!: along_return along_bind)

lemma along_msgs [keeps_intros]: "runs_along le (bak_msg m)" "runs_along le (bak_log l)"
  by (simp_all add: bak_msg_def bak_log_def runs_along_def le_bak_msg le_bak_log)

lemma along_ops [keeps_intros]:
  "runs_along le (say m)" "runs_along le (run_cmd E c)" "runs_along le (make_path p)" "runs_along le (make_dir p)"
  "runs_along le (remove_dir p)" "runs_along le (delete_file p)" "runs_along le (write_text p x)"
  "runs_along le (asks f)" "runs_along le (change g)" "runs_along le (emit e)" "runs_along le State_Monad.get"
  by (rule along_frame, rule frame_intros)+

lemma along_warn [keeps_intros]: "runs_along le (warn m)"
  unfolding warn_def by (intro keeps_intros)

lemma along_local: "runs_along le (local_backup E C job flags d)"
  unfolding local_backup_def local_leg_def run_leg_def announce_leg_def rsync_outcome_def first_args_def
    leg_log_file_def Let_def
  by (intro keeps_intros)

lemma along_ssh: "runs_along le (ssh_backup E C job flags d)"
  unfolding ssh_backup_def ssh_target_backup_def ssh_leg_def run_leg_def announce_leg_def rsync_outcome_def
    first_args_def leg_log_file_def Let_def
  by (intro keeps_intros)

lemma along_script: "runs_along le (script_block E V w lead script d u)"
  unfolding script_block_def confineToScriptsDir_def stage_script_def runScriptAsUser_def Let_def
  by (intro keeps_intros)

end

lemma frame_pbs_calls:
  "frame (pbs_auth E h p u w cl)" "frame (getDatastoreSnapshots E ds i ty cl)"
  unfolding pbs_auth_def getDatastoreSnapshots_def pbs_request_def Let_def by (intro frame_intros)+

locale pbs_order = run_order +
  assumes le_pbs_msg: "le s (s\<lparr>pbs_msgs := pbs_msgs s @ [m]\<rparr>)"
    and le_pbs_log: "le s (s\<lparr>pbs_logs := pbs_logs s @ [l']\<rparr>)"
begin

lemma along_pbs_msgs [keeps_intros]: "runs_along le (pbs_msg m)" "runs_along le (pbs_log l')"
  by (simp_all add: pbs_msg_def pbs_log_def runs_along_def le_pbs_msg le_pbs_log)

lemma along_restore_snapshot: "runs_along le (restore_snapshot E job pb g ty i vmdir snaps log)"
  unfolding restore_snapshot_def Let_def
  by (intro keeps_intros along_frame [OF frame_restore_all] along_frame [OF frame_packing(1)]
      along_frame [OF frame_packing(2)] along_frame [OF frame_packing(3)])

lemma along_pbs_all: "runs_along le (pbs_all E job pb d gs cl)"
proof (induction gs arbitrary: cl)
  case Nil
  show ?case by (simp add: along_return)
next
  case (Cons g gs)
  have "runs_along le (pbs_one E job pb d g cl)"
    unfolding pbs_one_def pbs_no_result_def Let_def
    by (intro keeps_intros along_restore_snapshot along_frame [OF frame_pbs_calls(1)] along_frame [OF frame_pbs_calls(2)])
  with Cons.IH show ?case by (auto intro!: keeps_intros)
qed

lemma along_pbs: "runs_along le (pbs_backup E C job d)"
  unfolding pbs_backup_def pbs_refused_def pbs_fail_def Let_def
  by (intro keeps_intros along_pbs_all along_frame [OF frame_pbs_calls(1)])

end

text \<open>The log entries of the copies only become more in any part of a run.\<close>

definition logs_grow :: "('w, 'z) bst_scheme \<Rightarrow> ('w, 'z) bst_scheme \<Rightarrow> bool" where
  "logs_grow s t \<longleftrightarrow> prefix (bak_logs s) (bak_logs t)"

interpretation logs: pbs_order logs_grow
  by unfold_locales (auto simp: logs_grow_def intro: prefix_order.trans)

text \<open>Only the PBS part adds to the PBS messages and entries.\<close>

definition same_pbs :: "('w, 'z) bst_scheme \<Rightarrow> ('w, 'z) bst_scheme \<Rightarrow> bool" where
  "same_pbs s t \<longleftrightarrow> pbs_logs t = pbs_logs s \<and> pbs_msgs t = pbs_msgs s"

interpretation pbs_lists: run_order same_pbs
  by unfold_locales (auto simp: same_pbs_def)

end
