(* ===== verification/Devices.thy ===== *)
theory Devices
  imports Mounts
begin

text \<open>
  Disks and partitions: the enumeration and lookup of \<open>TiBackupLib\<close> (tibackuplib.cpp), the scan of
  \<open>DeviceDisk\<close> (obj/devicedisk.cpp). What udev and blkid report is a parameter: a device is its list of
  properties, and the queries of a device file are \<open>x_probe\<close> (it can be opened), \<open>x_numparts\<close> and
  \<open>x_blkid\<close>. A write past the 50 bytes of \<open>dev_name\<close> is undefined behaviour, the result \<open>None\<close>.
\<close>

type_synonym udev_device = "(string \<times> string) list"

section \<open>Devices of udev\<close>

text \<open>A property that is missing reads as the empty string.\<close>

definition udev_value :: "udev_device \<Rightarrow> string \<Rightarrow> string" where
  "udev_value d k = (case map_of d k of Some v \<Rightarrow> v | None \<Rightarrow> [])"

definition bus_is :: "udev_device \<Rightarrow> string \<Rightarrow> bool" where
  "bus_is d b \<longleftrightarrow> map_of d ''ID_BUS'' = Some b"

definition isDeviceUSB :: "udev_device \<Rightarrow> bool" where "isDeviceUSB d \<longleftrightarrow> bus_is d ''usb''"
definition isDeviceATA :: "udev_device \<Rightarrow> bool" where "isDeviceATA d \<longleftrightarrow> bus_is d ''ata''"
definition isDeviceSCSI :: "udev_device \<Rightarrow> bool" where "isDeviceSCSI d \<longleftrightarrow> bus_is d ''scsi''"
definition isDeviceNVME :: "udev_device \<Rightarrow> bool" where "isDeviceNVME d \<longleftrightarrow> bus_is d ''nvme''"

definition isDeviceDisk :: "udev_device \<Rightarrow> bool" where
  "isDeviceDisk d =
     (case (map_of d ''DEVTYPE'', map_of d ''ID_PART_TABLE_TYPE'') of
        (Some t, Some pt) \<Rightarrow> t = ''disk'' \<and> (pt = ''gpt'' \<or> pt = ''dos'')
      | _ \<Rightarrow> False)"

definition udev_disk :: "udev_device \<Rightarrow> DeviceDisk" where
  "udev_disk d = \<lparr>disk_name = udev_value d ''ID_SERIAL'', disk_uuid = [],
     devname = udev_value d ''DEVNAME'', devtype = udev_value d ''DEVTYPE'',
     vendor = udev_value d ''ID_VENDOR'', model = udev_value d ''ID_MODEL'', partitions = []\<rparr>"

definition getAttachedDisks :: "'w ext \<Rightarrow> 'w sys \<Rightarrow> DeviceDisk list" where
  "getAttachedDisks E s = map udev_disk (filter isDeviceDisk (x_udev E s))"

section \<open>Partitions\<close>

definition dev_name_size :: nat where "dev_name_size = 50"

definition partition_at :: "'w ext \<Rightarrow> 'w sys \<Rightarrow> string \<Rightarrow> DeviceDiskPartition" where
  "partition_at E s n =
     (let tag = (\<lambda>t. case x_blkid E n t s of Some v \<Rightarrow> v | None \<Rightarrow> []) in
      \<lparr>part_name = n, part_uuid = tag ''UUID'', part_label = tag ''LABEL'', part_type = tag ''TYPE''\<rparr>)"

text \<open>One round of the loop, for partition number \<open>n\<close>; a device that cannot be opened is skipped.\<close>

definition probe_partition ::
  "'w ext \<Rightarrow> 'w sys \<Rightarrow> string \<Rightarrow> nat \<Rightarrow> DeviceDiskPartition option option" where
  "probe_partition E s dev n =
     (let plain = dev @ show_nat n; nvme = dev @ ''p'' @ show_nat n in
      if dev_name_size \<le> length plain then None
      else if x_probe E plain s then Some (Some (partition_at E s plain))
      else if dev_name_size \<le> length nvme then None
      else if x_probe E nvme s then Some (Some (partition_at E s nvme))
      else Some None)"

fun scan_partitions ::
  "'w ext \<Rightarrow> 'w sys \<Rightarrow> string \<Rightarrow> nat list \<Rightarrow> DeviceDiskPartition list option" where
  "scan_partitions E s dev [] = Some []"
| "scan_partitions E s dev (n # ns) =
     (case probe_partition E s dev n of
        None \<Rightarrow> None
      | Some p \<Rightarrow> map_option (\<lambda>ps. case p of None \<Rightarrow> ps | Some q \<Rightarrow> q # ps) (scan_partitions E s dev ns))"

definition readPartitions :: "'w ext \<Rightarrow> 'w sys \<Rightarrow> DeviceDisk \<Rightarrow> DeviceDisk option" where
  "readPartitions E s disk =
     (let d0 = disk\<lparr>partitions := []\<rparr> in
      if devname disk = [] then Some d0
      else if \<not> x_probe E (devname disk) s then Some d0
      else case x_numparts E (devname disk) s of
        None \<Rightarrow> Some d0
      | Some nparts \<Rightarrow>
          if nparts \<le> 0 then Some d0
          else map_option (\<lambda>ps. d0\<lparr>partitions := ps\<rparr>)
                 (scan_partitions E s (devname disk) (map Suc [0..<nat nparts])))"

text \<open>\<open>DeviceDisk::getPartitionByUUID\<close>, with the disk as the call leaves it.\<close>

definition disk_getPartitionByUUID ::
  "'w ext \<Rightarrow> 'w sys \<Rightarrow> string \<Rightarrow> DeviceDisk \<Rightarrow> (DeviceDiskPartition \<times> DeviceDisk) option" where
  "disk_getPartitionByUUID E s uuid disk =
     map_option (\<lambda>d. (case List.find (\<lambda>p. part_uuid p = uuid) (partitions d) of
                        Some p \<Rightarrow> p | None \<Rightarrow> empty_partition, d))
       (readPartitions E s disk)"

text \<open>\<open>TiBackupLib::getPartitionByUUID\<close>: all disks, partitions without a uuid left out.\<close>

fun search_disks :: "'w ext \<Rightarrow> 'w sys \<Rightarrow> string \<Rightarrow> DeviceDisk list \<Rightarrow> DeviceDiskPartition option" where
  "search_disks E s uuid [] = Some empty_partition"
| "search_disks E s uuid (disk # disks) =
     (if devtype disk = ''disk''
      then (case readPartitions E s disk of
          None \<Rightarrow> None
        | Some d \<Rightarrow>
            (case List.find (\<lambda>p. part_uuid p \<noteq> [] \<and> part_uuid p = uuid) (partitions d) of
               Some p \<Rightarrow> Some p
             | None \<Rightarrow> search_disks E s uuid disks))
      else search_disks E s uuid disks)"

definition getPartitionByUUID :: "'w ext \<Rightarrow> string \<Rightarrow> 'w sys \<Rightarrow> DeviceDiskPartition option" where
  "getPartitionByUUID E uuid s = search_disks E s uuid (getAttachedDisks E s)"

section \<open>The partitions a scan finds\<close>

text \<open>The reference: the device node of a partition number, plain or in the NVMe form.\<close>

definition partition_node :: "'w ext \<Rightarrow> 'w sys \<Rightarrow> string \<Rightarrow> nat \<Rightarrow> string option" where
  "partition_node E s dev n =
     (if x_probe E (dev @ show_nat n) s then Some (dev @ show_nat n)
      else if x_probe E (dev @ ''p'' @ show_nat n) s then Some (dev @ ''p'' @ show_nat n)
      else None)"

definition partitions_spec :: "'w ext \<Rightarrow> 'w sys \<Rightarrow> string \<Rightarrow> nat list \<Rightarrow> DeviceDiskPartition list" where
  "partitions_spec E s dev ns = map (partition_at E s) (List.map_filter (partition_node E s dev) ns)"

lemma probe_partition_spec:
  assumes "length dev \<le> 38" and "n < 10 ^ 10"
  shows "probe_partition E s dev n = Some (map_option (partition_at E s) (partition_node E s dev n))"
proof -
  have "length (show_nat n) \<le> 10" using length_show_nat [OF assms(2)] by simp
  with assms(1) show ?thesis
    by (simp add: probe_partition_def partition_node_def dev_name_size_def Let_def)
qed

lemma scan_partitions_spec:
  assumes "length dev \<le> 38" and "\<forall>n \<in> set ns. n < 10 ^ 10"
  shows "scan_partitions E s dev ns = Some (partitions_spec E s dev ns)"
  using assms
proof (induction ns)
  case Nil
  show ?case by (simp add: partitions_spec_def List.map_filter_simps)
next
  case (Cons n ns)
  then show ?case
    by (cases "partition_node E s dev n")
      (simp_all add: probe_partition_spec partitions_spec_def List.map_filter_simps)
qed

text \<open>The numbers the loop tries, none when the scan does not get as far.\<close>

definition partition_numbers :: "'w ext \<Rightarrow> 'w sys \<Rightarrow> string \<Rightarrow> nat list" where
  "partition_numbers E s dev =
     (if dev = [] \<or> \<not> x_probe E dev s then []
      else case x_numparts E dev s of None \<Rightarrow> [] | Some k \<Rightarrow> map Suc [0..<nat k])"

definition numparts_ok :: "'w ext \<Rightarrow> 'w sys \<Rightarrow> string \<Rightarrow> bool" where
  "numparts_ok E s dev \<longleftrightarrow> (case x_numparts E dev s of None \<Rightarrow> True | Some k \<Rightarrow> k < 2 ^ 31)"

lemma readPartitions_run:
  assumes "length (devname disk) \<le> 38" and "numparts_ok E s (devname disk)"
  shows "readPartitions E s disk
    = Some (disk\<lparr>partitions := partitions_spec E s (devname disk) (partition_numbers E s (devname disk))\<rparr>)"
proof (cases "x_numparts E (devname disk) s")
  case None
  then show ?thesis
    by (simp add: readPartitions_def partition_numbers_def partitions_spec_def List.map_filter_simps Let_def)
next
  case (Some k)
  with assms(2) have "\<forall>n \<in> set (map Suc [0..<nat k]). n < 10 ^ 10"
    by (auto simp: numparts_ok_def)
  from scan_partitions_spec [OF assms(1) this] Some show ?thesis
    by (auto simp: readPartitions_def partition_numbers_def partitions_spec_def List.map_filter_simps Let_def)
qed

section \<open>Reading and finding partitions\<close>

text \<open>
  C15. \<open>readPartitions\<close> stays inside the 50 bytes of \<open>dev_name\<close> whatever number of partitions, up to
  the largest \<open>int\<close>, the device reports, if the name of the disk has at most 38 bytes; the
  list is then that of the numbers from 1 to the reported count whose device node, plain or in
  the NVMe form, can be opened, each with what blkid says of that node, and nothing else of
  the disk changes.
\<close>

theorem readPartitions_in_bounds:
  assumes "length (devname disk) \<le> 38" and "numparts_ok E s (devname disk)"
  shows "\<exists>d. readPartitions E s disk = Some d \<and> d = disk\<lparr>partitions := partitions d\<rparr>
     \<and> partitions d = map (partition_at E s)
         (List.map_filter (partition_node E s (devname disk)) (partition_numbers E s (devname disk)))"
  using readPartitions_run [OF assms] by (simp add: partitions_spec_def)

definition disk_ext :: "string list \<Rightarrow> int \<Rightarrow> unit ext" where
  "disk_ext nodes k = calm_ext\<lparr>
     x_udev := \<lambda>_. [[(''DEVTYPE'', ''disk''), (''ID_PART_TABLE_TYPE'', ''dos''), (''DEVNAME'', ''/dev/sda'')]],
     x_probe := \<lambda>n _. n = ''/dev/sda'' \<or> n \<in> set nodes,
     x_numparts := \<lambda>_ _. Some k,
     x_blkid := \<lambda>n t _. if t = ''UUID'' then Some (''u-'' @ drop 8 n) else None\<rparr>"

definition sda :: DeviceDisk where
  "sda = udev_disk [(''DEVTYPE'', ''disk''), (''ID_PART_TABLE_TYPE'', ''dos''), (''DEVNAME'', ''/dev/sda'')]"

lemma small_numbers: "show_nat (Suc 0) = ''1''" "show_nat (Suc (Suc 0)) = ''2''" "show_nat (Suc (Suc (Suc 0))) = ''3''"
  by code_simp+

lemmas disk_example = disk_ext_def calm_ext_def sda_def udev_disk_def udev_value_def small_numbers

theorem readPartitions_in_bounds_witness:
  "\<exists>d. readPartitions (disk_ext [''/dev/sda1'', ''/dev/sda2''] 2) calm_sys sda = Some d
     \<and> map part_name (partitions d) = [''/dev/sda1'', ''/dev/sda2'']"
proof -
  let ?E = "disk_ext [''/dev/sda1'', ''/dev/sda2''] 2"
  have numbers: "partition_numbers ?E calm_sys (devname sda) = [Suc 0, Suc (Suc 0)]"
    by (simp add: partition_numbers_def disk_example upt_rec)
  have "length (devname sda) \<le> 38" "numparts_ok ?E calm_sys (devname sda)"
    by (simp_all add: numparts_ok_def disk_example)
  from readPartitions_in_bounds [OF this] show ?thesis
    unfolding numbers
    by (auto simp: partition_node_def partition_at_def disk_example List.map_filter_simps Let_def)
qed

text \<open>
  The numbers tried are those up to the count: a disk with the partitions 1, 2 and 5, the logical
  one of an extended partition, reports three, and the third is never found.
\<close>

lemma sparse_numbers_missed:
  "getPartitionByUUID (disk_ext [''/dev/sda1'', ''/dev/sda2'', ''/dev/sda5''] 3) ''u-5'' s = Some empty_partition
   \<and> getPartitionByUUID (disk_ext [''/dev/sda1'', ''/dev/sda2'', ''/dev/sda5''] 3) ''u-2'' s \<noteq> Some empty_partition
   \<and> x_blkid (disk_ext [''/dev/sda1'', ''/dev/sda2'', ''/dev/sda5''] 3) ''/dev/sda5'' ''UUID'' s = Some ''u-5''"
  by (simp add: getPartitionByUUID_def getAttachedDisks_def isDeviceDisk_def readPartitions_def upt_rec
      probe_partition_def partition_at_def empty_partition_def dev_name_size_def disk_example Let_def)

definition disks_in_bounds :: "'w ext \<Rightarrow> 'w sys \<Rightarrow> bool" where
  "disks_in_bounds E s \<longleftrightarrow>
     (\<forall>d \<in> set (getAttachedDisks E s). length (devname d) \<le> 38 \<and> numparts_ok E s (devname d))"

text \<open>The device nodes that a lookup goes through, disk by disk.\<close>

definition attached_nodes :: "'w ext \<Rightarrow> 'w sys \<Rightarrow> DeviceDisk list \<Rightarrow> string list" where
  "attached_nodes E s disks =
     concat (map (\<lambda>d. List.map_filter (partition_node E s (devname d)) (partition_numbers E s (devname d))) disks)"

lemma search_disks_spec:
  assumes "\<forall>d \<in> set disks. devtype d = ''disk'' \<and> length (devname d) \<le> 38 \<and> numparts_ok E s (devname d)"
    and "uuid \<noteq> []"
  shows "search_disks E s uuid disks = Some
    (case List.find (\<lambda>n. x_blkid E n ''UUID'' s = Some uuid) (attached_nodes E s disks) of
       Some n \<Rightarrow> partition_at E s n | None \<Rightarrow> empty_partition)"
  using assms(1)
proof (induction disks)
  case Nil
  show ?case by (simp add: attached_nodes_def)
next
  case (Cons d disks)
  have uuid: "part_uuid (partition_at E s n) \<noteq> [] \<and> part_uuid (partition_at E s n) = uuid
    \<longleftrightarrow> x_blkid E n ''UUID'' s = Some uuid" for n
    using assms(2) by (auto simp: partition_at_def Let_def split: option.splits)
  from Cons show ?case
    by (simp add: readPartitions_run partitions_spec_def find_map uuid attached_nodes_def find_append
        split: option.split)
qed

lemma attached_devtype: "d \<in> set (getAttachedDisks E s) \<Longrightarrow> devtype d = ''disk''"
  by (auto simp: getAttachedDisks_def udev_disk_def isDeviceDisk_def udev_value_def split: option.splits)

lemma partition_node_nonempty: "partition_node E s dev n = Some f \<Longrightarrow> f \<noteq> []"
  by (auto simp: partition_node_def split: if_splits)

lemma attached_nodes_nonempty: "f \<in> set (attached_nodes E s disks) \<Longrightarrow> f \<noteq> []"
  by (auto simp: attached_nodes_def List.map_filter_def dest: partition_node_nonempty)



end
