(* ===== verification/Mailer.thy ===== *)
theory Mailer
  imports ConfMain
begin

text \<open>
  \<open>tiBackupMailer\<close> (tibackupmailer.cpp) and \<open>exitCodesRsync\<close> (obj/exitcodes.cpp). Sending is a
  sequence of calls into the SMTP library; the first one that throws ends it. TLS is set up once
  per process, when the first mail needs it. Certificates are
  not verified for mail, so the model has no certificates here.
\<close>

section \<open>Exit codes of rsync\<close>

definition rsync_codes :: "(int \<times> string) list" where
  "rsync_codes = [
     (0, ''Success''),
     (1, ''Syntax or usage error''),
     (2, ''Protocol incompatibility''),
     (3, ''Errors selecting input/output files, dirs''),
     (4, ''Requested  action not supported: an attempt was made to manipulate 64-bit files on a platform that cannot support them; or an option was specified that is supported by the client and not by the server.''),
     (5, ''Error starting client-server protocol''),
     (6, ''Daemon unable to append to log-file''),
     (10, ''Error in socket I/O''),
     (11, ''Error in file I/O''),
     (12, ''Error in rsync protocol data stream''),
     (13, ''Errors with program diagnostics''),
     (14, ''Error in IPC code''),
     (20, ''Received SIGUSR1 or SIGINT''),
     (21, ''Some error returned by waitpid()''),
     (22, ''Error allocating core memory buffers''),
     (23, ''Partial transfer due to error''),
     (24, ''Partial transfer due to vanished source files''),
     (25, ''The --max-delete limit stopped deletions''),
     (30, ''Timeout in data send/receive''),
     (35, ''Timeout waiting for daemon connection'')]"

definition rsync_getMsg :: "int \<Rightarrow> string" where
  "rsync_getMsg code = (case map_of rsync_codes code of Some m \<Rightarrow> m | None \<Rightarrow> ''Unknown status'')"

section \<open>Parameters\<close>

datatype Security = SecNone | StartTls | Ssl

definition securityFromString :: "string \<Rightarrow> Security" where
  "securityFromString s =
     (let v = toLower (trimmed s) in
      if v = ''starttls'' then StartTls
      else if v = ''ssl'' \<or> v = ''tls'' then Ssl
      else SecNone)"

fun securityToString :: "Security \<Rightarrow> string" where
  "securityToString StartTls = ''starttls''"
| "securityToString Ssl = ''ssl''"
| "securityToString SecNone = ''none''"

record mail_params =
  mp_server :: string
  mp_port :: i32
  mp_security :: Security
  mp_auth :: bool
  mp_username :: string
  mp_password :: string
  mp_from :: string

record mail_result =
  mres_ok :: bool
  mres_message :: string

definition mail_port :: "i32 \<Rightarrow> u16" where
  "mail_port p = (if 0 < sint p then ucast p else 25)"

section \<open>Sending\<close>

definition fileName :: "string \<Rightarrow> string" where
  "fileName p = last (split_on CHR ''/'' p)"

definition build_mail ::
  "mail_params \<Rightarrow> string \<Rightarrow> string \<Rightarrow> string \<Rightarrow> string list \<Rightarrow> 'w sys \<Rightarrow> mail" where
  "build_mail p recipient subject body attachmentPaths s =
     \<lparr>mail_sender = (if mp_from p = [] then mail_from_default else mp_from p),
      mail_to = recipient, mail_subject = subject, mail_content = body,
      mail_attachments = map (\<lambda>path. (fileName path, path))
        (filter (\<lambda>path. \<not> (path = [] \<or> \<not> path_exists s path)) attachmentPaths)\<rparr>"

text \<open>\<open>authAndSend\<close>, and the three transports.\<close>

definition auth_and_send :: "mail_params \<Rightarrow> mail \<Rightarrow> smtp_call list" where
  "auth_and_send p m =
     (if mp_auth p then [SmtpAuth (mp_username p) (mp_password p)] else [SmtpHello])
     @ [SmtpSend m, SmtpClose]"

definition smtp_calls :: "mail_params \<Rightarrow> mail \<Rightarrow> smtp_call list" where
  "smtp_calls p m =
     (case mp_security p of
        Ssl \<Rightarrow> SmtpConnectTls (mp_server p) (mail_port (mp_port p)) # auth_and_send p m
      | StartTls \<Rightarrow> [SmtpConnect (mp_server p) (mail_port (mp_port p)), SmtpHello, SmtpStartTls]
                    @ auth_and_send p m
      | SecNone \<Rightarrow> SmtpConnect (mp_server p) (mail_port (mp_port p)) # auth_and_send p m)"

fun smtp_run :: "'w ext \<Rightarrow> smtp_call list \<Rightarrow> (('w, 'z) st_scheme, string option) state" where
  "smtp_run E [] = State_Monad.return None"
| "smtp_run E (c # cs) = do {
     emit (Smtp c);
     out \<leftarrow> change (x_smtp E c);
     case out of Threw e \<Rightarrow> State_Monad.return (Some e) | Did _ \<Rightarrow> smtp_run E cs }"

text \<open>
  \<open>ensureSSLInitialized\<close>: the first transport that needs TLS sets up the client context of the
  library. \<open>call_once\<close> leaves its flag alone when the function it runs throws, so that a
  failed set-up is tried again by the next mail.
\<close>

definition ensureSSLInitialized :: "'w ext \<Rightarrow> (('w, 'z) st_scheme, string option) state" where
  "ensureSSLInitialized E = do {
     s \<leftarrow> State_Monad.get;
     if ssl_ready s then State_Monad.return None
     else do {
       err \<leftarrow> smtp_run E [SslInitialize];
       whenM (err = None) (State_Monad.update (\<lambda>s. s\<lparr>ssl_ready := True\<rparr>));
       State_Monad.return err } }"

definition transmit :: "'w ext \<Rightarrow> mail_params \<Rightarrow> mail \<Rightarrow> (('w, 'z) st_scheme, string option) state" where
  "transmit E p m = do {
     err \<leftarrow> (if mp_security p = SecNone then State_Monad.return None else ensureSSLInitialized E);
     if err = None then smtp_run E (smtp_calls p m) else State_Monad.return err }"

definition mailer_send ::
  "'w ext \<Rightarrow> mail_params \<Rightarrow> string \<Rightarrow> string \<Rightarrow> string \<Rightarrow> string list \<Rightarrow> (('w, 'z) st_scheme, mail_result) state" where
  "mailer_send E p recipient subject body attachmentPaths =
     (if mp_server p = []
      then State_Monad.return \<lparr>mres_ok = False, mres_message = ''SMTP server is not configured.''\<rparr>
      else if recipient = []
      then State_Monad.return \<lparr>mres_ok = False, mres_message = ''No recipient given.''\<rparr>
      else do {
        m \<leftarrow> asks (build_mail p recipient subject body attachmentPaths);
        err \<leftarrow> transmit E p m;
        case err of
          Some e \<Rightarrow> State_Monad.return \<lparr>mres_ok = False, mres_message = e\<rparr>
        | None \<Rightarrow> State_Monad.return \<lparr>mres_ok = True, mres_message = []\<rparr> })"

section \<open>What sending promises\<close>

lemma emits_smtp_run [emits_intros]:
  "(\<And>c. c \<in> set cs \<Longrightarrow> P (Smtp c)) \<Longrightarrow> emits P (smtp_run E cs)"
  by (induction cs) (auto intro!: emits_return emits_bind emits_emit emits_change split: smtp_outcome.split)

lemma smtp_run_result:
  assumes "run_state (smtp_run E cs) s = (r, s')"
  shows "\<exists>done todo. cs = done @ todo \<and> trace s' = trace s @ map Smtp done \<and> (r = None \<longrightarrow> todo = [])
     \<and> (r \<noteq> None \<longrightarrow> done \<noteq> []) \<and> ssl_ready s' = ssl_ready s"
  using assms
proof (induction cs arbitrary: s)
  case Nil
  then show ?case by simp
next
  case (Cons c cs)
  let ?s1 = "s\<lparr>trace := trace s @ [Smtp c], os := snd (x_smtp E c (os s))\<rparr>"
  show ?case
  proof (cases "fst (x_smtp E c (os s))")
    case (Threw e)
    with Cons.prems have "r = Some e" "s' = ?s1" by (auto simp: run_simps)
    then show ?thesis by (intro exI [of _ "[c]"] exI [of _ cs]) simp
  next
    case (Did b)
    with Cons.prems have "run_state (smtp_run E cs) ?s1 = (r, s')" by (simp add: run_simps)
    from Cons.IH [OF this] obtain dn td where
      "cs = dn @ td" "trace s' = trace ?s1 @ map Smtp dn" "r = None \<longrightarrow> td = []" "ssl_ready s' = ssl_ready s"
      by auto
    then show ?thesis by (intro exI [of _ "c # dn"] exI [of _ td]) simp
  qed
qed

text \<open>The calls one mail needs: the set-up of TLS first, where it is needed and still missing.\<close>

definition mail_calls :: "mail_params \<Rightarrow> bool \<Rightarrow> mail \<Rightarrow> smtp_call list" where
  "mail_calls p ready m =
     (if mp_security p \<noteq> SecNone \<and> \<not> ready then [SslInitialize] else []) @ smtp_calls p m"

lemma transmit_plain:
  "mp_security p = SecNone \<or> ssl_ready s \<Longrightarrow>
     run_state (transmit E p m) s = run_state (smtp_run E (smtp_calls p m)) s"
  by (auto simp: transmit_def ensureSSLInitialized_def run_simps)

lemma transmit_first:
  assumes "mp_security p \<noteq> SecNone" and "\<not> ssl_ready s"
  shows "run_state (transmit E p m) s =
    (case run_state (smtp_run E [SslInitialize]) s of
       (None, t) \<Rightarrow> run_state (smtp_run E (smtp_calls p m)) (t\<lparr>ssl_ready := True\<rparr>)
     | (Some e, t) \<Rightarrow> (Some e, t))"
  using assms
  by (simp add: transmit_def ensureSSLInitialized_def run_simps split: prod.split option.split smtp_outcome.split)

lemma smtp_calls_no_init: "SslInitialize \<notin> set (smtp_calls p m)"
  by (simp add: smtp_calls_def auth_and_send_def split: Security.split)

lemma smtp_calls_nonempty: "smtp_calls p m \<noteq> []"
  by (simp add: smtp_calls_def split: Security.split)

lemma transmit_result:
  assumes "run_state (transmit E p m) s = (r, s')"
  shows "\<exists>done todo. mail_calls p (ssl_ready s) m = done @ todo \<and> trace s' = trace s @ map Smtp done
     \<and> (r = None \<longrightarrow> todo = []) \<and> (r \<noteq> None \<longrightarrow> done \<noteq> [])
     \<and> (ssl_ready s' \<longleftrightarrow> ssl_ready s \<or> (mp_security p \<noteq> SecNone \<and> (r = None \<or> done \<noteq> [SslInitialize])))"
proof (cases "mp_security p = SecNone \<or> ssl_ready s")
  case True
  with assms have "run_state (smtp_run E (smtp_calls p m)) s = (r, s')" by (simp add: transmit_plain)
  from smtp_run_result [OF this] True show ?thesis by (auto simp: mail_calls_def)
next
  case False
  then have split: "run_state (transmit E p m) s =
    (case run_state (smtp_run E [SslInitialize]) s of
       (None, t) \<Rightarrow> run_state (smtp_run E (smtp_calls p m)) (t\<lparr>ssl_ready := True\<rparr>)
     | (Some e, t) \<Rightarrow> (Some e, t))" by (intro transmit_first) simp_all
  have calls: "mail_calls p (ssl_ready s) m = SslInitialize # smtp_calls p m"
    using False by (simp add: mail_calls_def)
  obtain r0 t where init: "run_state (smtp_run E [SslInitialize]) s = (r0, t)" by fastforce
  have t: "trace t = trace s @ [Smtp SslInitialize]" "ssl_ready t = ssl_ready s"
    using smtp_run_result [OF init] by (cases r0; auto simp: Cons_eq_append_conv)+
  show ?thesis
  proof (cases r0)
    case (Some e)
    with split init assms have "r = Some e" "s' = t" by auto
    with t calls False show ?thesis
      by (intro exI [of _ "[SslInitialize]"] exI [of _ "smtp_calls p m"]) simp
  next
    case None
    with split init assms have "run_state (smtp_run E (smtp_calls p m)) (t\<lparr>ssl_ready := True\<rparr>) = (r, s')" by simp
    from smtp_run_result [OF this] obtain dn td where
      "smtp_calls p m = dn @ td" "trace s' = trace t @ map Smtp dn" "r = None \<longrightarrow> td = []"
      "r \<noteq> None \<longrightarrow> dn \<noteq> []" "ssl_ready s'" by auto
    with t calls False show ?thesis
      by (intro exI [of _ "SslInitialize # dn"] exI [of _ td]) auto
  qed
qed

lemma emits_transmit [emits_intros]:
  assumes "P (Smtp SslInitialize)" and "\<And>c. c \<in> set (smtp_calls p m) \<Longrightarrow> P (Smtp c)"
  shows "emits P (transmit E p m)"
proof (rule emitsI)
  fix s :: "('a, 'b) st_scheme"
  obtain r s' where "run_state (transmit E p m) s = (r, s')" by fastforce
  moreover from transmit_result [OF this] obtain dn td where
    "mail_calls p (ssl_ready s) m = dn @ td" "trace s' = trace s @ map Smtp dn" by blast
  moreover from this have "set dn \<subseteq> insert SslInitialize (set (smtp_calls p m))"
    by (force simp: mail_calls_def split: if_splits dest: arg_cong [where f = set])
  ultimately show "\<exists>es. trace (snd (run_state (transmit E p m) s)) = trace s @ es \<and> (\<forall>e \<in> set es. P e)"
    using assms by (intro exI [of _ "map Smtp dn"]) auto
qed

text \<open>TLS is set up once: from a state in which it is, no mail sets it up again.\<close>

lemma ssl_set_up_once:
  assumes "run_state (transmit E p m) s = (r, s')" and "ssl_ready s"
  shows "ssl_ready s' \<and> (\<exists>cs. trace s' = trace s @ map Smtp cs \<and> SslInitialize \<notin> set cs)"
proof -
  from transmit_result [OF assms(1)] assms(2) obtain dn td where
    "smtp_calls p m = dn @ td" "trace s' = trace s @ map Smtp dn" "ssl_ready s'"
    by (auto simp: mail_calls_def)
  moreover from this(1) have "SslInitialize \<notin> set dn" using smtp_calls_no_init [of p m] by auto
  ultimately show ?thesis by auto
qed

text \<open>When no call throws, every call is made.\<close>

lemma smtp_run_no_throw:
  assumes "\<And>c w. \<exists>b. fst (x_smtp E c w) = Did b"
  shows "\<exists>w. run_state (smtp_run E cs) s = (None, s\<lparr>trace := trace s @ map Smtp cs, os := w\<rparr>)"
proof (induction cs arbitrary: s)
  case Nil
  show ?case by (intro exI [of _ "os s"]) simp
next
  case (Cons c cs)
  obtain b where "fst (x_smtp E c (os s)) = Did b" using assms by blast
  with Cons [of "s\<lparr>trace := trace s @ [Smtp c], os := snd (x_smtp E c (os s))\<rparr>"] show ?case
    by (simp add: run_simps)
qed

lemma transmit_no_throw:
  assumes "\<And>c w. \<exists>b. fst (x_smtp E c w) = Did b"
  shows "\<exists>s'. run_state (transmit E p m) s = (None, s')
    \<and> trace s' = trace s @ map Smtp (mail_calls p (ssl_ready s) m)"
proof -
  have ok: "fst (run_state (smtp_run E cs) t) = None" for cs and t :: "('a, 'b) st_scheme"
    using smtp_run_no_throw [OF assms, of cs t] by auto
  have "fst (run_state (transmit E p m) s) = None"
  proof (cases "mp_security p = SecNone \<or> ssl_ready s")
    case True
    then show ?thesis by (simp add: transmit_plain ok)
  next
    case False
    obtain t where "run_state (smtp_run E [SslInitialize]) s = (None, t)"
      using ok [of "[SslInitialize]" s] by (metis prod.collapse)
    with False show ?thesis by (simp add: transmit_first ok del: smtp_run.simps)
  qed
  then obtain s' where run: "run_state (transmit E p m) s = (None, s')" by (metis prod.collapse)
  from transmit_result [OF this] run show ?thesis by auto
qed


definition smtp_params :: "Security \<Rightarrow> mail_params" where
  "smtp_params sec = \<lparr>mp_server = ''mx'', mp_port = 587, mp_security = sec, mp_auth = True,
     mp_username = ''u'', mp_password = ''p'', mp_from = ''f''\<rparr>"

lemma smtp_calm_ok:
  "mres_ok (fst (run_state (mailer_send calm_ext (smtp_params sec) ''a@b'' [] [] []) calm_st))"
proof -
  have "fst (x_smtp calm_ext c w) = Did True" for c w by (simp add: calm_ext_def)
  then have "fst (run_state (transmit calm_ext p m) s) = None" for p m and s :: "unit st"
    by (metis transmit_no_throw fst_conv)
  then show ?thesis
    by (simp add: mailer_send_def smtp_params_def run_simps split: prod.splits option.splits) (metis fst_conv option.distinct(1))
qed




text \<open>
  Whether the upgrade happened is never looked at: as long as no call throws, the user name
  and password follow \<open>STARTTLS\<close> even if \<open>startTLS\<close> returned false, that is over the plain
  connection.
\<close>

theorem starttls_result_ignored:
  assumes "mp_security p = StartTls" and "mp_auth p" and "mp_server p \<noteq> []" and "rcpt \<noteq> []"
    and "\<And>c w. fst (x_smtp E c w) = Did (c \<noteq> SmtpStartTls)"
  shows "\<exists>pre post. trace (snd (run_state (mailer_send E p rcpt subj body atts) s))
    = pre @ [Smtp SmtpStartTls, Smtp (SmtpAuth (mp_username p) (mp_password p))] @ post"
proof -
  let ?m = "build_mail p rcpt subj body atts (os s)"
  have calls: "smtp_calls p ?m = [SmtpConnect (mp_server p) (mail_port (mp_port p)), SmtpHello, SmtpStartTls,
      SmtpAuth (mp_username p) (mp_password p), SmtpSend ?m, SmtpClose]"
    using assms(1,2) by (simp add: smtp_calls_def auth_and_send_def)
  obtain s' where "run_state (transmit E p ?m) s = (None, s')"
      "trace s' = trace s @ map Smtp (mail_calls p (ssl_ready s) ?m)"
    using transmit_no_throw [of E p ?m s] assms(5) by blast
  then have "trace (snd (run_state (mailer_send E p rcpt subj body atts) s))
      = trace s @ map Smtp (mail_calls p (ssl_ready s) ?m)"
    using assms(3,4) by (simp add: mailer_send_def run_simps)
  then show ?thesis
    by (intro exI [of _ "trace s @ map Smtp ((if ssl_ready s then [] else [SslInitialize])
          @ [SmtpConnect (mp_server p) (mail_port (mp_port p)), SmtpHello])"]
        exI [of _ "[Smtp (SmtpSend ?m), Smtp SmtpClose]"]) (simp add: calls mail_calls_def assms(1))
qed

theorem starttls_result_ignored_witness:
  "\<exists>pre post. trace (snd (run_state (mailer_send (calm_ext\<lparr>x_smtp := \<lambda>c s. (Did (c \<noteq> SmtpStartTls), s)\<rparr>)
      (smtp_params StartTls) ''a@b'' [] [] []) calm_st))
    = pre @ [Smtp SmtpStartTls, Smtp (SmtpAuth ''u'' ''p'')] @ post"
  using starttls_result_ignored [of "smtp_params StartTls" "''a@b''"
      "calm_ext\<lparr>x_smtp := \<lambda>c s. (Did (c \<noteq> SmtpStartTls), s)\<rparr>" "[]" "[]" "[]" calm_st]
  by (simp add: smtp_params_def)

text \<open>The security mode survives the way through its string form; the port is cut to 16 bits.\<close>

lemma security_roundtrip: "securityFromString (securityToString m) = m"
  by (cases m) (simp_all add: securityFromString_def trimmed_def is_space_def toLower_def lower_char_def)

lemma mail_port_value:
  "unat (mail_port p) = (if 0 < sint p then nat (sint p) mod 65536 else 25)"
proof (cases "0 < sint p")
  case True
  then have "uint p = sint p"
    using sint_i32_range [of p] by (simp add: uint_sint take_bit_eq_mod)
  with True show ?thesis
    by (simp add: mail_port_def unsigned_ucast_eq take_bit_eq_mod unat_eq_nat_uint nat_mod_distrib)
next
  case False
  then show ?thesis by (simp add: mail_port_def)
qed

end
