(* ===== verification/BackupJob.thy ===== *)
theory BackupJob
  imports RunLaws Devices Mailer
begin

text \<open>
  A whole backup run: \<open>tiBackupJob::startBackup\<close> (obj/tibackupjob.cpp), composed of the parts of
  the other theories in the order of the code, with its log header, its mount phase, the
  notification and the unmounting, and \<open>tiBackupJobWorker::process\<close>
  (workers/tibackupjobworker.cpp), which runs it. The result is \<open>None\<close> where the program
  crashes: an index out of range in the PBS part, or \<open>dev_name\<close> written past its end.
\<close>

section \<open>Beginning\<close>

definition log_time_format :: string where "log_time_format = ''yyyy-MM-dd_HH-mm''"

text \<open>The detail log is truncated and gets its first line.\<close>

definition open_detail_log ::
  "'w ext \<Rightarrow> conf_env \<Rightarrow> tiConfMain \<Rightarrow> tiBackupJob \<Rightarrow> (('w, 'z) st_scheme, unit) state" where
  "open_detail_log E V C job = do {
     currentDate \<leftarrow> change (x_now E log_time_format);
     write_text (getLogsDetailDir V C @ ''/'' @ currentDate @ ''__'' @ job_name job @ ''.log'') [];
     say (''Starting backup for '' @ job_name job @ '' at '' @ currentDate @ '' on '' @ job_device job
          @ '' ('' @ partition_uuid job @ '')'') }"

text \<open>The directory of the target, or \<open>None\<close> if the run is to be aborted.\<close>

definition mount_target ::
  "'w ext \<Rightarrow> DeviceDiskPartition \<Rightarrow> tiBackupJob \<Rightarrow> (('w, 'z) st_scheme, string option) state" where
  "mount_target E part job = do {
     mounted \<leftarrow> asks (isMounted part);
     if mounted
     then do {
       d \<leftarrow> asks (getMountDir part);
       say (''Device is already mounted on '' @ d);
       State_Monad.return (Some d) }
     else do {
       d \<leftarrow> mountPartition E part (Some job);
       say (''Device was not mounted, mounting on '' @ d);
       now \<leftarrow> asks (isMounted part);
       if \<not> now
       then do { say ''Device could not be mounted, aborting''; State_Monad.return None }
       else State_Monad.return (Some d) } }"

definition script_user_of :: "tiConfMain \<Rightarrow> string" where
  "script_user_of C =
     (let u = to_text (getValue C ''scripts/run_user'') in if u = [] then script_run_user else u)"

section \<open>The report\<close>

definition nl :: string where "nl = [CHR 0x0A]"

definition pbs_status_lines :: "string list \<Rightarrow> tiBackupJobPBSLog list \<Rightarrow> string" where
  "pbs_status_lines pbsMessages bakPBSLogs =
     (let pbsok = list_all (\<lambda>l. pbslog_errmsg l = []) bakPBSLogs in
      (if pbsMessages = [] \<and> pbsok then ''  PBS-Backup is okay.'' @ nl
       else ''  PBS-Backup problems occurred, see below.'' @ nl)
      @ concat (map (\<lambda>m. ''  '' @ m @ nl) pbsMessages))"

definition pbs_log_line :: "tiBackupJobPBSLog \<Rightarrow> string" where
  "pbs_log_line l =
     (if pbslog_errmsg l = [] then ''  '' @ pbslog_vmid l @ '' -> '' @ pbslog_msg l @ nl
      else ''  '' @ pbslog_vmid l @ '' -> '' @ pbslog_msg l @ '', err: '' @ pbslog_errmsg l @ nl)"

definition rsync_log_line :: "tiBackupJobLog \<Rightarrow> string" where
  "rsync_log_line l =
     ''  '' @ log_source l @ '' -> '' @ log_destination l @ '' :: '' @ rsync_getMsg (log_ret_code l) @ nl"

definition mail_report ::
  "tiBackupJob \<Rightarrow> string list \<Rightarrow> string list \<Rightarrow> tiBackupJobLog list \<Rightarrow> tiBackupJobPBSLog list \<Rightarrow> string" where
  "mail_report job bakMessages pbsMessages bakLogs bakPBSLogs =
     ''Backupjob <'' @ job_name job @ ''> was executed, you can now detach drive '' @ job_device job
     @ ''. '' @ nl @ nl @ ''Generated backup information: '' @ nl @ nl
     @ (if bakMessages = [] then ''  Backup scripts are okay.'' @ nl else [])
     @ concat (map (\<lambda>m. ''  '' @ m @ nl) bakMessages)
     @ (if pbs job then pbs_status_lines pbsMessages bakPBSLogs else [])
     @ (if pbs job then nl @ ''PBS status information: '' @ nl @ nl @ concat (map pbs_log_line bakPBSLogs) else [])
     @ nl @ ''Rsync status information: '' @ nl @ nl
     @ concat (map rsync_log_line bakLogs)"

definition notify_params :: "'w ext \<Rightarrow> tiConfMain \<Rightarrow> mail_params" where
  "notify_params E C =
     (let from = to_text (getValue C ''smtp/from'') in
      \<lparr>mp_server = to_text (getValue C ''smtp/server''),
       mp_port = to_i32 (getValue C ''smtp/port''),
       mp_security = securityFromString (to_text (getValue C ''smtp/security'')),
       mp_auth = to_bool (getValue C ''smtp/auth''),
       mp_username = to_text (getValue C ''smtp/username''),
       mp_password = x_base64 E (to_text (getValue C ''smtp/password'')),
       mp_from = (if from = [] then mail_from_default else from)\<rparr>)"

definition send_report ::
  "'w ext \<Rightarrow> tiConfMain \<Rightarrow> tiBackupJob \<Rightarrow> string \<Rightarrow> string list \<Rightarrow> (('w, 'z) st_scheme, unit) state" where
  "send_report E C job msg attachments = do {
     r \<leftarrow> mailer_send E (notify_params E C) (notifyRecipients job)
            (''Information for backupjob <'' @ job_name job @ ''>'') msg attachments;
     (if mres_ok r
      then say (''tiBackupJob::startBackup() -> Mail message was send successfully to '' @ notifyRecipients job)
      else say (''tiBackupJob::startBackup() -> Mail message was NOT send. Error occured: '' @ mres_message r));
     finish \<leftarrow> change (x_now E log_time_format);
     say (''Backup job finished at '' @ finish @ ''!'') }"

definition notify_recipients ::
  "'w ext \<Rightarrow> tiConfMain \<Rightarrow> tiBackupJob \<Rightarrow> (('w, 'z) bst_scheme, unit) state" where
  "notify_recipients E C job =
     whenM (notify job) (do {
       say (''We send notification now to '' @ notifyRecipients job);
       s \<leftarrow> State_Monad.get;
       send_report E C job
         (mail_report job (bak_msgs s) (pbs_msgs s) (bak_logs s) (pbs_logs s))
         (if save_log job then filter (path_exists (os s)) (map log_rsync_path (bak_logs s)) else []) })"

section \<open>The run\<close>

definition release_target ::
  "'w ext \<Rightarrow> DeviceDiskPartition \<Rightarrow> tiBackupJob \<Rightarrow> string \<Rightarrow> (('w, 'z) st_scheme, unit) state" where
  "release_target E part job deviceMountDir =
     (if umount_after_backup job
      then do {
        ok \<leftarrow> umountPartition E part;
        whenM (\<not> ok) (say ''Warning: the backup target could not be unmounted (still busy?); leaving it mounted.'') }
      else say (''Note: ''  @ quot ''unmount after backup''
        @ '' is disabled for this job; leaving the target mounted on '' @ deviceMountDir @ ''.''))"

definition script_before ::
  "'w ext \<Rightarrow> conf_env \<Rightarrow> tiConfMain \<Rightarrow> tiBackupJob \<Rightarrow> string \<Rightarrow> (('w, 'z) bst_scheme, unit) state" where
  "script_before E V C job d =
     whenM (scriptBeforeBackup job \<noteq> [])
       (script_block E V ''before'' [] (scriptBeforeBackup job) d (script_user_of C))"

definition script_after ::
  "'w ext \<Rightarrow> conf_env \<Rightarrow> tiConfMain \<Rightarrow> tiBackupJob \<Rightarrow> string \<Rightarrow> (('w, 'z) bst_scheme, unit) state" where
  "script_after E V C job d =
     whenM (scriptAfterBackup job \<noteq> [])
       (script_block E V ''after'' ''Run script after backup: '' (scriptAfterBackup job) d (script_user_of C))"

text \<open>What is done once the target is mounted on \<open>d\<close>.\<close>

definition backup_mounted ::
  "'w ext \<Rightarrow> conf_env \<Rightarrow> tiConfMain \<Rightarrow> DeviceDiskPartition \<Rightarrow> tiBackupJob \<Rightarrow> string list \<Rightarrow> string \<Rightarrow>
   (('w, 'z) bst_scheme, bool option) state" where
  "backup_mounted E V C part job backupArg d = do {
     script_before E V C job d;
     local_backup E C job backupArg d;
     ssh_backup E C job backupArg d;
     alive \<leftarrow> pbs_backup E C job d;
     if \<not> alive then State_Monad.return None
     else do {
       script_after E V C job d;
       notify_recipients E C job;
       release_target E part job d;
       State_Monad.return (Some True) } }"

definition startBackup_part ::
  "'w ext \<Rightarrow> conf_env \<Rightarrow> DeviceDiskPartition \<Rightarrow> tiBackupJob \<Rightarrow> (('w, 'z) bst_scheme, bool option) state" where
  "startBackup_part E V part job = do {
     C \<leftarrow> change (new_tiConfMain E V);
     State_Monad.update (\<lambda>s. s\<lparr>bak_msgs := [], pbs_msgs := [], bak_logs := [], pbs_logs := []\<rparr>);
     open_detail_log E V C job;
     backupArg \<leftarrow> feature_flags job;
     target \<leftarrow> mount_target E part job;
     case target of
       None \<Rightarrow> State_Monad.return (Some False)
     | Some d \<Rightarrow> backup_mounted E V C part job backupArg d }"

definition startBackup ::
  "'w ext \<Rightarrow> conf_env \<Rightarrow> tiBackupJob \<Rightarrow> (('w, 'z) bst_scheme, bool option) state" where
  "startBackup E V job =
     (if partition_uuid job = [] then State_Monad.return (Some False)
      else do {
        found \<leftarrow> asks (getPartitionByUUID E (partition_uuid job));
        case found of
          None \<Rightarrow> State_Monad.return None
        | Some part \<Rightarrow>
            if part_name part = [] then State_Monad.return (Some False)
            else startBackup_part E V part job })"

text \<open>The worker: the value of the \<open>finished\<close> signal, \<open>None\<close> if it is never emitted.\<close>

definition worker_process :: "'w ext \<Rightarrow> conf_env \<Rightarrow> string \<Rightarrow> (('w, 'z) bst_scheme, bool option) state" where
  "worker_process E V jobname =
     (if jobname = [] then State_Monad.return (Some False)
      else do {
        C \<leftarrow> change (new_tiConfMain E V);
        job \<leftarrow> asks (getJobByName E (to_text (getValue C ''paths/backupjobs'')) jobname);
        case job of
          None \<Rightarrow> State_Monad.return (Some False)
        | Some j \<Rightarrow> startBackup E V j })"

section \<open>Up to the mounted target\<close>

text \<open>Everything before the first use of the target.\<close>

definition prepare ::
  "'w ext \<Rightarrow> conf_env \<Rightarrow> DeviceDiskPartition \<Rightarrow> tiBackupJob \<Rightarrow>
   (('w, 'z) bst_scheme, tiConfMain \<times> string list \<times> string option) state" where
  "prepare E V part job = do {
     C \<leftarrow> change (new_tiConfMain E V);
     State_Monad.update (\<lambda>s. s\<lparr>bak_msgs := [], pbs_msgs := [], bak_logs := [], pbs_logs := []\<rparr>);
     open_detail_log E V C job;
     backupArg \<leftarrow> feature_flags job;
     target \<leftarrow> mount_target E part job;
     State_Monad.return (C, backupArg, target) }"

lemma startBackup_part_prepare:
  "startBackup_part E V part job = do {
     (C, flags, target) \<leftarrow> prepare E V part job;
     case target of None \<Rightarrow> State_Monad.return (Some False) | Some d \<Rightarrow> backup_mounted E V C part job flags d }"
  by (simp add: startBackup_part_def prepare_def)

definition job_flags :: "tiBackupJob \<Rightarrow> string list" where
  "job_flags job = (if delete_add_file_on_dest job then [''--delete''] else [])
     @ (if compare_via_checksum job then [''--checksum''] else [])"

lemma feature_flags_value: "fst (run_state (feature_flags job) s) = job_flags job"
  by (simp add: feature_flags_def job_flags_def say_def run_simps)

definition mount_event :: "event \<Rightarrow> bool" where
  "mount_event e \<longleftrightarrow>
     (case e of
        Exec c \<Rightarrow> (\<exists>args. c = Argv ''mount'' args) \<or> (\<exists>args pw. c = ArgvIn ''cryptsetup'' (''luksOpen'' # args) pw)
      | Log _ \<Rightarrow> True
      | MakePath _ \<Rightarrow> True
      | RemoveDir _ \<Rightarrow> True
      | WriteText _ _ \<Rightarrow> True
      | _ \<Rightarrow> False)"

lemma emits_mount_target: "emits mount_event (mount_target E part job)"
  unfolding mount_target_def mountPartition_def luks_open_def mount_source_def Let_def
  by (intro emits_intros) (auto simp: mount_event_def)

lemma emits_prepare: "emits mount_event (prepare E V part job)"
  unfolding prepare_def open_detail_log_def feature_flags_def Let_def
  by (intro emits_intros emits_mount_target) (auto simp: mount_event_def)

lemma frame_mount_target: "frame (mount_target E part job)"
  unfolding mount_target_def mountPartition_def luks_open_def mount_source_def Let_def
  by (intro frame_intros)

lemma mount_target_mounted:
  assumes "run_state (mount_target E part job) s = (target, s')"
  shows "isMounted part (os s') \<longleftrightarrow> target \<noteq> None"
  using assms
  by (auto simp: mount_target_def run_simps say_def split: if_splits prod.splits)

lemma prepare_run:
  fixes s :: "('w, 'z) bst_scheme"
  assumes "run_state (prepare E V part job) s = ((C, flags, target), s')"
  shows "flags = job_flags job \<and> (isMounted part (os s') \<longleftrightarrow> target \<noteq> None) \<and> C = fst (new_tiConfMain E V (os s))
    \<and> (\<exists>w t. s' = s\<lparr>os := w, trace := t, bak_msgs := [], pbs_msgs := [], bak_logs := [], pbs_logs := []\<rparr>)
    \<and> (\<exists>es. trace s' = trace s @ es \<and> (\<forall>e \<in> set es. mount_event e))"
proof -
  let ?C = "fst (new_tiConfMain E V (os s))" and ?w = "snd (new_tiConfMain E V (os s))"
  let ?s0 = "s\<lparr>os := ?w, bak_msgs := [], pbs_msgs := [], bak_logs := [], pbs_logs := []\<rparr>"
  let ?rest = "do { open_detail_log E V ?C job; flags \<leftarrow> feature_flags job;
      target \<leftarrow> mount_target E part job; State_Monad.return (?C, flags, target) }"
  have rest: "run_state ?rest ?s0 = ((C, flags, target), s')"
    using assms by (simp add: prepare_def run_simps)
  have "frame ?rest"
    unfolding open_detail_log_def feature_flags_def by (intro frame_intros frame_mount_target)
  then obtain w t where "snd (run_state ?rest ?s0) = ?s0\<lparr>os := w, trace := t\<rparr>"
    unfolding frame_def by blast
  then have "s' = s\<lparr>os := w, trace := t, bak_msgs := [], pbs_msgs := [], bak_logs := [], pbs_logs := []\<rparr>"
    unfolding rest by simp
  then have "\<exists>w t. s' = s\<lparr>os := w, trace := t, bak_msgs := [], pbs_msgs := [], bak_logs := [], pbs_logs := []\<rparr>"
    by blast
  moreover obtain s1 s2 where r: "run_state (feature_flags job) s1 = (flags, s2)"
    "run_state (mount_target E part job) s2 = (target, s')" "C = ?C"
    using rest by (auto split: prod.splits)
  then have "flags = job_flags job" using feature_flags_value [of job s1] by simp
  moreover note mount_target_mounted [OF r(2)] r(3)
  moreover obtain es where "trace s' = trace s @ es" "\<forall>e \<in> set es. mount_event e"
    using emitsE [OF emits_prepare, of E V part job s] assms by (metis snd_conv)
  ultimately show ?thesis by blast
qed

section \<open>The working part\<close>

text \<open>From the first script to the second; the value is false if the program crashes.\<close>

definition work ::
  "'w ext \<Rightarrow> conf_env \<Rightarrow> tiConfMain \<Rightarrow> tiBackupJob \<Rightarrow> string list \<Rightarrow> string \<Rightarrow> (('w, 'z) bst_scheme, bool) state" where
  "work E V C job flags d = do {
     script_before E V C job d;
     local_backup E C job flags d;
     ssh_backup E C job flags d;
     alive \<leftarrow> pbs_backup E C job d;
     whenM alive (script_after E V C job d);
     State_Monad.return alive }"

lemma backup_mounted_work:
  "backup_mounted E V C part job flags d = do {
     alive \<leftarrow> work E V C job flags d;
     if alive then do { notify_recipients E C job; release_target E part job d; State_Monad.return (Some True) }
     else State_Monad.return None }"
  unfolding backup_mounted_def work_def
  by (rule state_ext) (auto simp: whenM_def split: prod.splits)

lemma emits_work: "emits work_event (work E V C job flags d)"
  unfolding work_def script_before_def script_after_def
  by (intro emits_intros work_script work_local work_ssh work_pbs)

lemma grows_after_local:
  "runs_along logs_grow (do { ssh_backup E C job flags d; alive \<leftarrow> pbs_backup E C job d;
     whenM alive (script_after E V C job d); State_Monad.return alive })"
  unfolding script_after_def by (intro keeps_intros logs.along_ssh logs.along_pbs logs.along_script)

text \<open>Every folder is copied in between, and its log entry stays.\<close>

lemma work_run:
  assumes "run_state (work E V C job flags d) s = (alive, s')"
  shows "\<exists>es xs ys cls pre rest. trace s' = trace s @ es \<and> (\<forall>e \<in> set es. work_event e)
     \<and> execs es = xs @ map fst cls @ ys \<and> list_all2 (leg_ok E flags d id) (x_order E (backupdirs job)) cls
     \<and> bak_logs s' = pre @ map snd cls @ rest"
proof -
  let ?before = "script_before E V C job d"
  let ?after = "do { ssh_backup E C job flags d; alive \<leftarrow> pbs_backup E C job d;
     whenM alive (script_after E V C job d);
     State_Monad.return alive }"
  obtain s1 where 1: "run_state ?before s = ((), s1)" by (cases "run_state ?before s") simp
  obtain w es2 cls where 2: "run_state (local_backup E C job flags d) s1
      = ((), s1\<lparr>os := w, trace := trace s1 @ es2, bak_logs := bak_logs s1 @ map snd cls\<rparr>)"
      "execs es2 = map fst cls" "list_all2 (leg_ok E flags d id) (x_order E (backupdirs job)) cls"
    using local_backup_run [of E C job flags d s1] by blast
  let ?s2 = "s1\<lparr>os := w, trace := trace s1 @ es2, bak_logs := bak_logs s1 @ map snd cls\<rparr>"
  have 3: "run_state ?after ?s2 = (alive, s')"
    using assms(1) 1 2(1) unfolding work_def by simp
  have "emits work_event ?before" unfolding script_before_def by (intro emits_intros work_script)
  from emits_run [OF this 1] obtain es1 where e1: "trace s1 = trace s @ es1" "\<forall>e \<in> set es1. work_event e"
    by blast
  have "emits work_event ?after" unfolding script_after_def by (intro emits_intros work_script work_ssh work_pbs)
  from emits_run [OF this 3] obtain es3 where e3: "trace s' = trace ?s2 @ es3" "\<forall>e \<in> set es3. work_event e"
    by blast
  have e2: "\<forall>e \<in> set es2. work_event e"
    using emits_run [OF work_local 2(1)] by auto
  obtain rest where "bak_logs s' = bak_logs ?s2 @ rest"
    using runs_alongD [OF grows_after_local 3] by (auto simp: logs_grow_def prefix_def)
  with e1 e2 e3 2(2,3) show ?thesis
    by (intro exI [of _ "es1 @ es2 @ es3"] exI [of _ "execs es1"] exI [of _ "execs es3"] exI [of _ cls]
        exI [of _ "bak_logs s1"] exI [of _ rest]) auto
qed

section \<open>Notification and release\<close>

lemma run_say: "run_state (say m) s = ((), s\<lparr>trace := trace s @ [Log m]\<rparr>)"
  by (simp add: say_def run_simps)

lemma notify_report:
  assumes "notify job"
  shows "run_state (notify_recipients E C job) s = run_state (send_report E C job
      (mail_report job (bak_msgs s) (pbs_msgs s) (bak_logs s) (pbs_logs s))
      (if save_log job then filter (path_exists (os s)) (map log_rsync_path (bak_logs s)) else []))
    (s\<lparr>trace := trace s @ [Log (''We send notification now to '' @ notifyRecipients job)]\<rparr>)"
  using assms by (simp add: notify_recipients_def run_say)

lemma notify_run:
  assumes "run_state (notify_recipients E C job) s = ((), s')"
  shows "\<exists>es. trace s' = trace s @ es \<and> execs es = []
    \<and> (\<forall>m. Smtp (SmtpSend m) \<in> set es \<longrightarrow> notify job \<and> mail_to m = notifyRecipients job
         \<and> mail_content m = mail_report job (bak_msgs s) (pbs_msgs s) (bak_logs s) (pbs_logs s))"
proof (cases "notify job")
  case False
  with assms show ?thesis by (simp add: notify_recipients_def)
next
  case True
  let ?msg = "mail_report job (bak_msgs s) (pbs_msgs s) (bak_logs s) (pbs_logs s)"
  let ?P = "\<lambda>e. (\<exists>l. e = Log l) \<or> (\<exists>c. e = Smtp c \<and> (\<forall>m. c = SmtpSend m \<longrightarrow>
      mail_to m = notifyRecipients job \<and> mail_content m = ?msg))"
  have calls: "c \<in> set (smtp_calls p (build_mail p r sub ?msg at w)) \<Longrightarrow> c = SmtpSend m \<Longrightarrow>
      mail_to m = r \<and> mail_content m = ?msg" for c p r sub at m and w :: "'a sys"
    by (auto simp: smtp_calls_def auth_and_send_def build_mail_def split: Security.splits if_splits)
  have mail: "emits ?P (mailer_send E p (notifyRecipients job) sub ?msg at)" for p sub at
    unfolding mailer_send_def by (intro emits_intros emits_bind_range emits_transmit) (auto simp: run_simps dest: calls)
  let ?at = "if save_log job then filter (path_exists (os s)) (map log_rsync_path (bak_logs s)) else []"
  let ?rest = "send_report E C job ?msg ?at"
  let ?s1 = "s\<lparr>trace := trace s @ [Log (''We send notification now to '' @ notifyRecipients job)]\<rparr>"
  have "emits ?P ?rest" unfolding send_report_def by (intro emits_intros mail) auto
  moreover note run = trans [OF sym [OF notify_report [OF True]] assms]
  ultimately obtain es where "trace s' = trace ?s1 @ es" "\<forall>e \<in> set es. ?P e"
    using emits_run [OF _ run] by blast
  moreover have "\<forall>e \<in> set es. ?P e \<Longrightarrow> execs es = []" for es
    by (induction es) auto
  ultimately show ?thesis using True by fastforce
qed

text \<open>The commands that let go of a target.\<close>

definition release_cmd :: "cmd \<Rightarrow> bool" where
  "release_cmd c \<longleftrightarrow> (\<exists>args. c = Argv ''umount'' args \<or> c = Argv ''cryptsetup'' args)"

lemma release_run:
  assumes "run_state (release_target E part job d) s = ((), s')"
  shows "\<exists>es. trace s' = trace s @ es \<and> (\<forall>c. Smtp c \<notin> set es) \<and>
    (if umount_after_backup job
     then \<exists>closes. execs es = Argv ''umount'' [getMountDir part (os s)] # closes
       \<and> closes \<in> {[], [Argv ''cryptsetup'' [''close'', luks_name part]]}
     else execs es = [])"
  using assms
  by (auto simp: release_target_def umountPartition_def mount_ops say_def split: if_splits)

section \<open>The whole run\<close>

lemma startBackup_found:
  assumes "partition_uuid job \<noteq> []" and "getPartitionByUUID E (partition_uuid job) (os s) = Some part"
    and "part_name part \<noteq> []"
  shows "run_state (startBackup E V job) s = run_state (startBackup_part E V part job) s"
  using assms by (simp add: startBackup_def run_simps)

text \<open>The states between the phases of a run that completes.\<close>

lemma completed_run:
  assumes "run_state (startBackup E V job) s = (Some True, s')"
  obtains part C d s1 s2 s3 where
    "getPartitionByUUID E (partition_uuid job) (os s) = Some part" and "part_name part \<noteq> []"
    and "run_state (prepare E V part job) s = ((C, job_flags job, Some d), s1)" and "isMounted part (os s1)"
    and "run_state (work E V C job (job_flags job) d) s1 = (True, s2)"
    and "run_state (notify_recipients E C job) s2 = ((), s3)"
    and "run_state (release_target E part job d) s3 = ((), s')"
proof -
  obtain part where part: "partition_uuid job \<noteq> []" "getPartitionByUUID E (partition_uuid job) (os s) = Some part"
      "part_name part \<noteq> []"
    using assms by (auto simp: startBackup_def run_simps split: if_splits option.splits)
  obtain C flags target s1 where p: "run_state (prepare E V part job) s = ((C, flags, target), s1)"
    by (metis surj_pair)
  note pr = prepare_run [OF p]
  from assms p have "run_state (case target of None \<Rightarrow> State_Monad.return (Some False)
      | Some d \<Rightarrow> backup_mounted E V C part job flags d) s1 = (Some True, s')"
    by (simp add: startBackup_found [OF part] startBackup_part_prepare)
  then obtain d where d: "target = Some d" "run_state (backup_mounted E V C part job flags d) s1 = (Some True, s')"
    by (cases target) auto
  then obtain s2 where w: "run_state (work E V C job flags d) s1 = (True, s2)"
    and "run_state (do { notify_recipients E C job; release_target E part job d; State_Monad.return (Some True) }) s2
      = (Some True, s')"
    unfolding backup_mounted_work by (auto split: prod.splits if_splits)
  then obtain s3 where "run_state (notify_recipients E C job) s2 = ((), s3)"
    "run_state (release_target E part job d) s3 = ((), s')"
    by (auto split: prod.splits)
  moreover from pr d(1) have "flags = job_flags job" "isMounted part (os s1)" by simp_all
  ultimately show thesis using that part(2,3) p d(1) w by metis
qed


text \<open>
  C3. The target is let go last and only if the job says so: in a run that completes, no program
  releases or closes anything before the copies, the scripts and the mail are done; then, if
  \<open>umount_after_backup\<close> is set, \<open>umount\<close> is run for the directory the mount table has for the target at that
  time, for an encrypted one followed at most by the closing of its mapping, and otherwise nothing.
\<close>

theorem target_released_last:
  assumes "run_state (startBackup E V job) s = (Some True, s')"
  shows "\<exists>part d t xs. getPartitionByUUID E (partition_uuid job) (os s) = Some part
    \<and> execs (trace t) = execs (trace s) @ xs \<and> filter release_cmd xs = []
    \<and> run_state (release_target E part job d) t = ((), s')
    \<and> (if umount_after_backup job
       then \<exists>closes. execs (trace s') = execs (trace t) @ Argv ''umount'' [getMountDir part (os t)] # closes
         \<and> closes \<in> {[], [Argv ''cryptsetup'' [''close'', luks_name part]]}
       else execs (trace s') = execs (trace t))"
proof -
  obtain part C d s1 s2 s3 where r:
    "getPartitionByUUID E (partition_uuid job) (os s) = Some part"
    "run_state (prepare E V part job) s = ((C, job_flags job, Some d), s1)"
    "run_state (work E V C job (job_flags job) d) s1 = (True, s2)"
    "run_state (notify_recipients E C job) s2 = ((), s3)" "run_state (release_target E part job d) s3 = ((), s')"
    by (rule completed_run [OF assms])
  obtain pre where p: "trace s1 = trace s @ pre" "\<forall>e \<in> set pre. mount_event e"
    using prepare_run [OF r(2)] by blast
  obtain es where w: "trace s2 = trace s1 @ es" "\<forall>e \<in> set es. work_event e"
    using work_run [OF r(3)] by blast
  obtain es3 where n: "trace s3 = trace s2 @ es3" "execs es3 = []"
    using notify_run [OF r(4)] by blast
  have "Exec c \<in> set (pre @ es) \<Longrightarrow> \<not> release_cmd c" for c
    using p(2) w(2) by (auto simp: release_cmd_def mount_event_def work_event_def)
  then have "filter release_cmd (execs (pre @ es)) = []"
    by (metis execs_iff filter_empty_conv)
  moreover obtain es4 where "trace s' = trace s3 @ es4" "if umount_after_backup job
     then \<exists>closes. execs es4 = Argv ''umount'' [getMountDir part (os s3)] # closes
       \<and> closes \<in> {[], [Argv ''cryptsetup'' [''close'', luks_name part]]}
     else execs es4 = []"
    using release_run [OF r(5)] by blast
  then have "if umount_after_backup job
     then \<exists>closes. execs (trace s') = execs (trace s3) @ Argv ''umount'' [getMountDir part (os s3)] # closes
       \<and> closes \<in> {[], [Argv ''cryptsetup'' [''close'', luks_name part]]}
     else execs (trace s') = execs (trace s3)"
    by (auto split: if_splits)
  moreover have "execs (trace s3) = execs (trace s) @ execs (pre @ es)"
    using p(1) w(1) n by simp
  ultimately show ?thesis using r(1,5) by blast
qed

text \<open>
  C7. The notification tells of every copy: each mail a completed run sends goes to the job's
  recipients, is sent only if the job wants one, and contains one after the other the lines of
  all folders, each with the source, the destination and what the exit code of its own \<open>rsync\<close>,
  among the programs the run started, stands for.
\<close>

theorem report_tells_every_copy:
  assumes "order_ok E" and "run_state (startBackup E V job) s = (Some True, s')"
  shows "\<exists>es part C d t xs cls ys entries. trace s' = trace s @ es
     \<and> run_state (prepare E V part job) s = ((C, job_flags job, Some d), t)
     \<and> execs (trace s') = execs (trace t) @ xs @ map fst cls @ ys
     \<and> mset entries = backupdirs job \<and> list_all2 (leg_ok E (job_flags job) d id) entries cls
     \<and> (\<forall>m. Smtp (SmtpSend m) \<in> set es \<longrightarrow> notify job \<and> mail_to m = notifyRecipients job
          \<and> (\<exists>a b. mail_content m = a @ concat (map rsync_log_line (map snd cls)) @ b))"
proof -
  obtain part C d s1 s2 s3 where r:
    "run_state (prepare E V part job) s = ((C, job_flags job, Some d), s1)"
    "run_state (work E V C job (job_flags job) d) s1 = (True, s2)"
    "run_state (notify_recipients E C job) s2 = ((), s3)" "run_state (release_target E part job d) s3 = ((), s')"
    by (rule completed_run [OF assms(2)])
  obtain pre where p: "trace s1 = trace s @ pre" "\<forall>e \<in> set pre. mount_event e"
    using prepare_run [OF r(1)] by blast
  obtain es xs ys cls l1 l2 where w: "trace s2 = trace s1 @ es" "\<forall>e \<in> set es. work_event e"
    "execs es = xs @ map fst cls @ ys" "list_all2 (leg_ok E (job_flags job) d id) (x_order E (backupdirs job)) cls"
    "bak_logs s2 = l1 @ map snd cls @ l2"
    using work_run [OF r(2)] by blast
  obtain es3 where n: "trace s3 = trace s2 @ es3" "execs es3 = []"
    "\<forall>m. Smtp (SmtpSend m) \<in> set es3 \<longrightarrow> notify job \<and> mail_to m = notifyRecipients job
         \<and> mail_content m = mail_report job (bak_msgs s2) (pbs_msgs s2) (bak_logs s2) (pbs_logs s2)"
    using notify_run [OF r(3)] by blast
  obtain es4 where e4: "trace s' = trace s3 @ es4" "\<forall>c. Smtp c \<notin> set es4"
    using release_run [OF r(4)] by blast
  have "\<exists>a b. mail_report job (bak_msgs s2) (pbs_msgs s2) (bak_logs s2) (pbs_logs s2)
      = a @ concat (map rsync_log_line (map snd cls)) @ b"
    unfolding mail_report_def w(5) map_append concat_append
    by (metis append.assoc)
  moreover have "Smtp c \<notin> set pre" "Smtp c \<notin> set es" for c
    using p(2) w(2) by (auto simp: mount_event_def)
  ultimately have "\<forall>m. Smtp (SmtpSend m) \<in> set (pre @ es @ es3 @ es4) \<longrightarrow> notify job \<and> mail_to m = notifyRecipients job
      \<and> (\<exists>a b. mail_content m = a @ concat (map rsync_log_line (map snd cls)) @ b)"
    using n(3) e4(2) by auto
  moreover have "trace s' = trace s @ (pre @ es @ es3 @ es4)" using p(1) w(1) n(1) e4(1) by simp
  moreover have "execs (trace s') = execs (trace s1) @ xs @ map fst cls @ (ys @ execs es4)"
    using w(1,3) n(1,2) e4(1) by simp
  moreover have "mset (x_order E (backupdirs job)) = backupdirs job" using assms(1) by (simp add: order_ok_def)
  ultimately show ?thesis using w(4) r(1) by blast
qed

text \<open>
  C6. What \<open>startBackup\<close> returns false for is a hard abort that has touched nothing: the job has no
  uuid, or its disk is not attached, and then nothing at all happened; or the target is not in
  the mount table after the attempt to mount it, and then nothing but the log, the attempt itself
  and the creation and removal of directories was done: nothing was copied, no script
  was run, no server was contacted and no mail was sent.
\<close>

theorem abort_touches_nothing:
  assumes "run_state (startBackup E V job) s = (Some False, s')"
  shows "(partition_uuid job = [] \<and> s' = s)
    \<or> (\<exists>part. getPartitionByUUID E (partition_uuid job) (os s) = Some part \<and>
        (if part_name part = [] then s' = s
         else \<not> isMounted part (os s') \<and>
           (\<exists>es. trace s' = trace s @ es \<and> (\<forall>e \<in> set es. mount_event e))))"
proof (cases "partition_uuid job = []")
  case True
  with assms show ?thesis by (simp add: startBackup_def)
next
  case False
  with assms obtain part where part: "getPartitionByUUID E (partition_uuid job) (os s) = Some part"
    by (auto simp: startBackup_def run_simps split: option.splits)
  show ?thesis
  proof (cases "part_name part = []")
    case True
    with False part assms show ?thesis by (simp add: startBackup_def run_simps)
  next
    case name: False
    obtain C flags target s1 where p: "run_state (prepare E V part job) s = ((C, flags, target), s1)"
      by (metis surj_pair)
    have no_false: "fst (run_state (backup_mounted E V C part job flags d) t) \<noteq> Some False" for d t
      unfolding backup_mounted_work by (auto split: prod.splits)
    from assms p have "run_state (case target of None \<Rightarrow> State_Monad.return (Some False)
        | Some d \<Rightarrow> backup_mounted E V C part job flags d) s1 = (Some False, s')"
      by (simp add: startBackup_found [OF False part name] startBackup_part_prepare)
    with no_false have "target = None" "s' = s1" by (cases target; fastforce dest: arg_cong [where f = fst])+
    with prepare_run [OF p] part name show ?thesis by auto
  qed
qed

section \<open>Runs\<close>

text \<open>A disk with one partition, in a world where \<open>mount\<close> works, and in one where it fails.\<close>

definition run_part :: DeviceDiskPartition where
  "run_part = \<lparr>part_name = ''/dev/sda1'', part_uuid = ''u1'', part_label = [], part_type = ''ext4''\<rparr>"

definition run_ext :: "(cmd \<Rightarrow> unit sys \<Rightarrow> presult \<times> unit sys) \<Rightarrow> unit ext" where
  "run_ext f = calm_ext\<lparr>
     x_exec := f,
     x_udev := \<lambda>_. [[(''DEVTYPE'', ''disk''), (''ID_PART_TABLE_TYPE'', ''gpt''), (''DEVNAME'', ''/dev/sda'')]],
     x_probe := \<lambda>n _. n \<in> {''/dev/sda'', ''/dev/sda1''},
     x_numparts := \<lambda>_ _. Some 1,
     x_blkid := \<lambda>n t _. if t = ''UUID'' then Some ''u1'' else if t = ''TYPE'' then Some ''ext4'' else None\<rparr>"

definition mount_works :: "cmd \<Rightarrow> unit sys \<Rightarrow> presult \<times> unit sys" where
  "mount_works c s = (\<lparr>p_end = Exited 0, p_out = []\<rparr>,
     if c = mount_cmd run_part then s\<lparr>mtab := Some [(''/dev/sda1'', ''/mnt/u1'')]\<rparr> else s)"

definition mount_fails :: "cmd \<Rightarrow> unit sys \<Rightarrow> presult \<times> unit sys" where
  "mount_fails c s = (\<lparr>p_end = Exited 32, p_out = []\<rparr>, s)"

lemma run_part_found: "getPartitionByUUID (run_ext f) ''u1'' s = Some run_part"
  by (simp add: getPartitionByUUID_def getAttachedDisks_def isDeviceDisk_def readPartitions_def upt_rec
      probe_partition_def partition_at_def dev_name_size_def run_ext_def calm_ext_def run_part_def
      udev_disk_def udev_value_def small_numbers Let_def)

lemma mount_target_works:
  "run_state (mount_target (run_ext mount_works) run_part job) s = (target, s') \<Longrightarrow> target \<noteq> None"
  by (auto simp: mount_target_def mountPartition_def mount_source_def mount_ops say_def run_ext_def run_part_def
      mount_works_def mount_cmd_def getMountPathSrc_def mount_dir_of_def isMounted_def isMounted_path_def
      split: prod.splits if_splits)

lemma run_completes:
  assumes "partition_uuid job = ''u1''" and "\<not> pbs job"
  shows "\<exists>s'. run_state (startBackup (run_ext mount_works) V job) s = (Some True, s')"
proof -
  let ?E = "run_ext mount_works"
  have part: "partition_uuid job \<noteq> []" "getPartitionByUUID ?E (partition_uuid job) (os s) = Some run_part"
    "part_name run_part \<noteq> []"
    using assms(1) by (simp_all add: run_part_found run_part_def)
  obtain C flags target s1 where p: "run_state (prepare ?E V run_part job) s = ((C, flags, target), s1)"
    by (metis surj_pair)
  have "target \<noteq> None"
    using p unfolding prepare_def by (auto split: prod.splits dest!: mount_target_works)
  then obtain d where d: "target = Some d" by blast
  have alive: "fst (run_state (work ?E V C job flags d) s1) = True"
    using assms(2) by (simp add: work_def pbs_backup_def case_prod_unfold)
  obtain b s2 where w: "run_state (work ?E V C job flags d) s1 = (b, s2)"
    by (rule prod.exhaust)
  with alive have b by simp
  with w have "fst (run_state (backup_mounted ?E V C run_part job flags d) s1) = Some True"
    unfolding backup_mounted_work by (simp add: case_prod_unfold)
  then have "fst (run_state (startBackup ?E V job) s) = Some True"
    by (simp add: startBackup_found [OF part] startBackup_part_prepare p d)
  then show ?thesis by (metis prod.collapse)
qed

definition run_job :: tiBackupJob where
  "run_job = (plain_job ''j'')\<lparr>partition_uuid := ''u1'', backupdirs := {#(''/home'', ''/b'')#}\<rparr>"

lemma run_job_fields:
  "partition_uuid run_job = ''u1''" "\<not> pbs run_job" "backupdirs run_job = {#(''/home'', ''/b'')#}"
  by (simp_all add: run_job_def plain_job_def)

lemma run_job_dest: "convertGeneric2Path ''/b'' d = ''/b''"
  by (simp add: convertGeneric2Path_def var_partbackup_dir_def)

lemma order_ok_run: "order_ok (run_ext f)"
  by (simp add: order_ok_def run_ext_def calm_ext_def)

lemma run_job_legs:
  assumes "mset entries = {#(''/home'', ''/b'')#}" and "list_all2 (leg_ok E fl d id) entries cls"
  shows "\<exists>args l t. cls = [(Argv ''rsync'' (args @ [''/home'', ''/b'']), l)] \<and> log_source l = ''/home''
    \<and> log_destination l = ''/b'' \<and> log_ret_code l = p_code (fst (x_exec E (Argv ''rsync'' (args @ [''/home'', ''/b''])) t))"
proof -
  from assms(1) have "entries = [(''/home'', ''/b'')]" by simp
  with assms(2) obtain c l where "cls = [(c, l)]" "leg_ok E fl d id (''/home'', ''/b'') (c, l)"
    by (auto simp: list_all2_Cons1)
  then show ?thesis by (auto simp: leg_ok_def run_job_dest)
qed


theorem target_released_last_witness:
  "\<exists>s'. run_state (startBackup (run_ext mount_works) default_env (run_job\<lparr>umount_after_backup := False\<rparr>)) calm_bst
       = (Some True, s')
     \<and> filter release_cmd (execs (trace s')) = []"
proof -
  let ?job = "run_job\<lparr>umount_after_backup := False\<rparr>"
  obtain s' where r: "run_state (startBackup (run_ext mount_works) default_env ?job) calm_bst = (Some True, s')"
    using run_completes [of ?job] run_job_fields(1,2) by auto
  have empty: "execs (trace calm_bst) = []" by (simp add: calm_bst_def)
  from target_released_last [OF r] obtain xs and t :: "unit bst" where
    "execs (trace t) = execs (trace calm_bst) @ xs" "filter release_cmd xs = []" "execs (trace s') = execs (trace t)"
    by auto
  with r empty show ?thesis by simp
qed

lemma notify_sends:
  assumes "notify job" and "mp_server (notify_params E C) \<noteq> []" and "notifyRecipients job \<noteq> []"
    and "\<And>c w. \<exists>b. fst (x_smtp E c w) = Did b"
    and "run_state (notify_recipients E C job) s = ((), s')"
  shows "\<exists>m. Smtp (SmtpSend m) \<in> set (trace s')"
proof -
  let ?p = "notify_params E C"
  let ?msg = "mail_report job (bak_msgs s) (pbs_msgs s) (bak_logs s) (pbs_logs s)"
  let ?at = "if save_log job then filter (path_exists (os s)) (map log_rsync_path (bak_logs s)) else []"
  let ?sub = "''Information for backupjob <'' @ job_name job @ ''>''"
  let ?s1 = "s\<lparr>trace := trace s @ [Log (''We send notification now to '' @ notifyRecipients job)]\<rparr>"
  let ?m = "build_mail ?p (notifyRecipients job) ?sub ?msg ?at (os s)"
  let ?mailer = "mailer_send E ?p (notifyRecipients job) ?sub ?msg ?at"
  have run: "run_state (send_report E C job ?msg ?at) ?s1 = ((), s')"
    by (rule trans [OF sym [OF notify_report [OF assms(1)]] assms(5)])
  obtain r s2 where m: "run_state ?mailer ?s1 = (r, s2)" by fastforce
  obtain t where "run_state (transmit E ?p ?m) ?s1 = (None, t)"
      "trace t = trace ?s1 @ map Smtp (mail_calls ?p (ssl_ready ?s1) ?m)"
    using transmit_no_throw [OF assms(4)] by blast
  with m assms(2,3) have "trace s2 = trace ?s1 @ map Smtp (mail_calls ?p (ssl_ready s) ?m)"
    by (auto simp: mailer_send_def run_simps)
  moreover have "SmtpSend ?m \<in> set (smtp_calls ?p ?m)"
    by (simp add: smtp_calls_def auth_and_send_def split: Security.split)
  ultimately have "Smtp (SmtpSend ?m) \<in> set (trace s2)" by (simp add: mail_calls_def)
  moreover have "set (trace s2) \<subseteq> set (trace s')"
  proof -
    let ?rest = "do {
       (if mres_ok r
        then say (''tiBackupJob::startBackup() -> Mail message was send successfully to '' @ notifyRecipients job)
        else say (''tiBackupJob::startBackup() -> Mail message was NOT send. Error occured: '' @ mres_message r));
       finish \<leftarrow> change (x_now E log_time_format);
       say (''Backup job finished at '' @ finish @ ''!'') }"
    have "emits (\<lambda>_. True) ?rest" by (intro emits_intros) simp_all
    moreover have "run_state ?rest s2 = ((), s')" using run m by (simp add: send_report_def del: if_split)
    ultimately show ?thesis using emits_run by fastforce
  qed
  ultimately show ?thesis by blast
qed

text \<open>A system whose main configuration names a mail server.\<close>

definition mail_sys :: "unit sys" where
  "mail_sys = calm_sys\<lparr>files := [(''/etc/tibackup/main.conf'',
     \<lparr>f_body = Settings [mkey ''smtp/server'' \<mapsto> ''mx''], f_mode = {}\<rparr>)]\<rparr>"

lemma mail_sys_server:
  "mp_server (notify_params (run_ext f) (fst (new_tiConfMain (run_ext f) default_env mail_sys))) = ''mx''"
proof -
  have "conf_free default_env mail_sys"
    by (auto simp: conf_free_def default_env_def mail_sys_def calm_sys_def mainConfigFile_def file_main_def Let_def
        parents_def file_at_def dest!: arg_cong [where f = length])
  from init_secured [OF this, of "run_ext f"] show ?thesis
    by (simp add: notify_params_def new_tiConfMain_def getValue_def to_text_def conf_spec_def upgrade_defaults_def
        file_at_def keys_of_def map_add_def mail_sys_def default_env_def mainConfigFile_def file_main_def Let_def)
qed

theorem report_tells_every_copy_witness:
  "\<exists>s' m a b. run_state (startBackup (run_ext mount_works) default_env
        (run_job\<lparr>notify := True, notifyRecipients := ''a@b''\<rparr>)) (calm_bst\<lparr>os := mail_sys\<rparr>) = (Some True, s')
     \<and> Smtp (SmtpSend m) \<in> set (trace s') \<and> mail_to m = ''a@b''
     \<and> mail_content m = a @ (''  /home -> /b :: Success'' @ nl) @ b"
proof -
  let ?E = "run_ext mount_works" and ?job = "run_job\<lparr>notify := True, notifyRecipients := ''a@b''\<rparr>"
  let ?s = "calm_bst\<lparr>os := mail_sys\<rparr>"
  obtain s' where r: "run_state (startBackup ?E default_env ?job) ?s = (Some True, s')"
    using run_completes [of ?job] run_job_fields(1,2) by auto
  obtain part C d s1 s2 s3 where c: "run_state (prepare ?E default_env part ?job) ?s = ((C, job_flags ?job, Some d), s1)"
      "run_state (notify_recipients ?E C ?job) s2 = ((), s3)" "run_state (release_target ?E part ?job d) s3 = ((), s')"
    by (rule completed_run [OF r])
  have "C = fst (new_tiConfMain ?E default_env mail_sys)" using prepare_run [OF c(1)] by simp
  then have "mp_server (notify_params ?E C) \<noteq> []" by (simp add: mail_sys_server)
  moreover have "\<exists>b. fst (x_smtp ?E k w) = Did b" for k w by (auto simp: run_ext_def calm_ext_def)
  ultimately obtain m where "Smtp (SmtpSend m) \<in> set (trace s3)"
    using notify_sends [OF _ _ _ _ c(2)] by auto
  with release_run [OF c(3)] have m: "Smtp (SmtpSend m) \<in> set (trace s')" by auto
  from report_tells_every_copy [OF order_ok_run r] obtain es d' cls entries where t: "trace s' = trace ?s @ es"
    "mset entries = backupdirs ?job" "list_all2 (leg_ok ?E (job_flags ?job) d' id) entries cls"
    "\<forall>m. Smtp (SmtpSend m) \<in> set es \<longrightarrow> notify ?job \<and> mail_to m = notifyRecipients ?job
        \<and> (\<exists>a b. mail_content m = a @ concat (map rsync_log_line (map snd cls)) @ b)"
    by blast
  from m t(1) have "Smtp (SmtpSend m) \<in> set es" by (simp add: calm_bst_def)
  with t(4) obtain a b where ab: "mail_to m = ''a@b''" "mail_content m = a @ concat (map rsync_log_line (map snd cls)) @ b"
    by auto
  have "mset entries = {#(''/home'', ''/b'')#}" using t(2) run_job_fields(3) by simp
  from run_job_legs [OF this t(3)] obtain c l where "cls = [(c, l)]" "log_source l = ''/home''"
    "log_destination l = ''/b''" "log_ret_code l = 0"
    by (auto simp: run_ext_def mount_works_def)
  then have "concat (map rsync_log_line (map snd cls)) = ''  /home -> /b :: Success'' @ nl"
    by (simp add: rsync_log_line_def rsync_getMsg_def rsync_codes_def)
  with r m ab show ?thesis by metis
qed

theorem abort_touches_nothing_witness:
  "\<exists>s'. run_state (startBackup (run_ext mount_fails) default_env run_job) calm_bst = (Some False, s')
     \<and> \<not> isMounted run_part (os s') \<and> filter (\<lambda>e. \<not> mount_event e) (trace s') = []"
proof -
  let ?E = "run_ext mount_fails"
  have part: "partition_uuid run_job \<noteq> []" "getPartitionByUUID ?E (partition_uuid run_job) (os calm_bst) = Some run_part"
    "part_name run_part \<noteq> []"
    using run_job_fields(1) by (simp_all add: run_part_found run_part_def)
  have "fst (run_state (startBackup ?E default_env run_job) calm_bst) = Some False"
    unfolding startBackup_found [OF part]
    by (simp add: startBackup_part_def open_detail_log_def feature_flags_def mount_target_def mountPartition_def
        mount_source_def mount_ops write_text_def say_def isMounted_def isMounted_path_def getMountPathSrc_def
        run_job_def plain_job_def run_part_def run_ext_def calm_ext_def mount_fails_def calm_bst_def calm_sys_def)
  then obtain s' where r: "run_state (startBackup ?E default_env run_job) calm_bst = (Some False, s')"
    by (metis prod.collapse)
  from abort_touches_nothing [OF r] part have "\<not> isMounted run_part (os s')"
    "\<exists>es. trace s' = trace calm_bst @ es \<and> (\<forall>e \<in> set es. mount_event e)"
    by auto
  with r show ?thesis by (auto simp: calm_bst_def filter_empty_conv)
qed

section \<open>A race\<close>

text \<open>
  If \<open>mount\<close> fails but the partition is in the mount table all the same, because an automounter was
  faster, \<open>mountPartition\<close> returns the empty path, the run goes on, and every destination
  under the target's token is then taken from the root of the system's own file system.
\<close>

definition mount_races :: "cmd \<Rightarrow> unit sys \<Rightarrow> presult \<times> unit sys" where
  "mount_races c s = (\<lparr>p_end = Exited 32, p_out = []\<rparr>,
     if c = mount_cmd run_part then s\<lparr>mtab := Some [(''/dev/sda1'', ''/media/disk'')]\<rparr> else s)"

lemma automount_race:
  "fst (run_state (mount_target (run_ext mount_races) run_part job) calm_bst) = Some []
   \<and> getMountDir run_part (os (snd (run_state (mount_target (run_ext mount_races) run_part job) calm_bst))) = ''/media/disk''
   \<and> convertGeneric2Path ''%MNTBACKUPDIR%/home'' [] = ''/home''"
  by (simp add: mount_target_def mountPartition_def mount_source_def mount_ops say_def run_ext_def run_part_def
      mount_races_def mount_cmd_def getMountPathSrc_def mount_dir_of_def filePath_def mount_root_def isMounted_def
      isMounted_path_def getMountDir_def getMountDir_path_def calm_bst_def calm_sys_def calm_ext_def
      convertGeneric2Path_def var_partbackup_dir_def rmdir_def mkdir_def path_exists_def file_at_def)

text \<open>The worker reports the outcome of the very job the store holds under its name, or a failure.\<close>

lemma worker_reports:
  "run_state (worker_process E V n) s =
    (if n = [] then (Some False, s)
     else let C = fst (new_tiConfMain E V (os s)); s1 = s\<lparr>os := snd (new_tiConfMain E V (os s))\<rparr>
          in case getJobByName E (to_text (getValue C ''paths/backupjobs'')) n (os s1) of
            None \<Rightarrow> (Some False, s1)
          | Some job \<Rightarrow> run_state (startBackup E V job) s1)"
  by (simp add: worker_process_def run_simps Let_def split: option.split)

end
