(* ===== verification/Manager.thy ===== *)
theory Manager
  imports JobData
begin

text \<open>
  \<open>backupManager\<close> (backupmanager.cpp) and the life of its worker threads
  (\<open>tiBackupJob::startBackupThread\<close>, \<open>tiBackupJobWorker\<close>). The manager keeps the live status
  of every job and emits \<open>statusChanged\<close>; workers run on their own threads and report back
  by a queued signal, which the main thread delivers later. \<open>manager_step\<close> interleaves the
  calls, the ends of the workers and the deliveries in any order.
\<close>

datatype backupStatus = Running | Failed | Finished | Standby

record manager =
  backups :: "string \<rightharpoonup> backupStatus"
  statusChanged :: "(string \<times> backupStatus) list"

definition new_manager :: manager where
  "new_manager = \<lparr>backups = Map.empty, statusChanged = []\<rparr>"

definition getBackupStatus :: "manager \<Rightarrow> string \<Rightarrow> backupStatus" where
  "getBackupStatus m n = (case backups m n of Some st \<Rightarrow> st | None \<Rightarrow> Standby)"

definition set_status :: "string \<Rightarrow> backupStatus \<Rightarrow> manager \<Rightarrow> manager" where
  "set_status n st m =
     m\<lparr>backups := (backups m)(n \<mapsto> st), statusChanged := statusChanged m @ [(n, st)]\<rparr>"

text \<open>
  \<open>startBackupThread\<close> creates one thread whose worker, and whose \<open>finished\<close> connection,
  carry the job's name; the list is the names of the workers started. The result of
  \<open>getJobByName\<close> is the argument \<open>found\<close>.
\<close>

definition startBackupThread :: "tiBackupJob \<Rightarrow> string list" where
  "startBackupThread job = [job_name job]"

definition manager_startBackup ::
  "tiBackupJob option \<Rightarrow> string \<Rightarrow> manager \<Rightarrow> bool \<times> string list \<times> manager" where
  "manager_startBackup found n m =
     (case found of
        None \<Rightarrow> (False, [], m)
      | Some job \<Rightarrow>
          if backups m n = None \<or> backups m n \<noteq> None \<and> backups m n \<noteq> Some Running
          then (True, startBackupThread job, set_status n Running m)
          else (False, [], m))"

definition onBackupFinished :: "string \<Rightarrow> bool \<Rightarrow> manager \<Rightarrow> manager" where
  "onBackupFinished n ok m = set_status n (if ok then Finished else Failed) m"

section \<open>The threads around the manager\<close>

text \<open>
  \<open>live\<close> are the names of the jobs whose worker has not ended yet (one entry per thread),
  \<open>queued\<close> the \<open>finished\<close> signals not yet delivered to the main thread.
\<close>

record msys =
  mgr :: manager
  live :: "string list"
  queued :: "(string \<times> bool) list"

definition init_msys :: msys where
  "init_msys = \<lparr>mgr = new_manager, live = [], queued = []\<rparr>"

text \<open>
  \<open>getJobByName\<close> returns a job of the name asked for (\<open>getJobByName_name\<close> in theory
  ConfStores), so the premise of the first rule ties \<open>found\<close> to \<open>n\<close>.
\<close>

inductive manager_step :: "msys \<Rightarrow> msys \<Rightarrow> bool" where
  call: "(\<And>job. found = Some job \<Longrightarrow> job_name job = n) \<Longrightarrow>
     manager_startBackup found n (mgr s) = (r, new, m) \<Longrightarrow>
     manager_step s (s\<lparr>mgr := m, live := live s @ new\<rparr>)"
| worker_end: "live s = xs @ n # ys \<Longrightarrow>
     manager_step s (s\<lparr>live := xs @ ys, queued := queued s @ [(n, ok)]\<rparr>)"
| deliver: "queued s = xs @ (n, ok) # ys \<Longrightarrow>
     manager_step s (s\<lparr>mgr := onBackupFinished n ok (mgr s), queued := xs @ ys\<rparr>)"

inductive manager_reach :: "msys \<Rightarrow> bool" where
  start: "manager_reach init_msys"
| step: "manager_reach s \<Longrightarrow> manager_step s t \<Longrightarrow> manager_reach t"

inductive_cases manager_stepE: "manager_step s t"

text \<open>A job is running exactly while one worker of it lives or its signal is on the way.\<close>

definition in_flight :: "msys \<Rightarrow> string \<Rightarrow> nat" where
  "in_flight s n = count_list (live s) n + count_list (map fst (queued s)) n"

definition manager_inv :: "msys \<Rightarrow> bool" where
  "manager_inv s \<longleftrightarrow>
     (\<forall>n. in_flight s n = (if backups (mgr s) n = Some Running then 1 else 0))"

text \<open>What an observer of \<open>statusChanged\<close> knows: the last status signalled for each job.\<close>

fun replay :: "(string \<times> backupStatus) list \<Rightarrow> (string \<rightharpoonup> backupStatus) \<Rightarrow> (string \<rightharpoonup> backupStatus)" where
  "replay [] v = v"
| "replay (e # es) v = replay es (v(fst e \<mapsto> snd e))"

lemma replay_append: "replay (xs @ ys) v = replay ys (replay xs v)"
  by (induction xs arbitrary: v) auto

lemmas manager_defs =
  manager_startBackup_def startBackupThread_def set_status_def onBackupFinished_def

lemma in_flight_call:
  "in_flight (s\<lparr>mgr := m, live := live s @ new\<rparr>) k = in_flight s k + count_list new k"
  by (simp add: in_flight_def)

lemma in_flight_worker_end:
  "live s = xs @ n # ys \<Longrightarrow>
   in_flight (s\<lparr>live := xs @ ys, queued := queued s @ [(n, ok)]\<rparr>) k = in_flight s k"
  by (simp add: in_flight_def)

lemma in_flight_deliver:
  "queued s = xs @ (n, ok) # ys \<Longrightarrow>
   in_flight s k = in_flight (s\<lparr>mgr := m, queued := xs @ ys\<rparr>) k + (if k = n then 1 else 0)"
  by (simp add: in_flight_def)

lemma manager_step_inv: "manager_step s t \<Longrightarrow> manager_inv s \<Longrightarrow> manager_inv t"
proof (induction rule: manager_step.induct)
  case (call found n s r new m)
  show ?case
  proof (cases "new = []")
    case True
    with call have "m = mgr s" by (auto simp: manager_defs split: option.splits if_splits)
    with True call.prems show ?thesis by (simp add: manager_inv_def in_flight_call)
  next
    case False
    with call have "new = [n]" "m = set_status n Running (mgr s)" "backups (mgr s) n \<noteq> Some Running"
      by (auto simp: manager_startBackup_def startBackupThread_def split: option.splits if_splits)
    with call.prems show ?thesis by (simp add: manager_inv_def in_flight_call set_status_def)
  qed
next
  case (worker_end s xs n ys ok)
  then show ?case by (simp add: manager_inv_def in_flight_worker_end)
next
  case (deliver s xs n ok ys)
  let ?t = "s\<lparr>mgr := onBackupFinished n ok (mgr s), queued := xs @ ys\<rparr>"
  have fl: "in_flight s k = in_flight ?t k + (if k = n then 1 else 0)" for k
    by (rule in_flight_deliver [OF deliver.hyps])
  have "backups (mgr s) n = Some Running"
    using deliver.prems fl [of n] by (auto simp: manager_inv_def split: if_splits)
  with deliver.prems fl show ?case
    by (auto simp: manager_inv_def manager_defs split: if_splits)
qed

lemma manager_reach_inv: "manager_reach s \<Longrightarrow> manager_inv s"
proof (induction rule: manager_reach.induct)
  case start
  show ?case by (simp add: manager_inv_def in_flight_def init_msys_def new_manager_def)
next
  case (step s t)
  then show ?case by (blast intro: manager_step_inv)
qed

lemma manager_step_replay:
  "manager_step s t \<Longrightarrow> replay (statusChanged (mgr s)) Map.empty = backups (mgr s) \<Longrightarrow>
   replay (statusChanged (mgr t)) Map.empty = backups (mgr t)"
  by (induction rule: manager_step.induct)
     (auto simp: manager_defs replay_append split: option.splits if_splits)

text \<open>
  C23. In every reachable state, whatever the interleaving of calls, ends of workers and
  deliveries: a job has at most one worker that is alive or has an undelivered result, and
  it has one exactly when its status is \<open>running\<close>.
\<close>

theorem one_worker_per_job:
  assumes "manager_reach s"
  shows "count_list (live s) n + count_list (map fst (queued s)) n
           = (if getBackupStatus (mgr s) n = Running then 1 else 0)"
  using manager_reach_inv [OF assms]
  by (auto simp: manager_inv_def in_flight_def getBackupStatus_def split: option.splits)

text \<open>A run of the system: job \<open>a\<close> is started, and its worker ends successfully.\<close>

definition one_job_state :: msys where
  "one_job_state = init_msys\<lparr>mgr := set_status ''a'' Running new_manager, live := [''a'']\<rparr>"

lemma one_job_state_reach: "manager_reach one_job_state"
proof -
  have "manager_step init_msys
          (init_msys\<lparr>mgr := set_status ''a'' Running new_manager, live := live init_msys @ [''a'']\<rparr>)"
    by (rule manager_step.call [where found = "Some (plain_job ''a'')" and n = "''a''"])
       (auto simp: manager_defs plain_job_def init_msys_def new_manager_def)
  then have "manager_step init_msys one_job_state"
    by (simp add: one_job_state_def init_msys_def)
  with manager_reach.start show ?thesis by (rule manager_reach.step)
qed

theorem one_worker_per_job_witness:
  "count_list (live one_job_state) ''a'' = 1"
  using one_worker_per_job [OF one_job_state_reach, of "''a''"]
  by (simp add: one_job_state_def init_msys_def getBackupStatus_def set_status_def)

text \<open>
  C19. A start is refused, and then changes nothing, exactly while a worker of the job is alive
  or its result is undelivered; otherwise it is accepted, creates exactly one worker, carrying the job's
  name, and signals and records \<open>running\<close>.
\<close>

theorem start_accepted_iff_idle:
  assumes "manager_reach s"
  shows "manager_startBackup (Some job) n (mgr s) =
     (if n \<in> set (live s) \<or> n \<in> fst ` set (queued s) then (False, [], mgr s)
      else (True, [job_name job], set_status n Running (mgr s)))"
proof -
  have "0 < in_flight s n \<longleftrightarrow> n \<in> set (live s) \<or> n \<in> fst ` set (queued s)"
    by (simp add: in_flight_def count_list_pos_iff)
  moreover have "0 < in_flight s n \<longleftrightarrow> backups (mgr s) n = Some Running"
    using manager_reach_inv [OF assms] by (simp add: manager_inv_def)
  ultimately show ?thesis by (auto simp: manager_startBackup_def startBackupThread_def)
qed

theorem start_accepted_iff_idle_witness:
  "manager_startBackup (Some (plain_job ''a'')) ''a'' (mgr one_job_state)
     = (False, [], mgr one_job_state)
   \<and> fst (manager_startBackup (Some (plain_job ''b'')) ''b'' (mgr one_job_state))"
  using start_accepted_iff_idle [OF one_job_state_reach, of "plain_job ''a''" "''a''"]
    start_accepted_iff_idle [OF one_job_state_reach, of "plain_job ''b''" "''b''"]
  by (simp add: one_job_state_def init_msys_def)

text \<open>
  The \<open>statusChanged\<close> signals are a complete record: an observer that keeps the last
  signalled status of each job has the manager's own table in every reachable state.
\<close>

theorem signals_replay_table:
  assumes "manager_reach s"
  shows "replay (statusChanged (mgr s)) Map.empty = backups (mgr s)"
  using assms
proof (induction rule: manager_reach.induct)
  case start
  show ?case by (simp add: init_msys_def new_manager_def)
next
  case (step s t)
  then show ?case by (blast intro: manager_step_replay)
qed

theorem signals_replay_table_witness:
  "replay (statusChanged (mgr one_job_state)) Map.empty = [''a'' \<mapsto> Running]"
  using signals_replay_table [OF one_job_state_reach]
  by (simp add: one_job_state_def set_status_def new_manager_def)

end
