(* ===== verification/StoreMap.thy ===== *)
theory StoreMap
  imports ConfStores
begin

text \<open>
  The configuration stores as maps, for whole sequences of calls: the abstract specification of
  \<open>tiConfBackupJobs\<close>, \<open>tiConfPBServers\<close> and \<open>tiConfSSHServers\<close> is a finite map that \<open>Save\<close>
  updates and \<open>Remove\<close> deletes from. The locale \<open>map_store\<close> states what one call keeps and proves the
  refinement for any sequence; it is interpreted on the three stores of the code.
\<close>

section \<open>The abstract store\<close>

datatype 'a store_op = Save 'a | Remove string

fun map_op :: "('a \<Rightarrow> string) \<Rightarrow> 'a store_op \<Rightarrow> (string \<rightharpoonup> 'a) \<Rightarrow> (string \<rightharpoonup> 'a)" where
  "map_op key (Save x) m = m(key x \<mapsto> x)"
| "map_op key (Remove k) m = m(k := None)"

fun run_op ::
  "('a \<Rightarrow> 'w sys \<Rightarrow> 'w sys) \<Rightarrow> (string \<Rightarrow> 'w sys \<Rightarrow> bool \<times> 'w sys) \<Rightarrow> 'a store_op \<Rightarrow> 'w sys \<Rightarrow> 'w sys" where
  "run_op save remove (Save x) s = save x s"
| "run_op save remove (Remove k) s = snd (remove k s)"

fun op_ok :: "('a \<Rightarrow> string) \<Rightarrow> ('a \<Rightarrow> bool) \<Rightarrow> 'a store_op \<Rightarrow> bool" where
  "op_ok key ok (Save x) \<longleftrightarrow> ok x \<and> key_ok (key x)"
| "op_ok key ok (Remove k) \<longleftrightarrow> key_ok k"

text \<open>
  The contract of one call. \<open>inv\<close> is the store's invariant, \<open>lookup\<close> finds an item by its key
  and \<open>items\<close> lists the store.
\<close>

locale map_store =
  fixes save :: "'a \<Rightarrow> 'w sys \<Rightarrow> 'w sys"
    and remove :: "string \<Rightarrow> 'w sys \<Rightarrow> bool \<times> 'w sys"
    and lookup :: "string \<Rightarrow> 'w sys \<Rightarrow> 'a option"
    and items :: "'w sys \<Rightarrow> 'a list"
    and key :: "'a \<Rightarrow> string"
    and ok :: "'a \<Rightarrow> bool"
    and inv :: "'w sys \<Rightarrow> bool"
  assumes inv_save: "inv s \<Longrightarrow> ok x \<Longrightarrow> inv (save x s)"
    and inv_remove: "inv s \<Longrightarrow> inv (snd (remove k s))"
    and lookup_save: "inv s \<Longrightarrow> ok x \<Longrightarrow> key_ok n \<Longrightarrow>
      lookup n (save x s) = (if n = key x then Some x else lookup n s)"
    and lookup_remove: "inv s \<Longrightarrow> key_ok n \<Longrightarrow>
      lookup n (snd (remove k s)) = (if n = k then None else lookup n s)"
    and items_lookup: "inv s \<Longrightarrow> x \<in> set (items s) \<longleftrightarrow> (\<exists>k. key_ok k \<and> lookup k s = Some x)"
    and items_once: "inv s \<Longrightarrow> distinct (map key (items s))"
begin

lemma inv_op: "inv s \<Longrightarrow> op_ok key ok oper \<Longrightarrow> inv (run_op save remove oper s)"
  by (cases oper) (auto intro: inv_save inv_remove)

lemma lookup_op:
  "inv s \<Longrightarrow> op_ok key ok oper \<Longrightarrow> key_ok n \<Longrightarrow>
   lookup n (run_op save remove oper s) = map_op key oper (\<lambda>k. lookup k s) n"
  by (cases oper) (simp_all add: lookup_save lookup_remove)

lemma map_op_at: "m n = m' n \<Longrightarrow> map_op key oper m n = map_op key oper m' n"
  by (cases oper) auto

lemma map_ops_at: "m n = m' n \<Longrightarrow> fold (map_op key) ops m n = fold (map_op key) ops m' n"
proof (induction ops arbitrary: m m')
  case Nil
  then show ?case by simp
next
  case (Cons oper ops)
  have "map_op key oper m n = map_op key oper m' n" by (rule map_op_at) (rule Cons.prems)
  then have "fold (map_op key) ops (map_op key oper m) n = fold (map_op key) ops (map_op key oper m') n"
    by (rule Cons.IH)
  then show ?case by simp
qed

lemma inv_ops: "inv s \<Longrightarrow> \<forall>oper \<in> set ops. op_ok key ok oper \<Longrightarrow> inv (fold (run_op save remove) ops s)"
  by (induction ops arbitrary: s) (auto simp: inv_op)

lemma lookup_ops:
  "inv s \<Longrightarrow> \<forall>oper \<in> set ops. op_ok key ok oper \<Longrightarrow> key_ok n \<Longrightarrow>
   lookup n (fold (run_op save remove) ops s) = fold (map_op key) ops (\<lambda>k. lookup k s) n"
proof (induction ops arbitrary: s)
  case Nil
  then show ?case by simp
next
  case (Cons oper ops)
  let ?t = "run_op save remove oper s"
  have "lookup n (fold (run_op save remove) ops ?t) = fold (map_op key) ops (\<lambda>k. lookup k ?t) n"
    using Cons.prems by (intro Cons.IH) (auto simp: inv_op)
  also have "\<dots> = fold (map_op key) ops (map_op key oper (\<lambda>k. lookup k s)) n"
    using Cons.prems by (intro map_ops_at) (simp add: lookup_op)
  finally show ?case by simp
qed

lemma refines_map:
  assumes "inv s" and "\<forall>oper \<in> set ops. op_ok key ok oper"
  shows "let t = fold (run_op save remove) ops s; m = fold (map_op key) ops (\<lambda>k. lookup k s) in
    inv t \<and> (\<forall>k. key_ok k \<longrightarrow> lookup k t = m k)
    \<and> set (items t) = {x. \<exists>k. key_ok k \<and> m k = Some x} \<and> distinct (map key (items t))"
proof -
  note t = inv_ops [OF assms]
  let ?t = "fold (run_op save remove) ops s" and ?m = "fold (map_op key) ops (\<lambda>k. lookup k s)"
  have l: "\<forall>k. key_ok k \<longrightarrow> lookup k ?t = ?m k" using lookup_ops [OF assms] by simp
  then have "set (items ?t) = {x. \<exists>k. key_ok k \<and> ?m k = Some x}"
    by (intro set_eqI) (simp add: items_lookup [OF t] cong: conj_cong)
  with l t items_once [OF t] show ?thesis by (simp only: Let_def simp_thms)
qed

end

section \<open>The invariant of the files\<close>

lemma distinct_put_file [simp]: "distinct (map fst (put_file p f es)) = distinct (map fst es)"
  by (auto simp: fst_put_file)

lemma wf_files_ops [simp]:
  "wf_files s \<Longrightarrow> wf_files (file_write p b s)" "wf_files s \<Longrightarrow> wf_files (set_mode p m s)"
  "wf_files s \<Longrightarrow> wf_files (mkpath p s)" "wf_files s \<Longrightarrow> wf_files (snd (file_remove p s))"
  by (auto simp: wf_files_def file_write_def set_mode_def mkpath_def file_remove_def distinct_map_filter
      split: option.split)

lemma wf_files_save: "wf_files s \<Longrightarrow> wf_files (save_settings E d p wr s)"
  by (simp add: save_settings_def Let_def)

definition store_inv ::
  "'w ext \<Rightarrow> (settings \<Rightarrow> 'a) \<Rightarrow> ('a \<Rightarrow> string) \<Rightarrow> string \<Rightarrow> 'w sys \<Rightarrow> bool" where
  "store_inv E dec key d s \<longleftrightarrow>
     order_ok E \<and> store_consistent E dec key d s \<and> wf_files s \<and> (\<forall>k. \<not> refused s (store_file d k))"

context conf_store
begin

lemma store_items_once:
  assumes "store_inv E dec key d s"
  shows "distinct (map key (read_settings E d dec s))"
proof -
  have key: "key (dec (file_keys E p s)) = k"
    if "p \<in> set (conf_files d s)" "p = store_file d k" for p k
  proof -
    from that obtain f where f: "key_ok k" "file_at s p = Some f" unfolding conf_files_iff by auto
    with that(2) have "store_abs E dec d s k = Some (dec (file_keys E p s))"
      by (simp add: store_abs_def file_keys_def)
    with f(1) assms show ?thesis by (simp add: store_inv_def store_consistent_def)
  qed
  have "inj_on (\<lambda>p. key (dec (file_keys E p s))) (set (conf_files d s))"
    by (rule inj_onI) (metis conf_files_iff key)
  moreover have "distinct (conf_files d s)"
    using assms by (simp add: store_inv_def wf_files_def conf_files_def dir_entries_def)
  ultimately show ?thesis by (simp add: read_settings_def distinct_map comp_def)
qed

lemma store_is_map:
  assumes ok: "\<And>x. ok' x \<Longrightarrow> ok E x"
  shows "map_store (\<lambda>x. save_settings E d (store_file d (key x)) (enc E x)) (\<lambda>k. file_remove (store_file d k))
    (\<lambda>k s. List.find (\<lambda>x. key x = k) (read_settings E d dec s)) (read_settings E d dec) key ok'
    (store_inv E dec key d)"
proof
  fix s :: "'w sys" and x k n
  assume inv: "store_inv E dec key d s"
  note i = inv [unfolded store_inv_def]
  show "distinct (map key (read_settings E d dec s))" by (rule store_items_once [OF inv])
  show "store_inv E dec key d (snd (file_remove (store_file d k) s))"
    unfolding store_inv_def using i by (auto intro: remove_consistent)
  show "x \<in> set (read_settings E d dec s)
      \<longleftrightarrow> (\<exists>k. key_ok k \<and> List.find (\<lambda>y. key y = k) (read_settings E d dec s) = Some x)"
    unfolding read_settings_iff using i find_key by metis
  { assume "ok' x"
    then show "store_inv E dec key d (save_settings E d (store_file d (key x)) (enc E x) s)"
      using i ok save_consistent by (simp add: store_inv_def wf_files_save) }
  { assume "key_ok n"
    then show "List.find (\<lambda>y. key y = n) (read_settings E d dec (snd (file_remove (store_file d k) s)))
        = (if n = k then None else List.find (\<lambda>y. key y = n) (read_settings E d dec s))"
      by (intro find_after_remove) (use i in auto) }
  { assume "ok' x" "key_ok n"
    then show "List.find (\<lambda>y. key y = n) (read_settings E d dec (save_settings E d (store_file d (key x)) (enc E x) s))
        = (if n = key x then Some x else List.find (\<lambda>y. key y = n) (read_settings E d dec s))"
      by (intro find_after_save) (use i ok in auto) }
qed

end

section \<open>The three stores\<close>

abbreviation job_inv :: "'w ext \<Rightarrow> string \<Rightarrow> 'w sys \<Rightarrow> bool" where
  "job_inv E d \<equiv> store_inv E job_decode job_name d"

abbreviation run_job_ops :: "'w ext \<Rightarrow> string \<Rightarrow> tiBackupJob store_op list \<Rightarrow> 'w sys \<Rightarrow> 'w sys" where
  "run_job_ops E d \<equiv> fold (run_op (saveBackupJob E d) (removeJobByName d))"

interpretation job_map: map_store "saveBackupJob E d" "removeJobByName d" "getJobByName E d" "getJobs E d"
  job_name "wf_job E" "store_inv E job_decode job_name d" for E d
  using job_store.store_is_map [where E = E and d = d and ok' = "wf_job E"]
  unfolding saveBackupJob_def [abs_def] removeJobByName_def [abs_def] getJobByName_def [abs_def]
    getJobs_def [abs_def] readBackupJobs_def by simp

interpretation pb_map: map_store "pb_saveItem E d" "pb_removeItemByUuid d" "pb_getItemByUuid E d" "pb_getItems E d"
  pb_uuid "\<lambda>_. True" "store_inv E pb_decode pb_uuid d" for E d
  using pb_store.store_is_map [where E = E and d = d and ok' = "\<lambda>_. True"]
  unfolding pb_saveItem_def [abs_def] pb_removeItemByUuid_def [abs_def] pb_getItemByUuid_def [abs_def]
    pb_getItems_def [abs_def] by simp

interpretation srv_map: map_store "srv_saveItem E d" "srv_removeItemByUuid d" "srv_getItemByUuid E d" "srv_getItems E d"
  srv_uuid "\<lambda>_. True" "store_inv E srv_decode srv_uuid d" for E d
  using srv_store.store_is_map [where E = E and d = d and ok' = "\<lambda>_. True"]
  unfolding srv_saveItem_def [abs_def] srv_removeItemByUuid_def [abs_def] srv_getItemByUuid_def [abs_def]
    srv_getItems_def [abs_def] by simp


lemma calm_job_inv: "job_inv calm_ext d calm_sys"
  by (simp add: store_inv_def order_ok_calm calm_sys_def wf_files_def)




end
