(* ===== verification/LoadedJobs.thy ===== *)
theory LoadedJobs
  imports StoreMap
begin

text \<open>
  What \<open>readBackupJobs\<close> can produce, whatever is in the files: every loaded job is well formed, so
  that editing and saving it loses nothing. The core is the loop that groups the flat SSH
  rows per server; its invariant is \<open>ssh_index\<close>.
\<close>

section \<open>Grouping rows per server\<close>

text \<open>The index maps each server to the one target that has its rows, and no target is empty.\<close>

definition ssh_index :: "(string \<Rightarrow> nat option) \<times> tiBackupJobSSHTarget list \<Rightarrow> bool" where
  "ssh_index st \<longleftrightarrow>
     (\<forall>u i. fst st u = Some i \<longleftrightarrow> i < length (snd st) \<and> t_server_uuid (snd st ! i) = u)
     \<and> (\<forall>t \<in> set (snd st). t_backupdirs t \<noteq> {#})"

definition ssh_size :: "tiBackupJobSSHTarget list \<Rightarrow> nat" where
  "ssh_size ts = sum_list (map (\<lambda>t. size (t_backupdirs t)) ts)"

lemma ssh_size_update:
  "i < length ts \<Longrightarrow> t_backupdirs t = add_mset e (t_backupdirs (ts ! i)) \<Longrightarrow>
   ssh_size (ts[i := t]) = Suc (ssh_size ts)"
  by (induction ts arbitrary: i) (auto simp: ssh_size_def split: nat.splits)

lemma add_ssh_entry_known:
  assumes "ssh_index (idx, ts)" and "idx u = Some i" and "add_ssh_entry (idx, ts) [u, src, dst] = (idx', ts')"
  shows "ssh_index (idx', ts') \<and> ssh_size ts' = Suc (ssh_size ts)"
proof -
  from assms(1,2) have i: "i < length ts" by (simp add: ssh_index_def)
  let ?t = "(ts ! i)\<lparr>t_backupdirs := add_mset (src, dst) (t_backupdirs (ts ! i))\<rparr>"
  have r: "idx' = idx" "ts' = ts[i := ?t]" using assms(2,3) by (auto simp: Let_def)
  have "t_server_uuid (ts[i := ?t] ! k) = t_server_uuid (ts ! k)" for k
    using i by (cases "k = i") auto
  then have "ssh_index (idx', ts')"
    using assms(1) i unfolding r ssh_index_def by (auto dest!: subsetD [OF set_update_subset_insert])
  moreover have "ssh_size ts' = Suc (ssh_size ts)"
    unfolding r by (rule ssh_size_update [OF i]) simp
  ultimately show ?thesis ..
qed

lemma add_ssh_entry_new:
  assumes "ssh_index (idx, ts)" and "idx u = None" and "add_ssh_entry (idx, ts) [u, src, dst] = (idx', ts')"
  shows "ssh_index (idx', ts') \<and> ssh_size ts' = Suc (ssh_size ts)"
proof -
  let ?t = "\<lparr>t_server_uuid = u, t_backupdirs = {#(src, dst)#}\<rparr>"
  have r: "idx' = idx(u \<mapsto> length ts)" "ts' = ts @ [?t]" using assms(2,3) by (auto simp: Let_def)
  have old: "i < length ts \<Longrightarrow> t_server_uuid (ts ! i) \<noteq> u" for i
    using assms(1,2) unfolding ssh_index_def by (metis fst_conv not_Some_eq snd_conv)
  have "ssh_index (idx', ts')"
    using assms(1) old unfolding r ssh_index_def by (auto simp: nth_append less_Suc_eq)
  then show ?thesis by (simp add: r ssh_size_def)
qed

lemma group_ssh_index:
  assumes "ssh_index st" and "\<forall>r \<in> set rows. length r = 3"
  shows "ssh_index (foldl add_ssh_entry st rows)
    \<and> ssh_size (snd (foldl add_ssh_entry st rows)) = ssh_size (snd st) + length rows"
  using assms
proof (induction rows arbitrary: st)
  case Nil
  then show ?case by simp
next
  case (Cons r rows)
  obtain u src dst where r: "r = [u, src, dst]"
    using Cons.prems(2) by (auto simp: numeral_3_eq_3 length_Suc_conv)
  have "ssh_index (add_ssh_entry st r) \<and> ssh_size (snd (add_ssh_entry st r)) = Suc (ssh_size (snd st))"
    using Cons.prems(1) add_ssh_entry_known add_ssh_entry_new unfolding r
    by (metis not_Some_eq prod.collapse)
  with Cons.IH [of "add_ssh_entry st r"] Cons.prems(2) show ?case by simp
qed

lemma ssh_index_distinct: "ssh_index (idx, ts) \<Longrightarrow> distinct (map t_server_uuid ts)"
  unfolding distinct_conv_nth by (auto simp: ssh_index_def) (metis option.inject)

lemma length_ssh_entries: "order_ok E \<Longrightarrow> length (ssh_entries E ts) = ssh_size ts"
  by (induction ts) (auto simp: ssh_entries_def ssh_size_def)

lemma group_ssh_typed:
  assumes "\<forall>r \<in> set rows. length r = 3" and "order_ok E"
  shows "distinct (map t_server_uuid (group_ssh rows)) \<and> (\<forall>t \<in> set (group_ssh rows). t_backupdirs t \<noteq> {#})
    \<and> length (ssh_entries E (group_ssh rows)) = length rows"
proof -
  have "ssh_index (Map.empty, [])" by (simp add: ssh_index_def)
  from group_ssh_index [OF this assms(1)] have i: "ssh_index (foldl add_ssh_entry (Map.empty, []) rows)"
    "ssh_size (group_ssh rows) = length rows"
    by (simp_all add: group_ssh_def ssh_size_def)
  then have "ssh_index (fst (foldl add_ssh_entry (Map.empty, []) rows), group_ssh rows)"
    by (simp add: group_ssh_def)
  with i(2) show ?thesis
    using ssh_index_distinct length_ssh_entries [OF assms(2)] by (fastforce simp: ssh_index_def)
qed

section \<open>The type of a loaded job\<close>

lemma size_group_dirs: "size (group_dirs rows) = length rows"
proof -
  have "size (foldl (\<lambda>M r. add_mset (r ! 0, r ! 1) M) M rows) = size M + length rows" for M :: qmultihash
    by (induction rows arbitrary: M) auto
  then show ?thesis by (simp add: group_dirs_def)
qed

lemma length_array_cells: "length (array_cells p ks m) < 2 ^ 31"
  by (auto simp: array_cells_def to_int_def split: option.split)

lemma array_cells_width: "\<forall>r \<in> set (array_cells p ks m). length r = length ks"
  by (simp add: array_cells_def)

lemma job_decode_typed:
  assumes "order_ok E"
  shows "wf_job E (job_decode m)"
proof -
  let ?rows = "array_cells [''ssh'', ''entries''] [''server_uuid'', ''source'', ''dest''] m"
  have "\<forall>r \<in> set ?rows. length r = 3" using array_cells_width by fastforce
  from group_ssh_typed [OF this assms] length_array_cells show ?thesis
    by (simp add: wf_job_def job_decode_def job_read_def qs_open_def run_simps size_group_dirs del: Let_def)
qed

text \<open>
  C12. The type of the stored data is kept by loading: whatever the files of the job directory
  contain, truncated, edited by hand or of another version, every job that is loaded is well
  formed (its enumerations are the enumerators or a value outside them, its arrays fit the
  format, each SSH server is named once and has something to copy), and saving it, into
  whatever file, and loading it again gives the same job.
\<close>

theorem loaded_job_typed:
  assumes "order_ok E" and "job \<in> set (getJobs E d s)"
  shows "wf_job E job \<and> job_decode (job_encode E job m) = job"
proof -
  from assms(2) have "wf_job E job"
    using job_decode_typed [OF assms(1)] by (auto simp: getJobs_def readBackupJobs_def read_settings_def)
  with job_roundtrip [OF assms(1)] show ?thesis by simp
qed

text \<open>A file with a number that is no interval, a size that is no number and two rows of one server.\<close>

definition odd_settings :: settings where
  "odd_settings = [[''job'', ''name''] \<mapsto> ''odd'', [''task'', ''type''] \<mapsto> ''17'', [''task'', ''day''] \<mapsto> ''99999999999'',
     [''backup'', ''folders'', ''size''] \<mapsto> ''many'', [''ssh'', ''entries'', ''size''] \<mapsto> ''2'',
     [''ssh'', ''entries'', ''1'', ''server_uuid''] \<mapsto> ''s'', [''ssh'', ''entries'', ''1'', ''source''] \<mapsto> ''/a'',
     [''ssh'', ''entries'', ''2'', ''server_uuid''] \<mapsto> ''s'', [''ssh'', ''entries'', ''2'', ''source''] \<mapsto> ''/b'']"

definition odd_sys :: "unit sys" where
  "odd_sys = calm_sys\<lparr>files := [(''/c/odd.conf'', \<lparr>f_body = Settings odd_settings, f_mode = {}\<rparr>)]\<rparr>"

lemma odd_sys_jobs: "getJobs E ''/c'' odd_sys = [job_decode odd_settings]"
  by (simp add: getJobs_def readBackupJobs_def read_settings_def conf_files_def dir_entries_def file_keys_def
      odd_sys_def calm_sys_def file_at_def keys_of_def suffix_def)

lemmas number_defs = to_int_def parse_int_def parse_nat_def digits_val_def digit_val_def is_digit_def
  trimmed_def is_space_def

lemma odd_numbers:
  "to_int (Some ''17'') = 17" "to_int (Some ''99999999999'') = 0" "to_int (Some ''many'') = 0"
  "to_int (Some ''2'') = 2"
  by (simp_all add: number_defs)

lemma odd_indices: "show_nat (Suc 0) = ''1''" "show_nat (Suc (Suc 0)) = ''2''"
  by (simp_all add: show_nat_digit digit_def char_of_def bit_0)

lemma odd_arrays:
  "array_cells [''ssh'', ''entries''] [''server_uuid'', ''source'', ''dest''] odd_settings
     = [[''s'', ''/a'', []], [''s'', ''/b'', []]]"
  "array_cells [''backup'', ''folders''] ks odd_settings = []"
  by (simp_all add: array_cells_def odd_settings_def odd_numbers odd_indices numeral_2_eq_2)

theorem loaded_job_typed_witness:
  "\<exists>job. getJobs calm_ext ''/c'' odd_sys = [job] \<and> intervalType job = INTERVAL_OTHER 17 \<and> intervalDay job = 0
     \<and> ssh_targets job = [\<lparr>t_server_uuid = ''s'', t_backupdirs = {#(''/b'', []), (''/a'', [])#}\<rparr>]
     \<and> job_decode (job_encode calm_ext job Map.empty) = job"
proof (intro exI conjI)
  show "job_decode (job_encode calm_ext (job_decode odd_settings) Map.empty) = job_decode odd_settings"
    using loaded_job_typed [of calm_ext "job_decode odd_settings" "''/c''" odd_sys] by (simp add: odd_sys_jobs)
qed (simp_all add: odd_sys_jobs job_decode_def job_read_def qs_open_def run_simps odd_arrays group_ssh_def,
    simp_all add: odd_settings_def to_i32_def odd_numbers interval_of_int_def)

end
