(* ===== verification/Daemon.thy ===== *)
theory Daemon
  imports BackupJob Manager LoadedJobs
begin

text \<open>
  The components together: the backup manager, the worker threads it starts, what they run and
  what they report. The first part bounds the runs that crash; the second is the transition system,
  in which the worker of a job is \<open>worker_process\<close> itself, and its refinement of the manager's
  own system.
\<close>

section \<open>Runs that return\<close>

text \<open>A job none of whose PBS ids is a container.\<close>

definition no_containers :: "tiBackupJob \<Rightarrow> bool" where
  "no_containers job \<longleftrightarrow> \<not> pbs job \<or> list_all (\<lambda>g. hd (split_on CHR ''/'' g) \<noteq> ''ct'') (pbs_backup_ids job)"

text \<open>Every result of \<open>m\<close> satisfies \<open>P\<close>; the rules follow the structure of a program.\<close>

definition yields :: "('a \<Rightarrow> bool) \<Rightarrow> ('s, 'a) state \<Rightarrow> bool" where
  "yields P m \<longleftrightarrow> (\<forall>s. P (fst (run_state m s)))"

lemma yieldsD: "yields P m \<Longrightarrow> run_state m s = (x, s') \<Longrightarrow> P x"
  unfolding yields_def by (metis fst_conv)

lemma yields_return: "P x \<Longrightarrow> yields P (State_Monad.return x)"
  by (simp add: yields_def)

lemma yields_bind: "(\<And>x. yields P (f x)) \<Longrightarrow> yields P (do { x \<leftarrow> m; f x })"
  by (simp add: yields_def case_prod_unfold)

lemma yields_bind_of: "yields Q m \<Longrightarrow> (\<And>x. Q x \<Longrightarrow> yields P (f x)) \<Longrightarrow> yields P (do { x \<leftarrow> m; f x })"
  by (simp add: yields_def case_prod_unfold)

lemma yields_if: "(b \<Longrightarrow> yields P m) \<Longrightarrow> (\<not> b \<Longrightarrow> yields P n) \<Longrightarrow> yields P (if b then m else n)"
  by simp

lemma yields_option:
  "(x = None \<Longrightarrow> yields P m) \<Longrightarrow> (\<And>y. x = Some y \<Longrightarrow> yields P (f y)) \<Longrightarrow>
   yields P (case x of None \<Rightarrow> m | Some y \<Rightarrow> f y)"
  by (cases x) auto

lemma yields_prod: "(\<And>a b. x = (a, b) \<Longrightarrow> yields P (f a b)) \<Longrightarrow> yields P (case x of (a, b) \<Rightarrow> f a b)"
  by (cases x) auto

lemmas yields_intros = yields_return yields_if yields_option yields_prod

lemma restore_vm_goes_on:
  assumes "vmType = ''vm''"
  shows "yields id (restore_snapshot E job pb g vmType vmID vmdir snaps log)"
proof -
  have "yields (\<lambda>p. p \<noteq> None) (do { l \<leftarrow> package_vm E vmdir vmID u c i r; State_Monad.return (Some l) })" for u c i r
    by (intro yields_bind yields_return) simp
  note packed = yields_bind_of [OF this]
  show ?thesis
    unfolding restore_snapshot_def Let_def assms simp_thms if_True
    by (rule packed yields_bind yields_intros | simp)+
qed

lemma pbs_one_goes_on:
  assumes "hd (split_on CHR ''/'' g) \<noteq> ''ct''"
  shows "yields snd (pbs_one E job pb d g cl)"
proof -
  have vm: "split_on CHR ''/'' g ! 0 = ''vm''"
    if "\<not> (length (split_on CHR ''/'' g) < 2 \<or> X)" "\<not> (split_on CHR ''/'' g ! 0 \<noteq> ''vm'' \<and> split_on CHR ''/'' g ! 0 \<noteq> ''ct'')" for X
    using that assms by (cases "split_on CHR ''/'' g") auto
  show ?thesis
    unfolding pbs_one_def pbs_no_result_def Let_def
    by (rule yields_bind_of [OF restore_vm_goes_on] yields_bind yields_intros | erule (1) vm | simp)+
qed

lemma pbs_all_goes_on:
  "list_all (\<lambda>g. hd (split_on CHR ''/'' g) \<noteq> ''ct'') gs \<Longrightarrow> yields id (pbs_all E job pb d gs cl)"
proof (induction gs arbitrary: cl)
  case Nil
  show ?case by (simp add: yields_return)
next
  case (Cons g gs)
  then have one: "yields snd (pbs_one E job pb d g cl)" by (intro pbs_one_goes_on) simp
  show ?case
    unfolding pbs_all.simps using Cons by (intro yields_bind_of [OF one] yields_prod yields_if) auto
qed

lemma pbs_backup_goes_on:
  assumes "no_containers job"
  shows "yields id (pbs_backup E C job d)"
proof -
  have "pbs job \<Longrightarrow> list_all (\<lambda>g. hd (split_on CHR ''/'' g) \<noteq> ''ct'') (pbs_backup_ids job)"
    using assms by (simp add: no_containers_def)
  then show ?thesis
    unfolding pbs_backup_def pbs_refused_def pbs_fail_def Let_def
    by (intro yields_if yields_return yields_bind yields_option yields_prod pbs_all_goes_on) simp_all
qed

lemma startBackup_part_returns:
  assumes "no_containers job"
  shows "yields (\<lambda>r. r \<noteq> None) (startBackup_part E V part job)"
proof -
  have "yields id (work E V C job flags d)" for C flags d
    unfolding work_def by (intro yields_bind yields_bind_of [OF pbs_backup_goes_on [OF assms]] yields_return)
  note w = yields_bind_of [OF this]
  show ?thesis
    unfolding startBackup_part_prepare backup_mounted_work
    by (rule w yields_bind yields_intros | simp)+
qed

lemma getPartitionByUUID_returns:
  "disks_in_bounds E s \<Longrightarrow> uuid \<noteq> [] \<Longrightarrow> getPartitionByUUID E uuid s \<noteq> None"
  using search_disks_spec [of "getAttachedDisks E s" E s uuid] attached_devtype [of _ E s]
  by (auto simp: disks_in_bounds_def getPartitionByUUID_def)

lemma startBackup_returns:
  assumes "no_containers job" and "disks_in_bounds E (os s)"
  shows "fst (run_state (startBackup E V job) s) \<noteq> None"
proof -
  have "partition_uuid job \<noteq> [] \<Longrightarrow> getPartitionByUUID E (partition_uuid job) (os s) \<noteq> None"
    by (rule getPartitionByUUID_returns [OF assms(2)])
  moreover have "fst (run_state (startBackup_part E V part job) s) \<noteq> None" for part
    by (rule startBackup_part_returns [OF assms(1), unfolded yields_def, rule_format])
  ultimately show ?thesis
    unfolding startBackup_def by (cases "getPartitionByUUID E (partition_uuid job) (os s)") (auto simp: run_simps)
qed

text \<open>What the worker of the job \<open>n\<close> meets in the system \<open>w\<close> is none of what the code cannot handle.\<close>

definition run_ready :: "'w ext \<Rightarrow> conf_env \<Rightarrow> string \<Rightarrow> 'w sys \<Rightarrow> bool" where
  "run_ready E V n w \<longleftrightarrow>
     (let (C, w') = new_tiConfMain E V w in disks_in_bounds E w' \<and>
        (case getJobByName E (to_text (getValue C ''paths/backupjobs'')) n w' of
           None \<Rightarrow> True | Some job \<Rightarrow> no_containers job))"

lemma worker_returns:
  assumes "run_ready E V n (os s)"
  shows "\<exists>ok s'. run_state (worker_process E V n) s = (Some ok, s')"
proof -
  have run: "no_containers job \<Longrightarrow> disks_in_bounds E (snd (new_tiConfMain E V (os s))) \<Longrightarrow>
      fst (run_state (startBackup E V job) (s\<lparr>os := snd (new_tiConfMain E V (os s))\<rparr>)) \<noteq> None" for job
    by (rule startBackup_returns) simp_all
  have "fst (run_state (worker_process E V n) s) \<noteq> None"
    using assms unfolding run_ready_def worker_reports Let_def case_prod_unfold
    by (auto dest: run split: option.splits)
  then show ?thesis by (metis not_Some_eq prod.collapse)
qed


section \<open>The daemon\<close>

text \<open>
  The manager's system with what its threads act on: \<open>d_st\<close> is the system and the trace of effects,
  \<open>d_conf\<close> the settings object of the manager's job store, \<open>d_runs\<close> the runs so far, each with the
  job's name, the states it began and ended in and its result, and \<open>d_up\<close> is false once a run has
  crashed the process.
\<close>

record 'w daemon =
  d_sys :: msys
  d_st :: "'w bst"
  d_conf :: tiConfMain
  d_runs :: "(string \<times> 'w bst \<times> 'w bst \<times> bool) list"
  d_up :: bool

definition jobs_dir :: "tiConfMain \<Rightarrow> string" where
  "jobs_dir C = to_text (getValue C ''paths/backupjobs'')"

definition daemon_start :: "'w ext \<Rightarrow> conf_env \<Rightarrow> 'w bst \<Rightarrow> 'w daemon" where
  "daemon_start E V st =
     (let (C, w) = new_tiConfMain E V (os st) in
      \<lparr>d_sys = init_msys, d_st = st\<lparr>os := w\<rparr>, d_conf = C, d_runs = [], d_up = True\<rparr>)"

text \<open>
  A call of \<open>startBackup\<close> looks the job up in the store as it is then. A run is one step: what
  other programs and threads do meanwhile is in the functions of \<open>ext\<close>. Between the steps
  anything outside the manager may change, the job files included.
\<close>

inductive daemon_step :: "'w ext \<Rightarrow> conf_env \<Rightarrow> 'w daemon \<Rightarrow> 'w daemon \<Rightarrow> bool" for E V where
  start_call: "d_up s \<Longrightarrow>
     manager_startBackup (getJobByName E (jobs_dir (d_conf s)) n (os (d_st s))) n (mgr (d_sys s)) = (r, new, m) \<Longrightarrow>
     daemon_step E V s (s\<lparr>d_sys := (d_sys s)\<lparr>mgr := m, live := live (d_sys s) @ new\<rparr>\<rparr>)"
| worker_run: "d_up s \<Longrightarrow> live (d_sys s) = xs @ n # ys \<Longrightarrow>
     run_state (worker_process E V n) (d_st s) = (Some ok, st) \<Longrightarrow>
     daemon_step E V s (s\<lparr>d_sys := (d_sys s)\<lparr>live := xs @ ys, queued := queued (d_sys s) @ [(n, ok)]\<rparr>,
       d_st := st, d_runs := d_runs s @ [(n, d_st s, st, ok)]\<rparr>)"
| worker_crash: "d_up s \<Longrightarrow> n \<in> set (live (d_sys s)) \<Longrightarrow>
     run_state (worker_process E V n) (d_st s) = (None, st) \<Longrightarrow>
     daemon_step E V s (s\<lparr>d_st := st, d_up := False\<rparr>)"
| delivery: "d_up s \<Longrightarrow> queued (d_sys s) = xs @ (n, ok) # ys \<Longrightarrow>
     daemon_step E V s (s\<lparr>d_sys := (d_sys s)\<lparr>mgr := onBackupFinished n ok (mgr (d_sys s)), queued := xs @ ys\<rparr>\<rparr>)"
| outside: "d_up s \<Longrightarrow> daemon_step E V s (s\<lparr>d_st := (d_st s)\<lparr>os := w\<rparr>, d_conf := C\<rparr>)"

inductive_cases daemon_stepE: "daemon_step E V s t"
inductive_simps daemon_down: "daemon_step E V (s\<lparr>d_up := False\<rparr>) t"

definition daemon_reach :: "'w ext \<Rightarrow> conf_env \<Rightarrow> 'w daemon \<Rightarrow> bool" where
  "daemon_reach E V s \<longleftrightarrow> (\<exists>st. (daemon_step E V)\<^sup>*\<^sup>* (daemon_start E V st) s)"

text \<open>
  What holds at the start and is kept by every step holds in every reachable state; and a
  step relation whose steps an abstract one can follow, or need not, reaches only what the
  abstract one reaches.
\<close>

locale simulation =
  fixes init :: "'c \<Rightarrow> bool"
    and step :: "'c \<Rightarrow> 'c \<Rightarrow> bool"
    and view :: "'c \<Rightarrow> 'a"
    and abs_step :: "'a \<Rightarrow> 'a \<Rightarrow> bool"
    and abs_reach :: "'a \<Rightarrow> bool"
  assumes abs_init: "init c \<Longrightarrow> abs_reach (view c)"
    and abs_closed: "abs_reach a \<Longrightarrow> abs_step a b \<Longrightarrow> abs_reach b"
    and follows: "step c d \<Longrightarrow> view d = view c \<or> abs_step (view c) (view d)"
begin

lemma reach_abs: "step\<^sup>*\<^sup>* c d \<Longrightarrow> init c \<Longrightarrow> abs_reach (view d)"
proof (induction rule: rtranclp_induct)
  case base
  then show ?case by (rule abs_init)
next
  case (step d e)
  from follows [OF step.hyps(2)] show ?case
  proof
    assume "view e = view d"
    with step.IH step.prems show ?thesis by simp
  next
    assume "abs_step (view d) (view e)"
    with step.IH step.prems show ?thesis by (blast intro: abs_closed)
  qed
qed

end

lemma daemon_step_follows:
  "daemon_step E V s t \<Longrightarrow> d_sys t = d_sys s \<or> manager_step (d_sys s) (d_sys t)"
proof (induction rule: daemon_step.induct)
  case (start_call s n r new m)
  then have "manager_step (d_sys s) ((d_sys s)\<lparr>mgr := m, live := live (d_sys s) @ new\<rparr>)"
    by (intro manager_step.call) (auto dest: getJobByName_name)
  then show ?case by simp
next
  case (worker_run s xs n ys ok st)
  then have "manager_step (d_sys s) ((d_sys s)\<lparr>live := xs @ ys, queued := queued (d_sys s) @ [(n, ok)]\<rparr>)"
    by (intro manager_step.worker_end)
  then show ?case by simp
next
  case (delivery s xs n ok ys)
  then have "manager_step (d_sys s) ((d_sys s)\<lparr>mgr := onBackupFinished n ok (mgr (d_sys s)), queued := xs @ ys\<rparr>)"
    by (intro manager_step.deliver)
  then show ?case by simp
qed simp_all

interpretation daemon_sim: simulation "\<lambda>s. \<exists>st. s = daemon_start E V st" "daemon_step E V" d_sys manager_step manager_reach
  for E V
  by unfold_locales
    (auto simp: daemon_start_def case_prod_unfold Let_def intro: manager_reach.intros dest: daemon_step_follows)


section \<open>Every run is reported\<close>

definition outcome :: "bool \<Rightarrow> backupStatus" where
  "outcome ok = (if ok then Finished else Failed)"

definition run_results :: "'w daemon \<Rightarrow> (string \<times> bool) list" where
  "run_results s = map (\<lambda>(n, _, _, ok). (n, ok)) (d_runs s)"

definition accounted :: "'w daemon \<Rightarrow> bool" where
  "accounted s \<longleftrightarrow>
     (\<forall>n ok. count_list (run_results s) (n, ok)
        = count_list (statusChanged (mgr (d_sys s))) (n, outcome ok) + count_list (queued (d_sys s)) (n, ok))
     \<and> (\<forall>n. count_list (statusChanged (mgr (d_sys s))) (n, Running)
        = count_list (map fst (run_results s)) n + count_list (live (d_sys s)) n)"

lemma outcome_simps [simp]: "outcome ok \<noteq> Running" "Running \<noteq> outcome ok" "outcome ok = outcome ok' \<longleftrightarrow> ok = ok'"
  by (auto simp: outcome_def)

lemma onBackupFinished_outcome: "onBackupFinished n ok m = set_status n (outcome ok) m"
  by (simp add: onBackupFinished_def outcome_def)

lemma started_job:
  "manager_startBackup found n m = (r, new, m') \<Longrightarrow> (\<And>job. found = Some job \<Longrightarrow> job_name job = n) \<Longrightarrow>
   new = [] \<and> m' = m \<or> new = [n] \<and> m' = set_status n Running m"
  by (auto simp: manager_startBackup_def startBackupThread_def split: option.splits if_splits)

lemma accounted_step: "daemon_step E V s t \<Longrightarrow> accounted s \<Longrightarrow> accounted t"
proof (induction rule: daemon_step.induct)
  case (start_call s n r new m)
  from started_job [OF start_call.hyps(2)] getJobByName_name
  consider "new = []" "m = mgr (d_sys s)" | "new = [n]" "m = set_status n Running (mgr (d_sys s))"
    by blast
  then show ?case
    using start_call.prems by cases (auto simp: accounted_def run_results_def set_status_def)
next
  case (worker_run s xs n ys ok st)
  then show ?case by (auto simp: accounted_def run_results_def)
next
  case (delivery s xs n ok ys)
  then show ?case by (auto simp: accounted_def run_results_def onBackupFinished_outcome set_status_def)
qed (simp_all add: accounted_def run_results_def)

lemma accounted_start: "accounted (daemon_start E V st)"
  by (simp add: accounted_def daemon_start_def run_results_def init_msys_def new_manager_def case_prod_unfold Let_def)

lemma daemon_invariant:
  assumes "daemon_reach E V s" and "\<And>st. I (daemon_start E V st)" and "\<And>s t. daemon_step E V s t \<Longrightarrow> I s \<Longrightarrow> I t"
  shows "I s"
proof -
  obtain st where "(daemon_step E V)\<^sup>*\<^sup>* (daemon_start E V st) s"
    using assms(1) by (auto simp: daemon_reach_def)
  then show ?thesis by (induction rule: rtranclp_induct) (blast intro: assms(2,3))+
qed

lemma accounted_reach: "daemon_reach E V s \<Longrightarrow> accounted s"
  by (rule daemon_invariant [where I = accounted]) (auto intro: accounted_start accounted_step)

text \<open>
  C5. Every run is reported, once and with its own result: in every reachable state, the runs of a
  job that ended with a result are exactly as many as that result was signalled or is queued
  for, and the job was signalled as running as often as runs of it have ended or are alive.
\<close>

theorem every_run_reported_once:
  assumes "daemon_reach E V s"
  shows "count_list (run_results s) (n, ok)
      = count_list (statusChanged (mgr (d_sys s))) (n, if ok then Finished else Failed) + count_list (queued (d_sys s)) (n, ok)
    \<and> count_list (statusChanged (mgr (d_sys s))) (n, Running)
      = count_list (map fst (run_results s)) n + count_list (live (d_sys s)) n"
  using accounted_reach [OF assms] unfolding accounted_def outcome_def by blast

text \<open>The recorded runs are runs.\<close>

definition runs_true :: "'w ext \<Rightarrow> conf_env \<Rightarrow> 'w daemon \<Rightarrow> bool" where
  "runs_true E V s \<longleftrightarrow>
     (\<forall>(n, pre, post, ok) \<in> set (d_runs s). run_state (worker_process E V n) pre = (Some ok, post))"

lemma runs_true_step: "daemon_step E V s t \<Longrightarrow> runs_true E V s \<Longrightarrow> runs_true E V t"
  by (induction rule: daemon_step.induct) (auto simp: runs_true_def)

lemma runs_true_start: "runs_true E V (daemon_start E V st)"
  by (simp add: runs_true_def daemon_start_def case_prod_unfold Let_def)

lemma runs_true_reach: "daemon_reach E V s \<Longrightarrow> runs_true E V s"
  by (rule daemon_invariant [where I = "runs_true E V"]) (auto intro: runs_true_start runs_true_step)

lemma finished_run:
  assumes "daemon_reach E V s" and "(n, Finished) \<in> set (statusChanged (mgr (d_sys s)))"
  shows "\<exists>pre post. (n, pre, post, True) \<in> set (d_runs s) \<and> run_state (worker_process E V n) pre = (Some True, post)"
proof -
  have "0 < count_list (statusChanged (mgr (d_sys s))) (n, outcome True)"
    using assms(2) by (simp add: outcome_def count_list_pos_iff)
  with accounted_reach [OF assms(1)] have "0 < count_list (run_results s) (n, True)" by (simp add: accounted_def)
  then obtain pre post where "(n, pre, post, True) \<in> set (d_runs s)"
    by (auto simp: run_results_def count_list_pos_iff)
  with runs_true_reach [OF assms(1)] show ?thesis by (fastforce simp: runs_true_def)
qed

lemma true_run_of_job:
  assumes "run_state (worker_process E V n) pre = (Some True, post)"
  obtains job where "job_name job = n" and "job \<in> set (getJobs E (jobs_dir (fst (new_tiConfMain E V (os pre)))) (snd (new_tiConfMain E V (os pre))))"
    and "run_state (startBackup E V job) (pre\<lparr>os := snd (new_tiConfMain E V (os pre))\<rparr>) = (Some True, post)"
  using assms
  by (auto simp: worker_reports Let_def jobs_dir_def split: if_splits option.splits
      intro: that getJobByName_name getJobByName_mem)


section \<open>Every start comes to an end\<close>

lemma daemon_inv_manager: "daemon_reach E V s \<Longrightarrow> manager_inv (d_sys s)"
  using daemon_sim.reach_abs manager_reach_inv unfolding daemon_reach_def by blast

lemma status_after: "getBackupStatus (onBackupFinished n ok m) n = outcome ok"
  by (simp add: getBackupStatus_def onBackupFinished_outcome set_status_def)

lemma delivery_ends:
  assumes "d_up s" and "(n, ok) \<in> set (queued (d_sys s))"
  shows "\<exists>t. daemon_step E V s t \<and> getBackupStatus (mgr (d_sys t)) n = outcome ok \<and> d_runs t = d_runs s"
proof -
  obtain xs ys where "queued (d_sys s) = xs @ (n, ok) # ys" using assms(2) by (meson split_list)
  from daemon_step.delivery [OF assms(1) this] show ?thesis by (fastforce simp: status_after)
qed

lemma queued_result: "accounted s \<Longrightarrow> (n, ok) \<in> set (queued (d_sys s)) \<Longrightarrow> (n, ok) \<in> set (run_results s)"
  by (metis (no_types) accounted_def add_gr_0 count_list_pos_iff)

lemma running_in_flight:
  assumes "manager_inv (d_sys s)" and "getBackupStatus (mgr (d_sys s)) n = Running"
  shows "n \<in> set (live (d_sys s)) \<or> (\<exists>ok. (n, ok) \<in> set (queued (d_sys s)))"
proof -
  have "backups (mgr (d_sys s)) n = Some Running"
    using assms(2) by (auto simp: getBackupStatus_def split: option.splits)
  with assms(1) have "0 < in_flight (d_sys s) n" by (simp add: manager_inv_def)
  then show ?thesis by (auto simp: in_flight_def count_list_pos_iff)
qed

lemma reach_step: "daemon_reach E V s \<Longrightarrow> daemon_step E V s t \<Longrightarrow> daemon_reach E V t"
  unfolding daemon_reach_def by (meson rtranclp.rtrancl_into_rtrancl)

lemma two_steps:
  assumes "r x y" and "r y z"
  shows "r\<^sup>*\<^sup>* x z"
proof -
  from assms(1) have "r\<^sup>*\<^sup>* x y" by (rule r_into_rtranclp)
  then show ?thesis using assms(2) by (rule rtranclp.rtrancl_into_rtrancl)
qed


section \<open>A run of the daemon\<close>

text \<open>A system that was just installed, with one saved job.\<close>

abbreviation jobs_path :: string where "jobs_path \<equiv> ''/etc/tibackup/jobs''"

definition installed :: "unit ext \<Rightarrow> tiBackupJob \<Rightarrow> unit sys" where
  "installed E job = saveBackupJob E jobs_path job calm_sys"

lemma apart_default: "apart default_env jobs_path"
proof -
  have "CHR ''m'' # u \<noteq> CHR ''j'' # v" for u v by simp
  then show ?thesis
    by (simp add: apart_def default_env_def mainConfigFile_def file_main_def store_file_def)
qed

lemma installed_no_conf:
  assumes "key_ok (job_name job)"
  shows "file_at (installed E job) ''/etc/tibackup/main.conf'' = None \<and> conf_free default_env (installed E job)"
proof -
  have nr: "\<not> refused calm_sys p" for p by (simp add: calm_sys_def)
  have sv: "installed E job = save_settings E jobs_path (store_file jobs_path (job_name job)) (job_encode E job) calm_sys"
    by (simp add: installed_def saveBackupJob_def)
  have "''/etc/tibackup/main.conf'' \<noteq> store_file jobs_path (job_name job)"
    using apart_default by (simp add: apart_def default_env_def mainConfigFile_def file_main_def)
  moreover have "file_at calm_sys ''/etc/tibackup/main.conf'' = None" by (simp add: calm_sys_def file_at_def)
  ultimately have no_file: "file_at (installed E job) ''/etc/tibackup/main.conf'' = None"
    using file_at_save [where s = calm_sys and p = "store_file jobs_path (job_name job)" and q = "''/etc/tibackup/main.conf''",
        OF nr, of E jobs_path "job_encode E job"]
    unfolding sv by (metis (no_types))
  have shorter: "''/etc/tibackup/main.conf'' \<notin> insert d (parents d)" if "length d < 22" for d
    using that by (auto dest: parents_shorter)
  have "''/etc/tibackup/main.conf'' \<notin> dirs (installed E job)"
    using shorter [of jobs_path] unfolding sv dirs_save by (auto simp: calm_sys_def)
  with no_file show ?thesis
    using shorter [of "''/etc/tibackup''"] nr
    by (simp add: conf_free_def default_env_def mainConfigFile_def file_main_def Let_def sv)
qed

lemma conf_twice:
  assumes "conf_free V s"
  shows "jobs_dir (fst (new_tiConfMain E V (snd (new_tiConfMain E V s)))) = jobs_dir (fst (new_tiConfMain E V s))"
  using main_conf_stable [OF assms, of E] by (simp add: new_tiConfMain_def jobs_dir_def getValue_def Let_def)

lemma installed_jobs_dir:
  assumes "key_ok (job_name job)"
  shows "jobs_dir (fst (new_tiConfMain E default_env (installed E job))) = jobs_path"
  using init_secured [of default_env "installed E job" E] installed_no_conf [OF assms, of E]
  by (simp add: jobs_dir_def new_tiConfMain_def getValue_def to_text_def conf_spec_def fresh_conf_def mainConfigFile_def
      file_main_def default_env_def Let_def)

lemma installed_job:
  assumes "order_ok E" and "wf_job E job" and "key_ok (job_name job)"
  shows "store_consistent E job_decode job_name jobs_path (installed E job)
    \<and> getJobByName E jobs_path (job_name job) (installed E job) = Some job"
proof -
  have st: "store_consistent E job_decode job_name jobs_path calm_sys" "\<not> refused calm_sys p" for p
    by (simp_all add: calm_sys_def)
  show ?thesis
    using job_store.save_consistent [OF assms(1,2) st(2,1)] job_store.find_after_save [OF assms(1,2) st(2,1) assms(3)]
    by (simp add: installed_def saveBackupJob_def getJobByName_def readBackupJobs_def)
qed

lemma store_consistent_conf:
  "apart V d \<Longrightarrow> store_consistent E job_decode job_name d s \<Longrightarrow>
   store_consistent E job_decode job_name d (snd (new_tiConfMain E V s))"
  unfolding store_consistent_def by (simp add: store_abs_new_tiConfMain)

text \<open>After the daemon has started, and when its worker starts, the job is found in its directory.\<close>

lemma installed_found:
  assumes "order_ok E" and "wf_job E job" and "key_ok (job_name job)"
  defines "w \<equiv> snd (new_tiConfMain E default_env (installed E job))"
  shows "getJobByName E jobs_path (job_name job) w = Some job"
    and "getJobByName E jobs_path (job_name job) (snd (new_tiConfMain E default_env w)) = Some job"
    and "jobs_dir (fst (new_tiConfMain E default_env w)) = jobs_path"
proof -
  note i = installed_job [OF assms(1-3)]
  have c: "store_consistent E job_decode job_name jobs_path w"
    unfolding w_def using i by (intro store_consistent_conf [OF apart_default]) simp
  show 1: "getJobByName E jobs_path (job_name job) w = Some job"
    unfolding w_def using i by (simp add: getJobByName_new_tiConfMain [OF apart_default _ assms(3)])
  show "getJobByName E jobs_path (job_name job) (snd (new_tiConfMain E default_env w)) = Some job"
    using 1 by (simp add: getJobByName_new_tiConfMain [OF apart_default c assms(3)])
  show "jobs_dir (fst (new_tiConfMain E default_env w)) = jobs_path"
    unfolding w_def
    by (simp add: conf_twice installed_no_conf [OF assms(3)] installed_jobs_dir [OF assms(3)])
qed

definition example_start :: "unit daemon" where
  "example_start = daemon_start (run_ext mount_works) default_env (calm_bst\<lparr>os := installed (run_ext mount_works) run_job\<rparr>)"

definition example_running :: "unit daemon" where
  "example_running = example_start\<lparr>d_sys := init_msys\<lparr>mgr := set_status ''j'' Running new_manager, live := [''j'']\<rparr>\<rparr>"

lemma run_job_stored: "order_ok (run_ext mount_works)" "wf_job (run_ext mount_works) run_job" "key_ok (job_name run_job)"
  by (simp_all add: order_ok_run wf_job_def wf_interval_def wf_luks_def run_job_def plain_job_def ssh_entries_def key_ok_def)

lemma run_job_name: "job_name run_job = ''j''"
  by (simp add: run_job_def plain_job_def)

lemma example_start_fields:
  "d_sys example_start = init_msys" "d_up example_start" "d_runs example_start = []"
  "os (d_st example_start) = snd (new_tiConfMain (run_ext mount_works) default_env (installed (run_ext mount_works) run_job))"
  "jobs_dir (d_conf example_start) = jobs_path"
  using installed_jobs_dir [OF run_job_stored(3), of "run_ext mount_works"]
  by (simp_all add: example_start_def daemon_start_def case_prod_unfold Let_def)

lemma example_running_step: "daemon_step (run_ext mount_works) default_env example_start example_running"
proof -
  have found: "getJobByName (run_ext mount_works) (jobs_dir (d_conf example_start)) ''j'' (os (d_st example_start)) = Some run_job"
    using installed_found(1) [OF run_job_stored] by (simp add: example_start_fields run_job_name)
  have "manager_startBackup (Some run_job) ''j'' (mgr (d_sys example_start))
      = (True, [''j''], set_status ''j'' Running new_manager)"
    by (simp add: manager_startBackup_def startBackupThread_def run_job_name example_start_fields init_msys_def new_manager_def)
  with found example_start_fields(2) have "daemon_step (run_ext mount_works) default_env example_start
      (example_start\<lparr>d_sys := (d_sys example_start)\<lparr>mgr := set_status ''j'' Running new_manager,
         live := live (d_sys example_start) @ [''j'']\<rparr>\<rparr>)"
    by (intro daemon_step.start_call [where n = "''j''"]) auto
  then show ?thesis by (simp add: example_running_def example_start_fields) (simp add: init_msys_def)
qed

lemma example_running_reach: "daemon_reach (run_ext mount_works) default_env example_running"
  using example_running_step unfolding daemon_reach_def example_start_def by blast

lemma example_worker: "\<exists>st. run_state (worker_process (run_ext mount_works) default_env ''j'') (d_st example_running) = (Some True, st)"
proof -
  let ?E = "run_ext mount_works" and ?w = "os (d_st example_running)"
  have w: "?w = snd (new_tiConfMain ?E default_env (installed ?E run_job))"
    by (simp add: example_running_def example_start_fields)
  have "getJobByName ?E jobs_path ''j'' (snd (new_tiConfMain ?E default_env ?w)) = Some run_job"
    "to_text (getValue (fst (new_tiConfMain ?E default_env ?w)) ''paths/backupjobs'') = jobs_path"
    using installed_found(2,3) [OF run_job_stored] unfolding w by (simp_all add: run_job_name jobs_dir_def)
  with run_completes [OF run_job_fields(1,2)] show ?thesis by (simp add: worker_reports Let_def)
qed

lemma example_only:
  assumes "job \<in> set (getJobs (run_ext mount_works) (jobs_dir (fst (new_tiConfMain (run_ext mount_works) default_env (os (d_st example_running)))))
      (snd (new_tiConfMain (run_ext mount_works) default_env (os (d_st example_running)))))" and "job_name job = ''j''"
  shows "job = run_job"
proof -
  let ?E = "run_ext mount_works" and ?w = "os (d_st example_running)"
  let ?v = "snd (new_tiConfMain ?E default_env ?w)"
  have w: "?w = snd (new_tiConfMain ?E default_env (installed ?E run_job))"
    by (simp add: example_running_def example_start_fields)
  have f: "getJobByName ?E jobs_path ''j'' ?v = Some run_job" "jobs_dir (fst (new_tiConfMain ?E default_env ?w)) = jobs_path"
    using installed_found(2,3) [OF run_job_stored] unfolding w by (simp_all add: run_job_name)
  have c: "store_consistent ?E job_decode job_name jobs_path ?v"
    unfolding w using installed_job [OF run_job_stored] by (intro store_consistent_conf [OF apart_default]) simp
  have "key_ok ''j''" by (simp add: key_ok_def)
  with job_store.consistent_items [OF c this, of job] job_store.find_key [OF c this] f assms show ?thesis
    by (simp add: getJobs_def getJobByName_def readBackupJobs_def)
qed

lemma example_ready: "run_ready (run_ext mount_works) default_env ''j'' (os (d_st example_running))"
proof -
  let ?E = "run_ext mount_works" and ?w = "os (d_st example_running)"
  have w: "?w = snd (new_tiConfMain ?E default_env (installed ?E run_job))"
    by (simp add: example_running_def example_start_fields)
  have "getJobByName ?E jobs_path ''j'' (snd (new_tiConfMain ?E default_env ?w)) = Some run_job"
    "to_text (getValue (fst (new_tiConfMain ?E default_env ?w)) ''paths/backupjobs'') = jobs_path"
    using installed_found(2,3) [OF run_job_stored] unfolding w by (simp_all add: run_job_name jobs_dir_def)
  moreover have "disks_in_bounds ?E v" for v
    by (auto simp: disks_in_bounds_def getAttachedDisks_def isDeviceDisk_def udev_disk_def udev_value_def numparts_ok_def
        run_ext_def)
  moreover have "no_containers run_job" using run_job_fields(2) by (simp add: no_containers_def)
  ultimately show ?thesis by (simp add: run_ready_def case_prod_unfold Let_def)
qed

lemma example_finished:
  "\<exists>s. daemon_reach (run_ext mount_works) default_env s \<and> (''j'', Finished) \<in> set (statusChanged (mgr (d_sys s)))
     \<and> queued (d_sys s) = [] \<and> (\<exists>st. d_runs s = [(''j'', d_st example_running, st, True)]) \<and> statusChanged (mgr (d_sys s)) = [(''j'', Running), (''j'', Finished)]"
proof -
  let ?E = "run_ext mount_works" and ?s = example_running
  obtain st where st: "run_state (worker_process ?E default_env ''j'') (d_st ?s) = (Some True, st)"
    using example_worker by blast
  let ?t = "?s\<lparr>d_sys := (d_sys ?s)\<lparr>live := [] @ [], queued := queued (d_sys ?s) @ [(''j'', True)]\<rparr>,
       d_st := st, d_runs := d_runs ?s @ [(''j'', d_st ?s, st, True)]\<rparr>"
  have up: "d_up ?s" "live (d_sys ?s) = [] @ ''j'' # []" "queued (d_sys ?s) = []" "d_runs ?s = []"
    by (simp_all add: example_running_def example_start_fields init_msys_def)
  have t: "daemon_reach ?E default_env ?t"
    by (rule reach_step [OF example_running_reach daemon_step.worker_run [OF up(1,2) st]])
  have "d_up ?t" "queued (d_sys ?t) = [] @ (''j'', True) # []" using up by simp_all
  from reach_step [OF t daemon_step.delivery [OF this]] show ?thesis
    by (intro exI conjI, assumption)
      (simp_all add: onBackupFinished_def set_status_def example_running_def init_msys_def new_manager_def example_start_fields)
qed



theorem every_run_reported_once_witness:
  "\<exists>s. daemon_reach (run_ext mount_works) default_env s \<and> count_list (run_results s) (''j'', True) = 1"
proof -
  obtain s where s: "daemon_reach (run_ext mount_works) default_env s" "queued (d_sys s) = []"
    "statusChanged (mgr (d_sys s)) = [(''j'', Running), (''j'', Finished)]"
    using example_finished by blast
  with every_run_reported_once [OF s(1), of "''j''" True] show ?thesis by auto
qed



end
