(* ===== verification/PbsReport.thy ===== *)
theory PbsReport
  imports RunLaws
begin

text \<open>
  What the PBS part of a run does for a backup id, and what its log entries say of it: which
  files of a snapshot are restored and by which commands, how they are packed, and that an
  entry reporting an archive is backed by all of that in the trace.
\<close>

section \<open>Restoring a snapshot\<close>

text \<open>The archives of a snapshot that are restored, by the names the client knows them under.\<close>

definition archive_name :: "string \<Rightarrow> bool" where
  "archive_name n \<longleftrightarrow> endsWith n ''.conf'' \<or> endsWith n ''.pxar'' \<or> endsWith n ''.img''"

definition archive_names :: "json list \<Rightarrow> string list" where
  "archive_names fs =
     filter archive_name (map (\<lambda>f. strip_ext (json_str (json_get ''filename'' f))) fs)"

text \<open>
  A call of the client for one archive, with what became of it: true if it exited with 0 and
  was given the key file the server asks for.
\<close>

definition restore_call ::
  "'w ext \<Rightarrow> tiBackupJob \<Rightarrow> PBServer \<Rightarrow> string \<Rightarrow> string \<Rightarrow> string \<Rightarrow> cmd \<times> bool \<Rightarrow> bool" where
  "restore_call E job pb vmdir respec name x \<longleftrightarrow>
     (\<exists>key w. fst x = ArgvEnv ''proxmox-backup-client''
          ([''restore'', respec, name, vmdir @ ''/'' @ name] @ key) (restore_env job pb)
        \<and> (key = [] \<or> pb_keyfile pb \<noteq> [] \<and> key = [''--keyfile'', pb_keyfile pb])
        \<and> (snd x \<longleftrightarrow> p_code (fst (x_exec E (fst x) w)) = 0 \<and> (pb_keyfile pb = [] \<or> key \<noteq> [])))"

lemma key_args_run:
  "\<exists>key err log es. run_state (key_args pb rs) s
      = ((key, rs\<lparr>rs_log := log, rs_err := rs_err rs \<or> err\<rparr>), s\<lparr>trace := trace s @ es\<rparr>)
    \<and> execs es = [] \<and> (key = [] \<or> pb_keyfile pb \<noteq> [] \<and> key = [''--keyfile'', pb_keyfile pb])
    \<and> (err \<longleftrightarrow> pb_keyfile pb \<noteq> [] \<and> key = []) \<and> (\<not> err \<longrightarrow> log = rs_log rs)"
proof (cases "pb_keyfile pb = [] \<or> path_exists (os s) (pb_keyfile pb)")
  case True
  then show ?thesis
    by (intro exI [of _ "if pb_keyfile pb = [] then [] else [''--keyfile'', pb_keyfile pb]"]
        exI [of _ False] exI [of _ "rs_log rs"] exI [of _ "[]"]) (auto simp: key_args_def run_simps)
next
  case False
  let ?m = "''Encryption file '' @ pb_keyfile pb @ '' not found!''"
  from False show ?thesis
    by (intro exI [of _ "[]"] exI [of _ True] exI [of _ "add_errmsg (?m @ '', '') (rs_log rs)"]
        exI [of _ "[Log ?m]"]) (simp add: key_args_def say_def run_simps)
qed

lemma make_room_run:
  "\<exists>es w. run_state (whenM ex (do { say m; delete_file t })) s = ((), s\<lparr>os := w, trace := trace s @ es\<rparr>)
     \<and> execs es = []"
proof (cases ex)
  case True
  then show ?thesis
    by (intro exI [of _ "[Log m, Delete t]"] exI [of _ "snd (file_remove t (os s))"])
      (simp add: delete_file_def say_def run_simps)
next
  case False
  then show ?thesis by (intro exI [of _ "[]"] exI [of _ "os s"]) simp
qed

lemma restore_run_run:
  assumes "run_state (restore_run E job pb vmdir respec name rs) s = (rs', s')"
  shows "\<exists>es x. trace s' = trace s @ es \<and> execs es = [fst x] \<and> restore_call E job pb vmdir respec name x
    \<and> (rs_err rs' \<longleftrightarrow> rs_err rs \<or> \<not> snd x) \<and> rs_conf rs' = rs_conf rs \<and> rs_images rs' = rs_images rs
    \<and> (snd x \<longrightarrow> rs_log rs' = rs_log rs)"
proof -
  let ?t = "vmdir @ ''/'' @ name"
  let ?old = "''File '' @ name @ '' already exists on target, deleting''"
  obtain es1 w1 where 1: "run_state (whenM (path_exists (os s) ?t) (do { say ?old; delete_file ?t })) s
      = ((), s\<lparr>os := w1, trace := trace s @ es1\<rparr>)" "execs es1 = []"
    using make_room_run by blast
  let ?s1 = "s\<lparr>os := w1, trace := trace s @ es1\<rparr>"
  obtain key err log es2 where 2: "run_state (key_args pb rs) ?s1
      = ((key, rs\<lparr>rs_log := log, rs_err := rs_err rs \<or> err\<rparr>), ?s1\<lparr>trace := trace ?s1 @ es2\<rparr>)" "execs es2 = []"
      "key = [] \<or> pb_keyfile pb \<noteq> [] \<and> key = [''--keyfile'', pb_keyfile pb]"
      "err \<longleftrightarrow> pb_keyfile pb \<noteq> [] \<and> key = []" "\<not> err \<longrightarrow> log = rs_log rs"
    using key_args_run [of pb rs ?s1] by blast
  let ?c = "ArgvEnv ''proxmox-backup-client'' ([''restore'', respec, name, ?t] @ key) (restore_env job pb)"
  let ?r = "fst (x_exec E ?c w1)"
  let ?start = "''Start PBS backup cmd: proxmox-backup-client '' @ join '','' ([''restore'', respec, name, ?t] @ key)"
  have rest: "restore_run E job pb vmdir respec name rs = do {
      ex \<leftarrow> asks (\<lambda>s. path_exists s ?t);
      whenM ex (do { say ?old; delete_file ?t });
      (key, rs1) \<leftarrow> key_args pb rs;
      say (''Start PBS backup cmd: proxmox-backup-client '' @ join '','' ([''restore'', respec, name, ?t] @ key));
      r \<leftarrow> run_cmd E (ArgvEnv ''proxmox-backup-client'' ([''restore'', respec, name, ?t] @ key) (restore_env job pb));
      if p_code r = 0
      then do { say (''Successful backup for '' @ respec @ name @ p_out r); State_Monad.return rs1 }
      else do {
        say (''Failed backup for '' @ respec @ name @ p_out r);
        State_Monad.return (rs1\<lparr>rs_log := add_errmsg (p_out r @ '', '') (rs_log rs1), rs_err := True\<rparr>) } }"
    by (simp add: restore_run_def Let_def)
  have tr: "trace s' = trace s @ (es1 @ es2 @ [Log ?start, Exec ?c,
        Log ((if p_code ?r = 0 then ''Successful'' else ''Failed'') @ '' backup for '' @ respec @ name @ p_out ?r)])
      \<and> rs' = (if p_code ?r = 0 then rs\<lparr>rs_log := log, rs_err := rs_err rs \<or> err\<rparr>
               else rs\<lparr>rs_log := add_errmsg (p_out ?r @ '', '') log, rs_err := True\<rparr>)"
    using assms 1(1) 2(1) unfolding rest
    by (auto simp: run_cmd_def say_def run_simps simp del: run_state_whenM split: if_splits)
  have "restore_call E job pb vmdir respec name (?c, p_code ?r = 0 \<and> \<not> err)"
    unfolding restore_call_def using 2(3,4) by (intro exI [of _ key] exI [of _ w1]) auto
  with tr 1(2) 2 show ?thesis
    by (intro exI [of _ "es1 @ es2 @ [Log ?start, Exec ?c,
        Log ((if p_code ?r = 0 then ''Successful'' else ''Failed'') @ '' backup for '' @ respec @ name @ p_out ?r)]"]
        exI [of _ "(?c, p_code ?r = 0 \<and> \<not> err)"]) auto
qed

text \<open>A file of another kind is skipped; the others are restored in the order of the snapshot.\<close>

lemma restore_one_skips:
  assumes "\<not> archive_name (strip_ext n)"
  shows "\<exists>es. run_state (restore_one E job pb vmdir respec n rs) s = (rs, s\<lparr>trace := trace s @ es\<rparr>) \<and> execs es = []"
  using assms
  by (intro exI [of _ "[Log (''Backup restore :: '' @ strip_ext n @ '' orig::'' @ n),
      Log (''File '' @ strip_ext n @ '' not needed, skipping'')]"])
    (simp add: restore_one_def archive_name_def say_def run_simps)

lemma restore_one_restores:
  assumes "run_state (restore_one E job pb vmdir respec n rs) s = (rs', s')" and "archive_name (strip_ext n)"
  shows "\<exists>es x. trace s' = trace s @ es \<and> execs es = [fst x] \<and> restore_call E job pb vmdir respec (strip_ext n) x
    \<and> (rs_err rs' \<longleftrightarrow> rs_err rs \<or> \<not> snd x)
    \<and> rs_conf rs' = (if endsWith (strip_ext n) ''.conf'' then strip_ext n else rs_conf rs)
    \<and> rs_images rs' = rs_images rs @ (if endsWith (strip_ext n) ''.conf'' then [] else [strip_ext n])
    \<and> (snd x \<longrightarrow> rs_log rs' = rs_log rs)"
proof -
  let ?m = "strip_ext n"
  let ?rs = "if endsWith ?m ''.conf'' then rs\<lparr>rs_conf := ?m\<rparr> else rs\<lparr>rs_images := rs_images rs @ [?m]\<rparr>"
  let ?l = "Log (''Backup restore :: '' @ ?m @ '' orig::'' @ n)"
  have "run_state (restore_run E job pb vmdir respec ?m ?rs) (s\<lparr>trace := trace s @ [?l]\<rparr>) = (rs', s')"
    using assms by (auto simp: restore_one_def archive_name_def say_def run_simps split: if_splits)
  from restore_run_run [OF this] obtain es x where r: "trace s' = trace (s\<lparr>trace := trace s @ [?l]\<rparr>) @ es" "execs es = [fst x]"
    "restore_call E job pb vmdir respec ?m x" "rs_err rs' \<longleftrightarrow> rs_err ?rs \<or> \<not> snd x" "rs_conf rs' = rs_conf ?rs"
    "rs_images rs' = rs_images ?rs" "snd x \<longrightarrow> rs_log rs' = rs_log ?rs" by blast
  then show ?thesis by (intro exI [of _ "?l # es"] exI [of _ x]) auto
qed

definition last_conf :: "string \<Rightarrow> string list \<Rightarrow> string" where
  "last_conf c ns = foldl (\<lambda>c n. if endsWith n ''.conf'' then n else c) c ns"

lemma restore_all_run:
  assumes "run_state (restore_all E job pb vmdir respec fs rs) s = (rs', s')"
  shows "\<exists>es calls. trace s' = trace s @ es \<and> execs es = map fst calls
    \<and> list_all2 (restore_call E job pb vmdir respec) (archive_names fs) calls
    \<and> (rs_err rs' \<longleftrightarrow> rs_err rs \<or> \<not> list_all snd calls)
    \<and> rs_conf rs' = last_conf (rs_conf rs) (archive_names fs)
    \<and> rs_images rs' = rs_images rs @ filter (\<lambda>n. \<not> endsWith n ''.conf'') (archive_names fs)
    \<and> (list_all snd calls \<longrightarrow> rs_log rs' = rs_log rs)"
  using assms
proof (induction fs arbitrary: rs s)
  case Nil
  then show ?case
    by (intro exI [of _ "[]"]) (simp add: archive_names_def last_conf_def)
next
  case (Cons f fs)
  let ?n = "json_str (json_get ''filename'' f)"
  obtain rs1 s1 where one: "run_state (restore_one E job pb vmdir respec ?n rs) s = (rs1, s1)" by fastforce
  with Cons.prems have "run_state (restore_all E job pb vmdir respec fs rs1) s1 = (rs', s')" by simp
  from Cons.IH [OF this] obtain es calls where IH: "trace s' = trace s1 @ es" "execs es = map fst calls"
    "list_all2 (restore_call E job pb vmdir respec) (archive_names fs) calls"
    "rs_err rs' \<longleftrightarrow> rs_err rs1 \<or> \<not> list_all snd calls"
    "rs_conf rs' = last_conf (rs_conf rs1) (archive_names fs)"
    "rs_images rs' = rs_images rs1 @ filter (\<lambda>n. \<not> endsWith n ''.conf'') (archive_names fs)"
    "list_all snd calls \<longrightarrow> rs_log rs' = rs_log rs1" by blast
  show ?case
  proof (cases "archive_name (strip_ext ?n)")
    case False
    with restore_one_skips [OF False] one obtain es1 where "rs1 = rs" "s1 = s\<lparr>trace := trace s @ es1\<rparr>" "execs es1 = []"
      by (metis prod.inject)
    with IH False show ?thesis
      by (intro exI [of _ "es1 @ es"] exI [of _ calls]) (simp add: archive_names_def)
  next
    case True
    from restore_one_restores [OF one True] obtain es1 x where 1: "trace s1 = trace s @ es1" "execs es1 = [fst x]"
      "restore_call E job pb vmdir respec (strip_ext ?n) x" "rs_err rs1 \<longleftrightarrow> rs_err rs \<or> \<not> snd x"
      "rs_conf rs1 = (if endsWith (strip_ext ?n) ''.conf'' then strip_ext ?n else rs_conf rs)"
      "rs_images rs1 = rs_images rs @ (if endsWith (strip_ext ?n) ''.conf'' then [] else [strip_ext ?n])"
      "snd x \<longrightarrow> rs_log rs1 = rs_log rs" by blast
    have "archive_names (f # fs) = strip_ext ?n # archive_names fs" using True by (simp add: archive_names_def)
    with IH 1 show ?thesis
      by (intro exI [of _ "es1 @ es"] exI [of _ "x # calls"]) (auto simp: last_conf_def)
  qed
qed

section \<open>Packing a guest\<close>

definition no_exec :: "event \<Rightarrow> bool" where
  "no_exec e \<longleftrightarrow> execs [e] = []"

lemma no_exec_simps [simp]:
  "no_exec (Log m)" "no_exec (MakePath p)" "no_exec (Delete p)" "no_exec (DeleteTree p)" "no_exec (CopyFile p q)"
  "no_exec (ExecPipe p a q b)" "no_exec (Send r)"
  by (simp_all add: no_exec_def)

lemma execs_no_exec: "\<forall>e \<in> set es. no_exec e \<Longrightarrow> execs es = []"
  unfolding no_exec_def by (induction es) auto

text \<open>An operation that only changes the system and starts no single program.\<close>

lemma starts_nothing:
  assumes "frame m" and "emits no_exec m"
  obtains x w es where "run_state m s = (x, s\<lparr>os := w, trace := trace s @ es\<rparr>)" and "execs es = []"
proof -
  obtain x s1 where m: "run_state m s = (x, s1)" by fastforce
  with emits_run [OF assms(2)] obtain es where es: "trace s1 = trace s @ es" "execs es = []"
    using execs_no_exec by blast
  from assms(1) m obtain w t where "s1 = s\<lparr>os := w, trace := t\<rparr>" unfolding frame_def by (metis snd_conv)
  with es(1) m es(2) that show thesis by simp
qed

lemma remove_old_nothing: "frame (remove_old base pre)" "emits no_exec (remove_old base pre)"
  unfolding remove_old_def by (intro frame_intros) (intro emits_intros, simp)

lemma remove_old_run:
  "\<exists>w es. run_state (remove_old base pre) s = ((), s\<lparr>os := w, trace := trace s @ es\<rparr>) \<and> execs es = []"
proof -
  obtain x w es where "run_state (remove_old base pre) s = (x, s\<lparr>os := w, trace := trace s @ es\<rparr>)" "execs es = []"
    by (rule starts_nothing [OF remove_old_nothing])
  then show ?thesis by (cases x) blast
qed

lemma cleanup_nothing: "emits no_exec (cleanup vmType vmdir vmConf vmImages)"
  unfolding cleanup_def delete_tree_def by (intro emits_intros) simp_all

definition zstd_args :: "string \<Rightarrow> string list" where
  "zstd_args out = [''-f'', ''-3'', ''-T4'', ''-o'', out]"

definition vma_args :: "string \<Rightarrow> string \<Rightarrow> string list \<Rightarrow> string list" where
  "vma_args base conf imgs = [''create'', ''/dev/stdout'', ''-c'', base @ ''/'' @ conf]
     @ map (\<lambda>img. hd (split_on CHR ''.'' img) @ ''='' @ base @ ''/'' @ img) imgs"

definition vm_archive :: "'w ext \<Rightarrow> string \<Rightarrow> int \<Rightarrow> string" where
  "vm_archive E vmID t = ''vzdump-qemu-'' @ vmID @ ''-'' @ x_utc E ''yyyy_MM_dd-hh_mm_ss'' t @ ''.vma.zst''"

definition ct_archive :: "'w ext \<Rightarrow> string \<Rightarrow> int \<Rightarrow> string" where
  "ct_archive E vmID t = ''vzdump-lxc-'' @ vmID @ ''-'' @ x_utc E ''yyyy_MM_dd-hh_mm_ss'' t @ ''.tar.zst''"

definition pipe_ok :: "pipe_result \<Rightarrow> bool" where
  "pipe_ok r \<longleftrightarrow> pipe_normal1 r \<and> pipe_code1 r = 0 \<and> pipe_normal2 r \<and> pipe_code2 r = 0"

text \<open>
  What packing a guest leaves in the trace, and when it is a success: the packers exited with 0 and
  the archive has more than 1000 bytes.
\<close>

definition packed_vm :: "'w ext \<Rightarrow> string \<Rightarrow> string \<Rightarrow> int \<Rightarrow> string \<Rightarrow> string list \<Rightarrow> event list \<Rightarrow> bool \<Rightarrow> bool" where
  "packed_vm E base vmID t conf imgs es ok \<longleftrightarrow>
     (let out = base @ ''/'' @ vm_archive E vmID t in
      execs es = [] \<and> ExecPipe ''vma'' (vma_args base conf imgs) ''zstd'' (zstd_args out) \<in> set es
      \<and> (\<exists>w w'. ok \<longleftrightarrow> pipe_ok (fst (x_pipe E ''vma'' (vma_args base conf imgs) ''zstd'' (zstd_args out) w))
           \<and> 1000 < x_filesize E out w'))"

definition packed_ct :: "'w ext \<Rightarrow> string \<Rightarrow> string \<Rightarrow> int \<Rightarrow> string \<Rightarrow> event list \<Rightarrow> bool \<Rightarrow> bool" where
  "packed_ct E base vmID t img es ok \<longleftrightarrow>
     (let out = base @ ''/'' @ ct_archive E vmID t;
          tar = Argv ''tar'' [''-C'', base @ ''/'' @ img, ''-cf'', base @ ''/ct.tar'', ''.''];
          zst = Argv ''zstd'' [''-f'', ''-3'', ''-T4'', ''--rm'', base @ ''/ct.tar'', ''-o'', out] in
      \<exists>w w' w''. execs es = tar # (if p_code (fst (x_exec E tar w)) = 0 then [zst] else [])
        \<and> (ok \<longleftrightarrow> p_code (fst (x_exec E tar w)) = 0 \<and> p_code (fst (x_exec E zst w')) = 0 \<and> 1000 < x_filesize E out w''))"

text \<open>The texts of the report are never empty.\<close>

lemma q_arg_keeps_first: "c \<noteq> CHR ''%'' \<Longrightarrow> \<exists>r. q_arg (c # cs) a = c # r"
  by (simp add: q_arg_def Let_def)

lemma archived_msg_neq_Nil [simp]: "archived_msg imgs out n \<noteq> []"
proof -
  have "\<exists>r. archived_msg imgs out n = CHR ''S'' # r"
    unfolding archived_msg_def append_Cons by (rule q_arg_keeps_first) simp
  then show ?thesis by auto
qed

lemma packing_failed_neq_Nil:
  "q_arg (q_arg (q_arg ''Compression or packaging failed for %1 (vma exit %2, zstd exit %3)'' a) b) c \<noteq> []"
proof -
  obtain r where 1: "q_arg ''Compression or packaging failed for %1 (vma exit %2, zstd exit %3)'' a = CHR ''C'' # r"
    using q_arg_keeps_first [of "CHR ''C''"] by fastforce
  obtain r' where 2: "q_arg (CHR ''C'' # r) b = CHR ''C'' # r'" using q_arg_keeps_first [of "CHR ''C''"] by fastforce
  obtain r'' where "q_arg (CHR ''C'' # r') c = CHR ''C'' # r''" using q_arg_keeps_first [of "CHR ''C''"] by fastforce
  then show ?thesis unfolding 1 2 by simp
qed

text \<open>How an entry changes: a success adds a message, a failure an error message.\<close>

definition entry_tells :: "tiBackupJobPBSLog \<Rightarrow> tiBackupJobPBSLog \<Rightarrow> bool \<Rightarrow> bool" where
  "entry_tells log l ok \<longleftrightarrow> pbslog_vmid l = pbslog_vmid log
     \<and> (if ok then pbslog_msg l \<noteq> [] \<and> pbslog_errmsg l = pbslog_errmsg log
        else pbslog_msg l = pbslog_msg log \<and> pbslog_errmsg l \<noteq> [])"

lemma entry_tells_add [simp]:
  "m \<noteq> [] \<Longrightarrow> entry_tells log (add_msg m log) ok \<longleftrightarrow> ok \<or> (pbslog_msg log @ m = pbslog_msg log \<and> pbslog_errmsg log \<noteq> [])"
  "m \<noteq> [] \<Longrightarrow> entry_tells log (add_errmsg m log) False"
  by (auto simp: entry_tells_def add_msg_def add_errmsg_def)

lemma check_archive_run:
  assumes "e \<noteq> []"
  shows "\<exists>l es. run_state (check_archive E outPath out imgs e log) s = (l, s\<lparr>trace := trace s @ es\<rparr>) \<and> execs es = []
     \<and> entry_tells log l (1000 < x_filesize E outPath (os s))"
proof (cases "1000 < x_filesize E outPath (os s)")
  case True
  let ?m = "archived_msg imgs out (x_filesize E outPath (os s))"
  from True show ?thesis
    by (intro exI [of _ "add_msg ?m log"] exI [of _ "[Log ?m]"]) (simp add: check_archive_def say_def run_simps)
next
  case False
  with assms show ?thesis
    by (intro exI [of _ "add_errmsg (e @ out) log"] exI [of _ "[Log (e @ out)]"])
      (simp add: check_archive_def say_def run_simps)
qed

lemma package_vm_run:
  assumes "run_state (package_vm E base vmID t conf imgs log) s = (l, s')"
  shows "\<exists>es ok. trace s' = trace s @ es \<and> entry_tells log l ok \<and> packed_vm E base vmID t conf imgs es ok"
proof -
  let ?out = "base @ ''/'' @ vm_archive E vmID t"
  let ?va = "vma_args base conf imgs" and ?za = "zstd_args (base @ ''/'' @ vm_archive E vmID t)"
  let ?empty = "''Failed backup, compression or packaging produced an empty archive: ''"
  let ?l1 = "Log ''Start compressing VM''"
  let ?l2 = "Log (''Execute VMA-ZStd: vma '' @ join '' '' ?va @ '' | zstd -f -3 -T4 -o '' @ ?out)"
  obtain w1 es1 where old: "run_state (remove_old base ''vzdump-qemu-'') s = ((), s\<lparr>os := w1, trace := trace s @ es1\<rparr>)"
      "execs es1 = []"
    using remove_old_run by blast
  let ?r = "fst (x_pipe E ''vma'' ?va ''zstd'' ?za w1)" and ?w2 = "snd (x_pipe E ''vma'' ?va ''zstd'' ?za w1)"
  let ?es = "es1 @ [?l1, ?l2, ExecPipe ''vma'' ?va ''zstd'' ?za]"
  let ?s2 = "s\<lparr>trace := trace s @ ?es, os := ?w2\<rparr>"
  have run: "run_state (package_vm E base vmID t conf imgs log) s =
      (if pipe_ok ?r then run_state (check_archive E ?out (vm_archive E vmID t) imgs ?empty log) ?s2
       else (let msg = q_arg (q_arg (q_arg ''Compression or packaging failed for %1 (vma exit %2, zstd exit %3)''
               (vm_archive E vmID t)) (show_int (pipe_code1 ?r))) (show_int (pipe_code2 ?r))
             in (add_errmsg msg log, ?s2\<lparr>trace := trace ?s2 @ [Log msg]\<rparr>)))"
    using old(1)
    by (simp add: package_vm_def vma_args_def zstd_args_def vm_archive_def pipe_ok_def say_def run_simps)
  show ?thesis
  proof (cases "pipe_ok ?r")
    case True
    obtain l' es2 where c: "run_state (check_archive E ?out (vm_archive E vmID t) imgs ?empty log) ?s2
        = (l', ?s2\<lparr>trace := trace ?s2 @ es2\<rparr>)" "execs es2 = []" "entry_tells log l' (1000 < x_filesize E ?out (os ?s2))"
      using check_archive_run [of ?empty E ?out "vm_archive E vmID t" imgs log ?s2] by auto
    with run True assms have "l = l'" "s' = ?s2\<lparr>trace := trace ?s2 @ es2\<rparr>" by auto
    moreover have "packed_vm E base vmID t conf imgs (?es @ es2) (1000 < x_filesize E ?out (os ?s2))"
      unfolding packed_vm_def Let_def using True old(2) c(2) by (intro conjI exI [of _ w1] exI [of _ "os ?s2"]) auto
    ultimately show ?thesis
      using c(3) by (intro exI [of _ "?es @ es2"] exI [of _ "1000 < x_filesize E ?out (os ?s2)"]) simp
  next
    case False
    let ?msg = "q_arg (q_arg (q_arg ''Compression or packaging failed for %1 (vma exit %2, zstd exit %3)''
               (vm_archive E vmID t)) (show_int (pipe_code1 ?r))) (show_int (pipe_code2 ?r))"
    from run False assms have "l = add_errmsg ?msg log" "s' = ?s2\<lparr>trace := trace ?s2 @ [Log ?msg]\<rparr>"
      by (auto simp: Let_def)
    moreover have "entry_tells log (add_errmsg ?msg log) False" by (rule entry_tells_add(2)) (rule packing_failed_neq_Nil)
    moreover have "packed_vm E base vmID t conf imgs (?es @ [Log ?msg]) False"
      unfolding packed_vm_def Let_def using False old(2) by (intro conjI exI [of _ w1]) auto
    ultimately show ?thesis by (intro exI [of _ "?es @ [Log ?msg]"] exI [of _ False]) simp
  qed
qed

lemma package_ct_run:
  assumes "run_state (package_ct E base vmID t conf (img # imgs) log) s = (r, s')"
  shows "\<exists>l es ok. r = Some l \<and> trace s' = trace s @ es \<and> entry_tells log l ok \<and> packed_ct E base vmID t img es ok"
proof -
  let ?name = "ct_archive E vmID t"
  let ?out = "base @ ''/'' @ ?name" and ?dir = "base @ ''/'' @ img" and ?tp = "base @ ''/ct.tar''"
  let ?tar = "Argv ''tar'' [''-C'', ?dir, ''-cf'', ?tp, ''.'']"
  let ?zst = "Argv ''zstd'' [''-f'', ''-3'', ''-T4'', ''--rm'', ?tp, ''-o'', ?out]"
  let ?empty = "''Failed backup, compression produced an empty archive: ''"
  let ?bad_z = "''Compression failed for '' @ ?name @ '' (zstd)''" and ?bad_t = "''Packaging failed for '' @ ?name @ '' (tar)''"
  let ?mp = "?dir @ ''/etc/vzdump/''" and ?from = "base @ ''/'' @ conf" and ?to = "?dir @ ''/etc/vzdump/'' @ conf"
  let ?es0 = "[MakePath ?mp, CopyFile ?from ?to]"
  let ?s0 = "s\<lparr>trace := trace s @ ?es0, os := snd (file_copy ?from ?to (mkpath ?mp (os s)))\<rparr>"
  obtain w1 es1 where old: "run_state (remove_old base ''vzdump-lxc-'') ?s0
      = ((), ?s0\<lparr>os := w1, trace := trace ?s0 @ es1\<rparr>)" "execs es1 = []"
    using remove_old_run by blast
  let ?w2 = "snd (x_exec E ?tar w1)" and ?w3 = "snd (x_exec E ?zst (snd (x_exec E ?tar w1)))"
  let ?es2 = "?es0 @ es1 @ [Log ''Start compressing CT'', Exec ?tar]"
  let ?s3 = "s\<lparr>trace := trace s @ ?es2 @ [Exec ?zst], os := ?w3\<rparr>"
  have run: "run_state (package_ct E base vmID t conf (img # imgs) log) s =
      (if p_code (fst (x_exec E ?tar w1)) = 0
       then if p_code (fst (x_exec E ?zst ?w2)) = 0
            then (let (l, t) = run_state (check_archive E ?out ?name (img # imgs) ?empty log) ?s3 in (Some l, t))
            else (Some (add_errmsg ?bad_z log), ?s3\<lparr>trace := trace ?s3 @ [Log ?bad_z]\<rparr>)
       else (Some (add_errmsg ?bad_t log), s\<lparr>trace := trace s @ ?es2 @ [Log ?bad_t], os := ?w2\<rparr>))"
    using old(1)
    by (simp add: package_ct_def ct_archive_def make_path_def run_cmd_def say_def run_simps split: prod.split)
  have tells: "entry_tells log (add_errmsg ?bad_z log) False" "entry_tells log (add_errmsg ?bad_t log) False"
    by (rule entry_tells_add(2), simp)+
  consider (ok) "p_code (fst (x_exec E ?tar w1)) = 0" "p_code (fst (x_exec E ?zst ?w2)) = 0"
    | (zst) "p_code (fst (x_exec E ?tar w1)) = 0" "p_code (fst (x_exec E ?zst ?w2)) \<noteq> 0"
    | (tar) "p_code (fst (x_exec E ?tar w1)) \<noteq> 0" by blast
  then show ?thesis
  proof cases
    case ok
    obtain l es3 where c: "run_state (check_archive E ?out ?name (img # imgs) ?empty log) ?s3
        = (l, ?s3\<lparr>trace := trace ?s3 @ es3\<rparr>)" "execs es3 = []" "entry_tells log l (1000 < x_filesize E ?out (os ?s3))"
      using check_archive_run [of ?empty E ?out ?name "img # imgs" log ?s3] by auto
    with run ok assms have "r = Some l" "s' = ?s3\<lparr>trace := trace ?s3 @ es3\<rparr>" by auto
    moreover have "packed_ct E base vmID t img (?es2 @ [Exec ?zst] @ es3) (1000 < x_filesize E ?out (os ?s3))"
      unfolding packed_ct_def Let_def
      using ok old(2) c(2)
      by (rule_tac exI [of _ w1], rule_tac exI [of _ ?w2], rule_tac exI [of _ "os ?s3"]) simp
    ultimately show ?thesis
      using c(3) by (intro exI [of _ l] exI [of _ "?es2 @ [Exec ?zst] @ es3"]
          exI [of _ "1000 < x_filesize E ?out (os ?s3)"]) simp
  next
    case zst
    with run assms have "r = Some (add_errmsg ?bad_z log)" "trace s' = trace s @ (?es2 @ [Exec ?zst, Log ?bad_z])" by auto
    moreover have "packed_ct E base vmID t img (?es2 @ [Exec ?zst, Log ?bad_z]) False"
      unfolding packed_ct_def Let_def using zst old(2) by (rule_tac exI [of _ w1], rule_tac exI [of _ ?w2]) simp
    ultimately show ?thesis using tells(1) by blast
  next
    case tar
    with run assms have "r = Some (add_errmsg ?bad_t log)" "trace s' = trace s @ (?es2 @ [Log ?bad_t])" by auto
    moreover have "packed_ct E base vmID t img (?es2 @ [Log ?bad_t]) False"
      unfolding packed_ct_def Let_def using tar old(2) by (rule_tac exI [of _ w1]) simp
    ultimately show ?thesis using tells(2) by blast
  qed
qed

section \<open>One guest\<close>

definition restore_failed :: event where
  "restore_failed = Log ''Error processing proxmox-backup-client, check logs for details!''"

text \<open>Packing and cleaning up, the last part of \<open>restore_snapshot\<close>.\<close>

definition finish_guest ::
  "'w ext \<Rightarrow> string \<Rightarrow> string \<Rightarrow> string \<Rightarrow> int \<Rightarrow> restore \<Rightarrow> (('w, 'z) bst_scheme, bool) state" where
  "finish_guest E vmType vmID vmdir t rs = do {
     packed \<leftarrow> (if vmType = ''vm''
                then do { l \<leftarrow> package_vm E vmdir vmID t (rs_conf rs) (rs_images rs) (rs_log rs); State_Monad.return (Some l) }
                else package_ct E vmdir vmID t (rs_conf rs) (rs_images rs) (rs_log rs));
     case packed of
       None \<Rightarrow> State_Monad.return False
     | Some l \<Rightarrow> do { cleanup vmType vmdir (rs_conf rs) (rs_images rs); pbs_log l; State_Monad.return True } }"

lemma cleanup_run:
  fixes s :: "('w, 'z) bst_scheme"
  shows "\<exists>w es. run_state (cleanup vmType vmdir vmConf imgs) s = ((), s\<lparr>os := w, trace := trace s @ es\<rparr>) \<and> execs es = []"
proof -
  obtain x w es where "run_state (cleanup vmType vmdir vmConf imgs) s = (x, s\<lparr>os := w, trace := trace s @ es\<rparr>)" "execs es = []"
    by (rule starts_nothing [OF frame_packing(3) cleanup_nothing])
  then show ?thesis by (cases x) blast
qed

lemma framed:
  fixes m :: "(('w, 'z) bst_scheme, 'a) state"
  assumes "frame m" and "run_state m s = (x, s')"
  shows "pbs_logs s' = pbs_logs s \<and> pbs_msgs s' = pbs_msgs s"
  using assms unfolding frame_def by (metis bst.select_convs(2,4) bst.surjective snd_conv st.update_convs(1,2))

lemma finish_guest_run:
  fixes s :: "('w, 'z) bst_scheme"
  assumes "run_state (finish_guest E vmType vmID vmdir t rs) s = (True, s')"
  shows "\<exists>ep ec l ok. trace s' = trace s @ ep @ ec \<and> execs ec = [] \<and> pbs_logs s' = pbs_logs s @ [l]
    \<and> pbs_msgs s' = pbs_msgs s \<and> entry_tells (rs_log rs) l ok
    \<and> (if vmType = ''vm'' then packed_vm E vmdir vmID t (rs_conf rs) (rs_images rs) ep ok
        else rs_images rs \<noteq> [] \<and> packed_ct E vmdir vmID t (hd (rs_images rs)) ep ok)"
proof -
  let ?pack = "if vmType = ''vm''
      then do { l \<leftarrow> package_vm E vmdir vmID t (rs_conf rs) (rs_images rs) (rs_log rs); State_Monad.return (Some l) }
      else package_ct E vmdir vmID t (rs_conf rs) (rs_images rs) (rs_log rs)"
  obtain packed s1 where p: "run_state ?pack s = (packed, s1)" by fastforce
  obtain l where l: "packed = Some l" using assms p by (cases packed) (simp_all add: finish_guest_def)
  have "frame ?pack" by (intro frame_intros frame_packing)
  note fr = framed [OF this p]
  obtain ep ok where ep: "trace s1 = trace s @ ep" "entry_tells (rs_log rs) l ok"
    "if vmType = ''vm'' then packed_vm E vmdir vmID t (rs_conf rs) (rs_images rs) ep ok
        else rs_images rs \<noteq> [] \<and> packed_ct E vmdir vmID t (hd (rs_images rs)) ep ok"
  proof (cases "vmType = ''vm''")
    case True
    with p l have "run_state (package_vm E vmdir vmID t (rs_conf rs) (rs_images rs) (rs_log rs)) s = (l, s1)"
      by (auto split: prod.splits)
    from package_vm_run [OF this] True that show thesis by auto
  next
    case False
    with p have ct: "run_state (package_ct E vmdir vmID t (rs_conf rs) (rs_images rs) (rs_log rs)) s = (packed, s1)" by simp
    with l obtain img imgs where imgs: "rs_images rs = img # imgs"
      by (cases "rs_images rs") (auto simp: package_ct_def)
    from package_ct_run [OF ct [unfolded imgs]] l imgs False that show thesis by auto
  qed
  obtain w ec where c: "run_state (cleanup vmType vmdir (rs_conf rs) (rs_images rs)) s1
      = ((), s1\<lparr>os := w, trace := trace s1 @ ec\<rparr>)" "execs ec = []"
    using cleanup_run by blast
  have "s' = s1\<lparr>os := w, trace := trace s1 @ ec, pbs_logs := pbs_logs s1 @ [l]\<rparr>"
    using assms p l c(1) by (simp add: finish_guest_def pbs_log_def split: prod.splits)
  with ep fr c(2) show ?thesis
    by (intro exI [of _ ep] exI [of _ ec] exI [of _ l] exI [of _ ok]) simp
qed

lemma restore_snapshot_finish:
  "run_state (restore_snapshot E job pb g vmType vmID vmdir snaps log) s =
    (let (rs, s1) = restored E job pb g vmdir snaps log s in
     if rs_err rs then (True, s1\<lparr>trace := trace s1 @ [restore_failed]\<rparr>)
     else run_state (finish_guest E vmType vmID vmdir (snap_time (snaps ! newest snaps)) rs) s1)"
  by (simp add: restore_snapshot_run finish_guest_def restore_failed_def Let_def split: prod.split)

text \<open>
  Every archive of the newest snapshot is restored, in order and whatever became of the ones before;
  only if all were is the guest packed, and only then is there an entry.
\<close>

definition snapshot_names :: "json \<Rightarrow> string list" where
  "snapshot_names snap = archive_names (json_arr (json_get ''files'' snap))"

definition snapshot_images :: "json \<Rightarrow> string list" where
  "snapshot_images snap = filter (\<lambda>n. \<not> endsWith n ''.conf'') (snapshot_names snap)"

definition snapshot_spec :: "'w ext \<Rightarrow> string \<Rightarrow> json \<Rightarrow> string" where
  "snapshot_spec E g snap = g @ ''/'' @ x_utc E ''ISODate'' (snap_time snap)"

definition guest_packed ::
  "'w ext \<Rightarrow> string \<Rightarrow> string \<Rightarrow> string \<Rightarrow> json \<Rightarrow> event list \<Rightarrow> bool \<Rightarrow> bool" where
  "guest_packed E vmType vmID vmdir snap es ok \<longleftrightarrow>
     (if vmType = ''vm''
      then packed_vm E vmdir vmID (snap_time snap) (last_conf [] (snapshot_names snap)) (snapshot_images snap) es ok
      else snapshot_images snap \<noteq> [] \<and> packed_ct E vmdir vmID (snap_time snap) (hd (snapshot_images snap)) es ok)"

lemma restore_snapshot_restores:
  fixes s :: "('w, 'z) bst_scheme"
  assumes "run_state (restore_snapshot E job pb g vmType vmID vmdir snaps log) s = (True, s')"
  shows "\<exists>e0 er ep ec calls. trace s' = trace s @ [e0] @ er @ ep @ ec \<and> no_exec e0 \<and> pbs_msgs s' = pbs_msgs s
    \<and> execs er = map fst calls \<and> execs ec = []
    \<and> list_all2 (restore_call E job pb vmdir (snapshot_spec E g (snaps ! newest snaps)))
        (snapshot_names (snaps ! newest snaps)) calls
    \<and> (if list_all snd calls
       then \<exists>l ok. pbs_logs s' = pbs_logs s @ [l] \<and> entry_tells log l ok
         \<and> guest_packed E vmType vmID vmdir (snaps ! newest snaps) ep ok
       else pbs_logs s' = pbs_logs s \<and> ep = [] \<and> ec = [restore_failed])"
proof -
  let ?snap = "snaps ! newest snaps"
  let ?t = "snap_time ?snap" and ?files = "json_arr (json_get ''files'' ?snap)"
  let ?rs0 = "\<lparr>rs_log = log, rs_conf = [], rs_images = [], rs_err = False\<rparr>"
  let ?l = "Log (''Newest backup file for'' @ g @ '' from '' @ x_utc E ''ISODate'' ?t)"
  obtain rs s1 where r: "restored E job pb g vmdir snaps log s = (rs, s1)" by fastforce
  then have all: "run_state (restore_all E job pb vmdir (snapshot_spec E g ?snap) ?files ?rs0)
      (s\<lparr>trace := trace s @ [?l]\<rparr>) = (rs, s1)" by (simp add: restored_def snapshot_spec_def Let_def)
  have fr: "pbs_logs s1 = pbs_logs s" "pbs_msgs s1 = pbs_msgs s"
    using framed [OF frame_restore_all all] by simp_all
  from restore_all_run [OF all] obtain er calls where er: "trace s1 = trace s @ [?l] @ er" "execs er = map fst calls"
    "list_all2 (restore_call E job pb vmdir (snapshot_spec E g ?snap)) (snapshot_names ?snap) calls"
    "rs_err rs \<longleftrightarrow> \<not> list_all snd calls" "rs_conf rs = last_conf [] (snapshot_names ?snap)"
    "rs_images rs = snapshot_images ?snap" "list_all snd calls \<longrightarrow> rs_log rs = log"
    unfolding snapshot_names_def snapshot_images_def by auto
  show ?thesis
  proof (cases "list_all snd calls")
    case False
    with assms r er(4) have s': "s' = s1\<lparr>trace := trace s1 @ [restore_failed]\<rparr>" by (simp add: restore_snapshot_finish)
    then have tr: "trace s' = trace s @ [?l] @ er @ [] @ [restore_failed]" using er(1) by simp
    have "execs [restore_failed] = []" "no_exec ?l" "pbs_logs s' = pbs_logs s" "pbs_msgs s' = pbs_msgs s"
      using s' fr by (simp_all add: restore_failed_def)
    with tr er(2,3) False show ?thesis by metis
  next
    case True
    with assms r er(4) have "run_state (finish_guest E vmType vmID vmdir ?t rs) s1 = (True, s')"
      by (simp add: restore_snapshot_finish)
    from finish_guest_run [OF this] obtain ep ec l ok where f: "trace s' = trace s1 @ ep @ ec" "execs ec = []"
      "pbs_logs s' = pbs_logs s1 @ [l]" "pbs_msgs s' = pbs_msgs s1" "entry_tells (rs_log rs) l ok"
      "if vmType = ''vm'' then packed_vm E vmdir vmID ?t (rs_conf rs) (rs_images rs) ep ok
        else rs_images rs \<noteq> [] \<and> packed_ct E vmdir vmID ?t (hd (rs_images rs)) ep ok" by blast
    have tr: "trace s' = trace s @ [?l] @ er @ ep @ ec" using f(1) er(1) by simp
    have "guest_packed E vmType vmID vmdir ?snap ep ok" using f(6) er(5,6) by (auto simp: guest_packed_def split: if_splits)
    moreover have "pbs_logs s' = pbs_logs s @ [l]" "pbs_msgs s' = pbs_msgs s" "entry_tells log l ok" "no_exec ?l"
      using f(3-5) fr er(7) True by simp_all
    ultimately show ?thesis using tr f(2) er(2,3) True by metis
  qed
qed

text \<open>
  A guest was archived from a snapshot: every archive of the snapshot was restored, in order and
  with success, then the guest was packed from what was restored, and nothing else was run.
\<close>

definition guest_archived ::
  "'w ext \<Rightarrow> tiBackupJob \<Rightarrow> PBServer \<Rightarrow> string \<Rightarrow> string \<Rightarrow> string \<Rightarrow> string \<Rightarrow> json \<Rightarrow> event list \<Rightarrow> bool" where
  "guest_archived E job pb vmType vmID vmdir g snap es \<longleftrightarrow>
     (\<exists>er ep ec calls. es = er @ ep @ ec \<and> execs er = map fst calls \<and> execs ec = []
        \<and> list_all2 (restore_call E job pb vmdir (snapshot_spec E g snap)) (snapshot_names snap) calls
        \<and> list_all snd calls \<and> guest_packed E vmType vmID vmdir snap ep True)"

text \<open>
  A snapshot leaves one entry, which tells of an archive only if there is one, or, when a file
  could not be restored, no entry and a line in the log.
\<close>

lemma restore_snapshot_reports:
  fixes s :: "('w, 'z) bst_scheme"
  assumes "run_state (restore_snapshot E job pb g vmType vmID vmdir snaps log) s = (True, s')"
  shows "\<exists>es. trace s' = trace s @ es \<and> pbs_msgs s' = pbs_msgs s
    \<and> (if pbs_logs s' = pbs_logs s then restore_failed \<in> set es
       else \<exists>l ok pre mid. pbs_logs s' = pbs_logs s @ [l] \<and> entry_tells log l ok \<and> es = pre @ mid
         \<and> (ok \<longrightarrow> guest_archived E job pb vmType vmID vmdir g (snaps ! newest snaps) mid))"
proof -
  let ?snap = "snaps ! newest snaps"
  from restore_snapshot_restores [OF assms] obtain e0 er ep ec calls where
    r: "trace s' = trace s @ ([e0] @ er @ ep @ ec)" "pbs_msgs s' = pbs_msgs s" "execs er = map fst calls" "execs ec = []"
      "list_all2 (restore_call E job pb vmdir (snapshot_spec E g ?snap)) (snapshot_names ?snap) calls"
    and d: "if list_all snd calls
       then \<exists>l ok. pbs_logs s' = pbs_logs s @ [l] \<and> entry_tells log l ok
         \<and> guest_packed E vmType vmID vmdir ?snap ep ok
       else pbs_logs s' = pbs_logs s \<and> ep = [] \<and> ec = [restore_failed]" by blast
  show ?thesis
  proof (cases "list_all snd calls")
    case True
    with d obtain l ok where l: "pbs_logs s' = pbs_logs s @ [l]" "entry_tells log l ok"
      "guest_packed E vmType vmID vmdir ?snap ep ok" by auto
    have "guest_archived E job pb vmType vmID vmdir g ?snap (er @ ep @ ec)" if ok
    proof -
      have "guest_packed E vmType vmID vmdir ?snap ep True" using l(3) that by simp
      then show ?thesis unfolding guest_archived_def using r(3-5) True by blast
    qed
    then have "\<exists>l ok pre mid. pbs_logs s' = pbs_logs s @ [l] \<and> entry_tells log l ok \<and> [e0] @ er @ ep @ ec = pre @ mid
        \<and> (ok \<longrightarrow> guest_archived E job pb vmType vmID vmdir g ?snap mid)"
      by (rule_tac exI [of _ l], rule_tac exI [of _ ok], rule_tac exI [of _ "[e0]"],
          rule_tac exI [of _ "er @ ep @ ec"]) (simp add: l(1,2))
    moreover have "pbs_logs s' \<noteq> pbs_logs s" using l(1) by simp
    ultimately show ?thesis using r(1,2) by (rule_tac exI [of _ "[e0] @ er @ ep @ ec"]) (simp only: if_False)
  next
    case False
    with d r(1,2) show ?thesis by (intro exI [of _ "[e0] @ er @ ep @ ec"]) simp
  qed
qed

section \<open>One backup id\<close>

text \<open>An id that names a guest, and the guest's type, number and directory.\<close>

definition guest_id :: "string \<Rightarrow> bool" where
  "guest_id g \<longleftrightarrow> (let p = split_on CHR ''/'' g in 2 \<le> length p \<and> p ! 0 \<in> {''vm'', ''ct''} \<and> p ! 1 \<noteq> [])"

definition guest_type :: "string \<Rightarrow> string" where "guest_type g = split_on CHR ''/'' g ! 0"
definition guest_number :: "string \<Rightarrow> string" where "guest_number g = split_on CHR ''/'' g ! 1"

definition guest_dir :: "tiBackupJob \<Rightarrow> string \<Rightarrow> string \<Rightarrow> string" where
  "guest_dir job mountDir g = convertGeneric2Path (pbs_dest_folder job) mountDir @ ''/'' @ guest_number g"

text \<open>The newest snapshot of a list the server sent in answer to a request.\<close>

definition newest_of_reply :: "'w ext \<Rightarrow> event list \<Rightarrow> json \<Rightarrow> bool" where
  "newest_of_reply E es snap \<longleftrightarrow>
     (\<exists>req w. Send req \<in> set es
        \<and> (let snaps = json_arr (json_get ''data'' (y_json (fst (x_http E req w)))) in
           snaps \<noteq> [] \<and> snap = snaps ! newest snaps))"

definition backed_entry ::
  "'w ext \<Rightarrow> tiBackupJob \<Rightarrow> PBServer \<Rightarrow> string \<Rightarrow> event list \<Rightarrow> tiBackupJobPBSLog \<Rightarrow> bool" where
  "backed_entry E job pb mountDir es l \<longleftrightarrow>
     (\<exists>pre mid post snap. es = pre @ mid @ post \<and> newest_of_reply E pre snap
        \<and> guest_archived E job pb (guest_type (pbslog_vmid l)) (guest_number (pbslog_vmid l))
            (guest_dir job mountDir (pbslog_vmid l)) (pbslog_vmid l) snap mid)"

text \<open>An entry tells of an archive that is there, or of a problem.\<close>

definition entry_backed ::
  "'w ext \<Rightarrow> tiBackupJob \<Rightarrow> PBServer \<Rightarrow> string \<Rightarrow> event list \<Rightarrow> string list \<Rightarrow> tiBackupJobPBSLog \<Rightarrow> bool" where
  "entry_backed E job pb mountDir es ms l \<longleftrightarrow>
     (if pbslog_msg l = [] then pbslog_errmsg l \<noteq> [] \<or> ms \<noteq> []
      else pbslog_errmsg l = [] \<and> backed_entry E job pb mountDir es l)"

text \<open>What an id adds: entries, messages and events.\<close>

definition id_reported ::
  "'w ext \<Rightarrow> tiBackupJob \<Rightarrow> PBServer \<Rightarrow> string \<Rightarrow> string \<Rightarrow>
   event list \<times> tiBackupJobPBSLog list \<times> string list \<Rightarrow> bool" where
  "id_reported E job pb mountDir g = (\<lambda>(es, ls, ms).
     (ls = [] \<and> (\<not> guest_id g \<or> restore_failed \<in> set es))
     \<or> (\<exists>l. ls = [l] \<and> guest_id g \<and> pbslog_vmid l = g
          \<and> entry_backed E job pb mountDir es ms l))"

lemma pbs_calls_run:
  fixes s :: "('w, 'z) bst_scheme"
  shows "run_state (pbs_auth E h p u pw cl) s = (x, s') \<Longrightarrow>
      \<exists>es. trace s' = trace s @ es \<and> execs es = [] \<and> pbs_logs s' = pbs_logs s \<and> pbs_msgs s' = pbs_msgs s"
    and "run_state (pbs_request E req cl) s = ((cl', ret), s') \<Longrightarrow>
      \<exists>es. trace s' = trace s @ es \<and> execs es = [] \<and> pbs_logs s' = pbs_logs s \<and> pbs_msgs s' = pbs_msgs s
        \<and> (y_status ret = http_ok \<longrightarrow> Send req \<in> set es \<and> (\<exists>w. ret = fst (x_http E req w)))"
proof -
  assume run: "run_state (pbs_auth E h p u pw cl) s = (x, s')"
  have "emits no_exec (pbs_auth E h p u pw cl)" by (intro emits_pbs_calls) simp
  from emits_run [OF this run] obtain es where "trace s' = trace s @ es" "execs es = []" using execs_no_exec by blast
  with framed [OF frame_pbs_calls(1) run] show "\<exists>es. trace s' = trace s @ es \<and> execs es = []
    \<and> pbs_logs s' = pbs_logs s \<and> pbs_msgs s' = pbs_msgs s" by blast
next
  assume run: "run_state (pbs_request E req cl) s = ((cl', ret), s')"
  then consider "trace s' = trace s @ [Send req]" "ret = fst (x_http E req (os s))"
      "pbs_logs s' = pbs_logs s" "pbs_msgs s' = pbs_msgs s"
    | "s' = s" "ret = failed_reply"
    by (auto simp: pbs_request_def run_simps split: peer.splits prod.splits if_splits)
  then show "\<exists>es. trace s' = trace s @ es \<and> execs es = [] \<and> pbs_logs s' = pbs_logs s \<and> pbs_msgs s' = pbs_msgs s
      \<and> (y_status ret = http_ok \<longrightarrow> Send req \<in> set es \<and> (\<exists>w. ret = fst (x_http E req w)))"
  proof cases
    case 1
    then show ?thesis by (intro exI [of _ "[Send req]"]) auto
  next
    case 2
    then show ?thesis by (intro exI [of _ "[]"]) (simp add: failed_reply_def http_ok_def)
  qed
qed

lemma snapshots_run:
  fixes s :: "('w, 'z) bst_scheme"
  assumes "run_state (getDatastoreSnapshots E ds i ty cl) s = ((cl', ret), s')"
  shows "\<exists>es req. trace s' = trace s @ es \<and> pbs_logs s' = pbs_logs s \<and> pbs_msgs s' = pbs_msgs s
    \<and> (y_status ret = http_ok \<longrightarrow> Send req \<in> set es \<and> (\<exists>w. ret = fst (x_http E req w)))"
  using assms pbs_calls_run(2) unfolding getDatastoreSnapshots_def Let_def by blast

text \<open>The parts of an id that is accepted: asking the server, and what is done with its answer.\<close>

definition empty_entry :: "string \<Rightarrow> tiBackupJobPBSLog" where
  "empty_entry g = \<lparr>pbslog_vmid = g, pbslog_msg = [], pbslog_errmsg = []\<rparr>"

definition pbs_answer ::
  "'w ext \<Rightarrow> tiBackupJob \<Rightarrow> PBServer \<Rightarrow> string \<Rightarrow> string \<Rightarrow> pbsClient \<Rightarrow> reply \<Rightarrow> (('w, 'z) bst_scheme, pbsClient \<times> bool) state" where
  "pbs_answer E job pb mountDir g cl ret =
     (if y_status ret = http_ok
      then (let snapshots = json_arr (json_get ''data'' (y_json ret)) in
        if 0 < length snapshots
        then do {
          alive \<leftarrow> restore_snapshot E job pb g (guest_type g) (guest_number g) (guest_dir job mountDir g) snapshots (empty_entry g);
          State_Monad.return (cl, alive) }
        else do {
          pbs_no_result (empty_entry g) (''VM-ID '' @ g @ '' has no backups, skipping'');
          State_Monad.return (cl, True) })
      else do {
        pbs_no_result (empty_entry g) (''PBS datastore listing for '' @ g @ '' not successful'');
        State_Monad.return (cl, True) })"

definition pbs_guest ::
  "'w ext \<Rightarrow> tiBackupJob \<Rightarrow> PBServer \<Rightarrow> string \<Rightarrow> string \<Rightarrow> pbsClient \<Rightarrow> (('w, 'z) bst_scheme, pbsClient \<times> bool) state" where
  "pbs_guest E job pb mountDir g cl = do {
     make_path (guest_dir job mountDir g);
     say (''PBS Backup: Start backup for id '' @ g @ '' to path '' @ guest_dir job mountDir g);
     (cl1, _) \<leftarrow> pbs_auth E (pb_host pb) (pb_port pb) (pb_username pb) (pb_password pb) cl;
     (cl2, ret) \<leftarrow> getDatastoreSnapshots E (pbs_server_storage job) (guest_number g) (guest_type g) cl1;
     pbs_answer E job pb mountDir g cl2 ret }"

lemma pbs_one_guest:
  assumes "guest_id g"
  shows "pbs_one E job pb d g cl = pbs_guest E job pb d g cl"
proof -
  let ?p = "split_on CHR ''/'' g"
  have "(length ?p < 2 \<or> ?p ! 0 = [] \<or> ?p ! 1 = []) = False" "(?p ! 0 \<noteq> ''vm'' \<and> ?p ! 0 \<noteq> ''ct'') = False"
    using assms by (auto simp: guest_id_def Let_def)
  then show ?thesis
    unfolding pbs_one_def pbs_guest_def pbs_answer_def empty_entry_def guest_dir_def guest_number_def guest_type_def Let_def
    by (simp only: if_False)
qed

lemma pbs_one_no_guest:
  "\<not> guest_id g \<Longrightarrow> \<exists>m. pbs_one E job pb d g cl = do { say m; State_Monad.return (cl, True) }"
  by (auto simp: pbs_one_def guest_id_def Let_def)

lemma pbs_no_result_run:
  "run_state (pbs_no_result log m) s = ((), s\<lparr>trace := trace s @ [Log m], pbs_logs := pbs_logs s @ [log],
     pbs_msgs := pbs_msgs s @ [m]\<rparr>)"
  by (simp add: pbs_no_result_def pbs_msg_def pbs_log_def say_def run_simps)

text \<open>What the answer leads to, from a state whose last events are those of the request.\<close>

lemma pbs_answer_reports:
  fixes s :: "('w, 'z) bst_scheme"
  assumes "run_state (pbs_answer E job pb d g cl ret) s = ((cl', True), s')" and "guest_id g"
    and "y_status ret = http_ok \<longrightarrow> Send req \<in> set pre \<and> ret = fst (x_http E req w)"
  shows "\<exists>es ls ms. trace s' = trace s @ es \<and> pbs_logs s' = pbs_logs s @ ls \<and> pbs_msgs s' = pbs_msgs s @ ms
    \<and> id_reported E job pb d g (pre @ es, ls, ms)"
proof -
  let ?snaps = "json_arr (json_get ''data'' (y_json ret))"
  let ?restore = "restore_snapshot E job pb g (guest_type g) (guest_number g) (guest_dir job d g) ?snaps (empty_entry g)"
  show ?thesis
  proof (cases "y_status ret = http_ok \<and> ?snaps \<noteq> []")
    case False
    then obtain m where "(pbs_answer E job pb d g cl ret :: (('w, 'z) bst_scheme, pbsClient \<times> bool) state)
        = do { pbs_no_result (empty_entry g) m; State_Monad.return (cl, True) }"
      unfolding pbs_answer_def Let_def by (metis length_greater_0_conv)
    with assms(1) have "s' = s\<lparr>trace := trace s @ [Log m], pbs_logs := pbs_logs s @ [empty_entry g],
        pbs_msgs := pbs_msgs s @ [m]\<rparr>" by (simp add: pbs_no_result_run)
    then have "trace s' = trace s @ [Log m]" "pbs_logs s' = pbs_logs s @ [empty_entry g]"
      "pbs_msgs s' = pbs_msgs s @ [m]" by simp_all
    moreover have "id_reported E job pb d g (pre @ [Log m], [empty_entry g], [m])"
      using assms(2) by (simp add: id_reported_def entry_backed_def empty_entry_def)
    ultimately show ?thesis by blast
  next
    case True
    with assms(1) have "run_state ?restore s = (True, s')" by (auto simp: pbs_answer_def Let_def split: prod.splits)
    from restore_snapshot_reports [OF this] obtain es where es: "trace s' = trace s @ es" "pbs_msgs s' = pbs_msgs s"
      "if pbs_logs s' = pbs_logs s then restore_failed \<in> set es
       else \<exists>l ok p mid. pbs_logs s' = pbs_logs s @ [l] \<and> entry_tells (empty_entry g) l ok \<and> es = p @ mid
         \<and> (ok \<longrightarrow> guest_archived E job pb (guest_type g) (guest_number g) (guest_dir job d g) g
              (?snaps ! newest ?snaps) mid)" by blast
    have newest: "newest_of_reply E (pre @ x) (?snaps ! newest ?snaps)" for x
      using True assms(3) by (auto simp: newest_of_reply_def Let_def)
    have "\<exists>ls. pbs_logs s' = pbs_logs s @ ls \<and> id_reported E job pb d g (pre @ es, ls, [])"
    proof (cases "pbs_logs s' = pbs_logs s")
      case True
      with es(3) show ?thesis by (intro exI [of _ "[]"]) (simp add: id_reported_def)
    next
      case False
      with es(3) obtain l ok p mid where l: "pbs_logs s' = pbs_logs s @ [l]" "entry_tells (empty_entry g) l ok" "es = p @ mid"
        "ok \<longrightarrow> guest_archived E job pb (guest_type g) (guest_number g) (guest_dir job d g) g
            (?snaps ! newest ?snaps) mid" by auto
      then have id: "pbslog_vmid l = g" by (simp add: entry_tells_def empty_entry_def)
      have "pre @ es = (pre @ p) @ mid @ []" using l(3) by simp
      with l(4) newest [of p] id have "backed_entry E job pb d (pre @ es) l" if ok
        unfolding backed_entry_def using that by blast
      with l(1,2) id assms(2) show ?thesis
        by (intro exI [of _ "[l]"]) (auto simp: id_reported_def entry_backed_def entry_tells_def empty_entry_def split: if_splits)
    qed
    with es(1,2) show ?thesis by (metis append_Nil2)
  qed
qed

lemma pbs_one_reports:
  fixes s :: "('w, 'z) bst_scheme"
  assumes "run_state (pbs_one E job pb d g cl) s = ((cl', True), s')"
  shows "\<exists>es ls ms. trace s' = trace s @ es \<and> pbs_logs s' = pbs_logs s @ ls \<and> pbs_msgs s' = pbs_msgs s @ ms
    \<and> id_reported E job pb d g (es, ls, ms)"
proof (cases "guest_id g")
  case False
  obtain m where "(pbs_one E job pb d g cl :: (('w, 'z) bst_scheme, pbsClient \<times> bool) state)
      = do { say m; State_Monad.return (cl, True) }"
    using pbs_one_no_guest [OF False] by blast
  with assms have "s' = s\<lparr>trace := trace s @ [Log m]\<rparr>" by (simp add: say_def run_emit)
  with False show ?thesis
    by (intro exI [of _ "[Log m]"] exI [of _ "[]"]) (simp add: id_reported_def)
next
  case True
  let ?dir = "guest_dir job d g"
  let ?e0 = "[MakePath ?dir, Log (''PBS Backup: Start backup for id '' @ g @ '' to path '' @ ?dir)]"
  let ?s0 = "s\<lparr>os := mkpath ?dir (os s), trace := trace s @ ?e0\<rparr>"
  obtain cl1 st1 s1 where a: "run_state (pbs_auth E (pb_host pb) (pb_port pb) (pb_username pb) (pb_password pb) cl) ?s0
      = ((cl1, st1), s1)" by (metis surj_pair)
  obtain cl2 ret s2 where q: "run_state (getDatastoreSnapshots E (pbs_server_storage job) (guest_number g) (guest_type g) cl1) s1
      = ((cl2, ret), s2)" by (metis surj_pair)
  obtain e1 where e1: "trace s1 = trace ?s0 @ e1" "pbs_logs s1 = pbs_logs s" "pbs_msgs s1 = pbs_msgs s"
    using pbs_calls_run(1) [OF a] by auto
  obtain e2 req where e2: "trace s2 = trace s1 @ e2" "pbs_logs s2 = pbs_logs s1" "pbs_msgs s2 = pbs_msgs s1"
    "y_status ret = http_ok \<longrightarrow> Send req \<in> set e2 \<and> (\<exists>w. ret = fst (x_http E req w))"
    using snapshots_run [OF q] by blast
  from e2(4) obtain w where e2w: "y_status ret = http_ok \<longrightarrow> Send req \<in> set (?e0 @ e1 @ e2) \<and> ret = fst (x_http E req w)"
    by auto
  have "run_state (pbs_answer E job pb d g cl2 ret) s2 = ((cl', True), s')"
    using assms a q by (simp add: pbs_one_guest [OF True] pbs_guest_def make_path_def say_def run_emit run_change)
  from pbs_answer_reports [OF this True e2w] obtain es ls ms where "trace s' = trace s2 @ es"
    "pbs_logs s' = pbs_logs s2 @ ls" "pbs_msgs s' = pbs_msgs s2 @ ms"
    "id_reported E job pb d g ((?e0 @ e1 @ e2) @ es, ls, ms)" by blast
  moreover have "trace s2 = trace s @ (?e0 @ e1 @ e2)" using e1(1) e2(1) by simp
  ultimately show ?thesis using e1(2,3) e2(2,3) by (metis append_assoc)
qed

section \<open>The whole PBS part\<close>

text \<open>Each id adds its own events, entries and messages, one id after the other.\<close>

lemma pbs_all_reports:
  fixes s :: "('w, 'z) bst_scheme"
  assumes "run_state (pbs_all E job pb d gs cl) s = (True, s')"
  shows "\<exists>parts. list_all2 (id_reported E job pb d) gs parts
    \<and> trace s' = trace s @ concat (map fst parts)
    \<and> pbs_logs s' = pbs_logs s @ concat (map (\<lambda>p. fst (snd p)) parts)
    \<and> pbs_msgs s' = pbs_msgs s @ concat (map (\<lambda>p. snd (snd p)) parts)"
  using assms
proof (induction gs arbitrary: cl s)
  case Nil
  then show ?case by (intro exI [of _ "[]"]) simp
next
  case (Cons g gs)
  obtain cl1 alive s1 where one: "run_state (pbs_one E job pb d g cl) s = ((cl1, alive), s1)" by (metis surj_pair)
  with Cons.prems have alive: "alive" and rest: "run_state (pbs_all E job pb d gs cl1) s1 = (True, s')"
    by (auto split: if_splits)
  from one alive obtain es ls ms where p: "trace s1 = trace s @ es" "pbs_logs s1 = pbs_logs s @ ls"
    "pbs_msgs s1 = pbs_msgs s @ ms" "id_reported E job pb d g (es, ls, ms)"
    using pbs_one_reports by (metis (full_types))
  from Cons.IH [OF rest] obtain parts where "list_all2 (id_reported E job pb d) gs parts"
    "trace s' = trace s1 @ concat (map fst parts)" "pbs_logs s' = pbs_logs s1 @ concat (map (\<lambda>p. fst (snd p)) parts)"
    "pbs_msgs s' = pbs_msgs s1 @ concat (map (\<lambda>p. snd (snd p)) parts)" by blast
  with p show ?case by (intro exI [of _ "(es, ls, ms) # parts"]) simp
qed

text \<open>
  What the entries and messages of a list of ids amount to: the entries are those of the ids, in
  their order; each tells of an archive that is backed by the trace or of a problem; and an id
  that names a guest has an entry, or its failed restore is in the log.
\<close>

definition ids_accounted ::
  "'w ext \<Rightarrow> tiBackupJob \<Rightarrow> PBServer \<Rightarrow> string \<Rightarrow> string list \<Rightarrow> event list \<Rightarrow> tiBackupJobPBSLog list \<Rightarrow> string list \<Rightarrow> bool" where
  "ids_accounted E job pb d gs es ls ms \<longleftrightarrow>
     subseq (map pbslog_vmid ls) gs
     \<and> (\<forall>l \<in> set ls. entry_backed E job pb d es ms l)
     \<and> (\<forall>g \<in> set gs. guest_id g \<longrightarrow> g \<in> set (map pbslog_vmid ls) \<or> restore_failed \<in> set es \<or> (ls = [] \<and> ms \<noteq> []))"

lemma backed_entry_mono:
  assumes "backed_entry E job pb d es l"
  shows "backed_entry E job pb d (xs @ es @ ys) l"
proof -
  from assms obtain pre mid post snap where b: "es = pre @ mid @ post" "newest_of_reply E pre snap"
    "guest_archived E job pb (guest_type (pbslog_vmid l)) (guest_number (pbslog_vmid l))
       (guest_dir job d (pbslog_vmid l)) (pbslog_vmid l) snap mid" unfolding backed_entry_def by blast
  have "xs @ es @ ys = (xs @ pre) @ mid @ (post @ ys)" using b(1) by simp
  moreover have "newest_of_reply E (xs @ pre) snap" using b(2) by (auto simp: newest_of_reply_def)
  ultimately show ?thesis unfolding backed_entry_def using b(3) by blast
qed

lemma entry_backed_mono:
  "entry_backed E job pb d es ms l \<Longrightarrow> entry_backed E job pb d (xs @ es @ ys) (ns @ ms @ ns') l"
  using backed_entry_mono [of E job pb d es l xs ys] by (auto simp: entry_backed_def split: if_splits)

lemma reported_parts_accounted:
  assumes "list_all2 (id_reported E job pb d) gs parts"
    and "es = concat (map fst parts)" and "ls = concat (map (\<lambda>p. fst (snd p)) parts)"
    and "ms = concat (map (\<lambda>p. snd (snd p)) parts)"
  shows "subseq (map pbslog_vmid ls) gs \<and> (\<forall>l \<in> set ls. entry_backed E job pb d es ms l)
    \<and> (\<forall>g \<in> set gs. guest_id g \<longrightarrow> g \<in> set (map pbslog_vmid ls) \<or> restore_failed \<in> set es)"
  using assms
proof (induction arbitrary: es ls ms rule: list_all2_induct)
  case Nil
  then show ?case by simp
next
  case (Cons g gs p parts)
  obtain es1 ls1 ms1 where p: "p = (es1, ls1, ms1)" by (cases p)
  let ?es = "concat (map fst parts)" and ?ls = "concat (map (\<lambda>p. fst (snd p)) parts)"
    and ?ms = "concat (map (\<lambda>p. snd (snd p)) parts)"
  have sum: "es = es1 @ ?es" "ls = ls1 @ ?ls" "ms = ms1 @ ?ms" using Cons.prems by (simp_all add: p)
  note IH = Cons.IH [OF refl refl refl]
  have id: "(ls1 = [] \<and> (\<not> guest_id g \<or> restore_failed \<in> set es1))
      \<or> (\<exists>l. ls1 = [l] \<and> guest_id g \<and> pbslog_vmid l = g \<and> entry_backed E job pb d es1 ms1 l)"
    using Cons.hyps(1) by (auto simp: p id_reported_def)
  have "entry_backed E job pb d es ms l" if "l \<in> set ls" for l
  proof -
    have "entry_backed E job pb d es1 ms1 l \<or> entry_backed E job pb d ?es ?ms l" using that id IH sum(2) by auto
    then show ?thesis
      using entry_backed_mono [of E job pb d es1 ms1 l "[]" ?es "[]" ?ms]
        entry_backed_mono [of E job pb d ?es ?ms l es1 "[]" ms1 "[]"] unfolding sum by auto
  qed
  moreover have "subseq (map pbslog_vmid ls) (g # gs)" using id IH sum(2) by auto
  moreover have "g' \<in> set (map pbslog_vmid ls) \<or> restore_failed \<in> set es" if "g' \<in> set (g # gs)" "guest_id g'" for g'
    using that id IH unfolding sum by auto
  ultimately show ?case by blast
qed

text \<open>
  The PBS part as a whole: it has no effect on the entries unless the server is known and its
  certificate pinned, and then all ids are accounted for.
\<close>

lemma pbs_backup_reports:
  fixes s :: "('w, 'z) bst_scheme"
  assumes "run_state (pbs_backup E C job d) s = (True, s')" and "pbs job"
  shows "\<exists>pb es ls ms. trace s' = trace s @ es \<and> pbs_logs s' = pbs_logs s @ ls \<and> pbs_msgs s' = pbs_msgs s @ ms
    \<and> ids_accounted E job pb d (pbs_backup_ids job) es ls ms
    \<and> (ls \<noteq> [] \<longrightarrow> pb_fingerprint pb \<noteq> [] \<and>
        pb_getItemByUuid E (to_text (getValue C ''paths/pbservers'')) (pbs_server_uuid job) (os s) = Some pb)"
proof -
  have none: "?thesis" if "run_state (pbs_fail m) t = (True, s')" "trace t = trace s @ es0" "pbs_logs t = pbs_logs s"
    "pbs_msgs t = pbs_msgs s" for m es0 and t :: "('w, 'z) bst_scheme"
  proof -
    from that have "trace s' = trace s @ (es0 @ [Log m])" "pbs_logs s' = pbs_logs s @ []" "pbs_msgs s' = pbs_msgs s @ [m]"
      by (auto simp: pbs_fail_def pbs_msg_def say_def run_simps)
    moreover have "ids_accounted E job pb d (pbs_backup_ids job) (es0 @ [Log m]) [] [m]" for pb
      by (simp add: ids_accounted_def)
    ultimately show ?thesis by blast
  qed
  let ?found = "pb_getItemByUuid E (to_text (getValue C ''paths/pbservers'')) (pbs_server_uuid job) (os s)"
  show ?thesis
  proof (cases "x_symlink E ''/dev/stdout'' (os s) \<and> ?found \<noteq> None")
    case False
    with assms none [of _ s "[]"] show ?thesis by (auto simp: pbs_backup_def run_simps split: if_splits)
  next
    case True
    then obtain pb where pb: "?found = Some pb" by blast
    let ?cl0 = "setExpectedFingerprint (pb_fingerprint pb) new_pbsClient"
    let ?auth = "if pb_fingerprint pb = [] then State_Monad.return (?cl0, http_bad_request)
      else pbs_auth E (pb_host pb) (pb_port pb) (pb_username pb) (pb_password pb) ?cl0"
    obtain cl status s1 where a: "run_state ?auth s = ((cl, status), s1)" by (metis surj_pair)
    have "\<exists>e1. trace s1 = trace s @ e1 \<and> pbs_logs s1 = pbs_logs s \<and> pbs_msgs s1 = pbs_msgs s"
    proof (cases "pb_fingerprint pb = []")
      case True
      with a show ?thesis by (intro exI [of _ "[]"]) simp
    next
      case False
      with a have "run_state (pbs_auth E (pb_host pb) (pb_port pb) (pb_username pb) (pb_password pb) ?cl0) s
        = ((cl, status), s1)" by simp
      from pbs_calls_run(1) [OF this] show ?thesis by blast
    qed
    then obtain e1 where e1: "trace s1 = trace s @ e1" "pbs_logs s1 = pbs_logs s" "pbs_msgs s1 = pbs_msgs s" by blast
    have rest: "run_state (if status = http_ok then pbs_all E job pb d (pbs_backup_ids job) cl else pbs_refused job pb) s1
        = (True, s')"
      using assms True pb a by (cases "pb_fingerprint pb = []") (auto simp: pbs_backup_def run_simps)
    show ?thesis
    proof (cases "status = http_ok")
      case False
      with rest e1 none [of _ s1 e1] show ?thesis by (auto simp: pbs_refused_def)
    next
      case ok: True
      then have "pb_fingerprint pb \<noteq> []" using a by (auto simp: http_ok_def http_bad_request_def)
      moreover from rest ok have "run_state (pbs_all E job pb d (pbs_backup_ids job) cl) s1 = (True, s')" by simp
      from pbs_all_reports [OF this] obtain parts where parts: "list_all2 (id_reported E job pb d) (pbs_backup_ids job) parts"
        "trace s' = trace s1 @ concat (map fst parts)" "pbs_logs s' = pbs_logs s1 @ concat (map (\<lambda>p. fst (snd p)) parts)"
        "pbs_msgs s' = pbs_msgs s1 @ concat (map (\<lambda>p. snd (snd p)) parts)" by blast
      let ?es = "concat (map fst parts)" and ?ls = "concat (map (\<lambda>p. fst (snd p)) parts)"
        and ?ms = "concat (map (\<lambda>p. snd (snd p)) parts)"
      have "ids_accounted E job pb d (pbs_backup_ids job) (e1 @ ?es) ?ls ?ms"
        using reported_parts_accounted [OF parts(1) refl refl refl]
          entry_backed_mono [of E job pb d ?es ?ms _ e1 "[]" "[]" "[]"]
        unfolding ids_accounted_def by auto
      moreover have "trace s' = trace s @ (e1 @ ?es)" "pbs_logs s' = pbs_logs s @ ?ls" "pbs_msgs s' = pbs_msgs s @ ?ms"
        using parts(2-4) e1 by simp_all
      ultimately show ?thesis using pb by blast
    qed
  qed
qed

end
