(* ===== verification/GuestReport.thy ===== *)
theory GuestReport
  imports Daemon PbsReport
begin

text \<open>
  The report of a whole run about the guests of its backup server: composes the PBS part
  (PbsReport) with the rest of \<open>tiBackupJob::startBackup\<close> (BackupJob).
\<close>

section \<open>The PBS part inside a run\<close>

text \<open>
  The working part adds to the PBS lists what its PBS part does; scripts and copies leave them
  alone.
\<close>

lemma work_reports_guests:
  fixes s :: "('w, 'z) bst_scheme"
  assumes "run_state (work E V C job flags d) s = (True, s')" and "pbs job"
  shows "\<exists>pb es ls ms. trace s' = trace s @ es \<and> pbs_logs s' = pbs_logs s @ ls \<and> pbs_msgs s' = pbs_msgs s @ ms
    \<and> ids_accounted E job pb d (pbs_backup_ids job) es ls ms \<and> (ls \<noteq> [] \<longrightarrow> pb_fingerprint pb \<noteq> [])"
proof -
  let ?before = "do { script_before E V C job d; local_backup E C job flags d; ssh_backup E C job flags d }"
  obtain s1 where 1: "run_state ?before s = ((), s1)" by (cases "run_state ?before s") simp
  obtain alive s2 where 2: "run_state (pbs_backup E C job d) s1 = (alive, s2)" by fastforce
  have 3: "alive" "run_state (script_after E V C job d) s2 = ((), s')"
    using assms(1) 1 2 by (auto simp: work_def split: prod.splits if_splits)
  have along: "runs_along same_pbs ?before" "runs_along same_pbs (script_after E V C job d)"
    unfolding script_before_def script_after_def
    by (intro keeps_intros pbs_lists.along_local pbs_lists.along_ssh pbs_lists.along_script)+
  have same: "same_pbs s s1" "same_pbs s2 s'"
    using runs_alongD [OF along(1) 1] runs_alongD [OF along(2) 3(2)] by auto
  have ev: "emits work_event ?before" "emits work_event (script_after E V C job d)"
    unfolding script_before_def script_after_def by (intro emits_intros work_script work_local work_ssh)+
  obtain e1 e3 where e: "trace s1 = trace s @ e1" "trace s' = trace s2 @ e3"
    using emits_run [OF ev(1) 1] emits_run [OF ev(2) 3(2)] by blast
  from 2 3(1) have "run_state (pbs_backup E C job d) s1 = (True, s2)" by simp
  from pbs_backup_reports [OF this assms(2)] obtain pb es ls ms where p: "trace s2 = trace s1 @ es"
    "pbs_logs s2 = pbs_logs s1 @ ls" "pbs_msgs s2 = pbs_msgs s1 @ ms"
    "ids_accounted E job pb d (pbs_backup_ids job) es ls ms" "ls \<noteq> [] \<longrightarrow> pb_fingerprint pb \<noteq> []" by blast
  have "ids_accounted E job pb d (pbs_backup_ids job) (e1 @ es @ e3) ls ms"
    using p(4) entry_backed_mono [of E job pb d es ms _ e1 e3 "[]" "[]"] by (auto simp: ids_accounted_def)
  moreover have "trace s' = trace s @ (e1 @ es @ e3)" "pbs_logs s' = pbs_logs s @ ls" "pbs_msgs s' = pbs_msgs s @ ms"
    using p(1-3) e same by (simp_all add: same_pbs_def)
  ultimately show ?thesis using p(5) by blast
qed

section \<open>Snapshots\<close>

text \<open>
  C25. What is done with a snapshot: for each archive in it, in the order the server lists them, the
  client is run once, with the snapshot of that id and time and the archive's own target, also
  after one of them failed; only if every call exited with 0 and had its key file is the guest
  packed, by the packers of its type from what was restored. The entry for the report is made in
  that case only, and tells of success exactly if the packers exited with 0 and the archive is
  not empty.
\<close>

theorem snapshot_restored:
  assumes "run_state (restore_snapshot E job pb g vmType vmID vmdir snaps log) s = (True, s')"
  shows "\<exists>e0 er ep ec calls. trace s' = trace s @ [e0] @ er @ ep @ ec \<and> no_exec e0 \<and> pbs_msgs s' = pbs_msgs s
    \<and> execs er = map fst calls \<and> execs ec = []
    \<and> list_all2 (restore_call E job pb vmdir (snapshot_spec E g (snaps ! newest snaps)))
        (snapshot_names (snaps ! newest snaps)) calls
    \<and> (if list_all snd calls
       then \<exists>l ok. pbs_logs s' = pbs_logs s @ [l] \<and> entry_tells log l ok
         \<and> guest_packed E vmType vmID vmdir (snaps ! newest snaps) ep ok
       else pbs_logs s' = pbs_logs s \<and> ep = [] \<and> ec = [restore_failed])"
  by (rule restore_snapshot_restores [OF assms])

text \<open>A server with one snapshot of a machine with one disk, and packers that work.\<close>

definition archive_ext :: "unit ext" where
  "archive_ext = calm_ext\<lparr>x_filesize := \<lambda>_ _. 2000\<rparr>"

lemma snapshot_names_one: "snapshot_names (one_snapshot ! 0) = [''d.img'']"
proof -
  have "strip_ext ''d.img.fidx'' = ''d.img''" by (simp add: strip_ext_def)
  moreover have "archive_name ''d.img''" by (simp add: archive_name_def suffix_def)
  ultimately show ?thesis
    by (simp add: snapshot_names_def archive_names_def one_snapshot_def json_get_def json_arr_def json_str_def)
qed

theorem snapshot_restored_witness:
  "\<exists>s' l er ep ec key. run_state (restore_snapshot archive_ext (plain_job ''j'') pb_example ''vm/100'' ''vm'' ''100''
      ''/m/100'' one_snapshot (empty_entry ''vm/100'')) calm_bst = (True, s')
    \<and> pbs_logs s' = [l] \<and> pbslog_vmid l = ''vm/100'' \<and> pbslog_msg l \<noteq> [] \<and> pbslog_errmsg l = []
    \<and> execs (trace s') = [ArgvEnv ''proxmox-backup-client''
        ([''restore'', ''vm/100/'', ''d.img'', ''/m/100/d.img''] @ key) (restore_env (plain_job ''j'') pb_example)]"
proof -
  let ?E = archive_ext and ?job = "plain_job ''j''" and ?log = "empty_entry ''vm/100''" and ?snap = "one_snapshot ! 0"
  let ?m = "restore_snapshot ?E ?job pb_example ''vm/100'' ''vm'' ''100'' ''/m/100'' one_snapshot ?log"
  have "yields id (?m :: (unit bst, bool) state)" by (rule restore_vm_goes_on) simp
  then have "fst (run_state ?m calm_bst)" by (simp add: yields_def)
  then obtain s' where run: "run_state ?m calm_bst = (True, s')" by (cases "run_state ?m calm_bst") simp
  from snapshot_restored [OF run] obtain e0 er ep ec calls where
    r: "trace s' = trace calm_bst @ [e0] @ er @ ep @ ec" "no_exec e0" "execs er = map fst calls" "execs ec = []"
      "list_all2 (restore_call ?E ?job pb_example ''/m/100'' (snapshot_spec ?E ''vm/100'' ?snap)) [''d.img''] calls"
    and d: "if list_all snd calls
       then \<exists>l ok. pbs_logs s' = pbs_logs calm_bst @ [l] \<and> entry_tells ?log l ok
         \<and> guest_packed ?E ''vm'' ''100'' ''/m/100'' ?snap ep ok
       else pbs_logs s' = pbs_logs calm_bst \<and> ep = [] \<and> ec = [restore_failed]"
    unfolding newest_one snapshot_names_one by blast
  have key: "pb_keyfile pb_example = []" by (simp add: pb_example_def new_PBServer_def)
  have spec: "snapshot_spec ?E ''vm/100'' ?snap = ''vm/100/''"
    by (simp add: snapshot_spec_def archive_ext_def calm_ext_def)
  have code: "p_code (fst (x_exec ?E c w)) = 0" for c w by (simp add: archive_ext_def calm_ext_def)
  from r(5) obtain x where x: "calls = [x]" "restore_call ?E ?job pb_example ''/m/100'' ''vm/100/'' ''d.img'' x"
    unfolding spec by (auto simp: list_all2_Cons1)
  then have "snd x" and c: "\<exists>k. fst x = ArgvEnv ''proxmox-backup-client''
      ([''restore'', ''vm/100/'', ''d.img'', ''/m/100/d.img''] @ k) (restore_env ?job pb_example)"
    using code key by (auto simp: restore_call_def)
  with x(1) d obtain l ok where l: "pbs_logs s' = pbs_logs calm_bst @ [l]" "entry_tells ?log l ok"
    "guest_packed ?E ''vm'' ''100'' ''/m/100'' ?snap ep ok" by auto
  have ok: "ok" using l(3)
    by (simp add: guest_packed_def packed_vm_def Let_def archive_ext_def calm_ext_def pipe_ok_def)
  have "execs (trace s') = [fst x]"
    using r x(1) l(3) by (simp add: calm_bst_def no_exec_def guest_packed_def packed_vm_def Let_def)
  with run l(1,2) ok c show ?thesis
    by (auto simp: entry_tells_def empty_entry_def calm_bst_def)
qed

section \<open>The report\<close>


text \<open>A run of a job with a backup id, in a world in which mounting works.\<close>

lemma guest_run_completes:
  assumes "partition_uuid job = ''u1''" and "no_containers job"
  shows "\<exists>s'. run_state (startBackup (run_ext mount_works) V job) (s :: unit bst) = (Some True, s')"
proof -
  let ?E = "run_ext mount_works"
  have part: "partition_uuid job \<noteq> []" "getPartitionByUUID ?E (partition_uuid job) (os s) = Some run_part"
    "part_name run_part \<noteq> []"
    using assms(1) by (simp_all add: run_part_found run_part_def)
  have "yields (\<lambda>r. r \<noteq> None) (startBackup_part ?E V run_part job :: (unit bst, bool option) state)"
    by (rule startBackup_part_returns [OF assms(2)])
  then have some: "fst (run_state (startBackup ?E V job) s) \<noteq> None"
    by (simp add: startBackup_found [OF part] yields_def)
  obtain C flags target s1 where p: "run_state (prepare ?E V run_part job) s = ((C, flags, target), s1)"
    by (metis surj_pair)
  have "target \<noteq> None"
    using p unfolding prepare_def by (auto split: prod.splits dest!: mount_target_works)
  then obtain d where "target = Some d" by blast
  then have "run_state (startBackup ?E V job) s = run_state (backup_mounted ?E V C run_part job flags d) s1"
    by (simp add: startBackup_found [OF part] startBackup_part_prepare p)
  moreover have "fst (run_state (backup_mounted ?E V C run_part job flags d) s1) \<noteq> Some False"
    unfolding backup_mounted_work by (auto split: prod.splits)
  ultimately have "fst (run_state (startBackup ?E V job) s) = Some True"
    using some by (cases "fst (run_state (startBackup ?E V job) s)") auto
  then show ?thesis by (cases "run_state (startBackup ?E V job) s") simp
qed

definition guest_job :: tiBackupJob where
  "guest_job = run_job\<lparr>pbs := True, pbs_backup_ids := [''vm/100'']\<rparr>"


end
