(* ===== verification/Observer.thy ===== *)
theory Observer
  imports Devices
begin

text \<open>
  The event loop of \<open>tiBackupDiskObserver::start\<close> (tibackupdiskobserver.cpp). What the set-up of the
  udev monitor and each \<open>select\<close> meet is the input of the model. The loop never ends, so what is
  modelled is the output of any number of rounds: the signals emitted and the messages written with
  \<open>qDebug\<close> and \<open>qWarning\<close>, a message by the pieces streamed into it. \<open>s_bSD_present\<close> is its only state.
\<close>

section \<open>Messages\<close>

datatype disk_signal = DiskAdded DeviceDisk | DiskRemoved DeviceDisk

datatype observer_out = Message "string list" | Signal disk_signal

text \<open>
  An event of the monitor: the properties of the device, its action, path and subsystem as udev
  gives them (\<open>None\<close> is a null pointer), and the time at which the event is printed, seconds and
  microseconds of a \<open>timeval\<close>.
\<close>

record udev_event =
  ev_device :: udev_device
  ev_action :: "string option"
  ev_devpath :: "string option"
  ev_subsystem :: "string option"
  ev_sec :: "64 word"
  ev_usec :: "64 word"

text \<open>The conversions of \<open>asprintf\<close> that are used: \<open>%s\<close> (empty for a null pointer), \<open>%-ns\<close>, \<open>%llu\<close> and \<open>%06u\<close>.\<close>

definition fmt_s :: "string option \<Rightarrow> string" where
  "fmt_s p = (case p of None \<Rightarrow> [] | Some t \<Rightarrow> t)"

definition fmt_left :: "nat \<Rightarrow> string \<Rightarrow> string" where
  "fmt_left n t = t @ replicate (n - length t) CHR '' ''"

definition fmt_zero :: "nat \<Rightarrow> nat \<Rightarrow> string" where
  "fmt_zero n k = (let t = show_nat k in replicate (n - length t) CHR ''0'' @ t)"

definition print_device :: "udev_event \<Rightarrow> string \<Rightarrow> observer_out list" where
  "print_device ev source =
     Message [fmt_left 6 source @ ''['' @ show_nat (unat (ev_sec ev)) @ ''.''
       @ fmt_zero 6 (unat (ucast (ev_usec ev) :: u32)) @ ''] '' @ fmt_left 8 (fmt_s (ev_action ev)) @ '' ''
       @ fmt_s (ev_devpath ev) @ '' ('' @ fmt_s (ev_subsystem ev) @ '')'']
     # map (\<lambda>(k, v). Message [k @ ''='' @ v]) (ev_device ev)"

section \<open>The loop\<close>

text \<open>Testing the bus of a device prints it when the test succeeds.\<close>

definition observer_isDeviceUSB :: "udev_event \<Rightarrow> bool \<times> observer_out list" where
  "observer_isDeviceUSB ev =
     (if map_of (ev_device ev) ''ID_BUS'' = Some ''usb'' then (True, print_device ev ''UDEV'') else (False, []))"

definition observer_isDeviceATA :: "udev_event \<Rightarrow> bool \<times> observer_out list" where
  "observer_isDeviceATA ev =
     (if map_of (ev_device ev) ''ID_BUS'' = Some ''ata'' then (True, print_device ev ''UDEV'') else (False, []))"

text \<open>\<open>isDeviceUSB(device) || isDeviceATA(device)\<close>: the second test is made only if the first fails.\<close>

definition observer_watched :: "udev_event \<Rightarrow> bool \<times> observer_out list" where
  "observer_watched ev =
     (let (usb, out) = observer_isDeviceUSB ev in
      if usb then (True, out)
      else (let (ata, out') = observer_isDeviceATA ev in (ata, out @ out')))"

definition observer_device :: "udev_event \<Rightarrow> bool \<Rightarrow> observer_out list \<times> bool" where
  "observer_device ev sd_present =
     (let (watched, out) = observer_watched ev; d = ev_device ev in
      if watched
      then (let action = udev_value d ''ACTION'';
                disk = \<lparr>disk_name = udev_value d ''ID_SERIAL'', disk_uuid = [],
                  devname = udev_value d ''DEVNAME'', devtype = udev_value d ''DEVTYPE'',
                  vendor = udev_value d ''ID_VENDOR'', model = udev_value d ''ID_MODEL'', partitions = []\<rparr>
            in (out @ [Message [''status: '', action]]
                @ (if action = ''add'' then [Signal (DiskAdded disk)]
                   else if action = ''remove'' then [Signal (DiskRemoved disk)] else []), sd_present))
      else if sd_present then (out @ [Message [''SD has been removed'']], False)
      else (out, sd_present))"

text \<open>
  What one round meets: \<open>select\<close> fails, because of a signal or not, or the monitor is not the
  reason it returned, or there is no device to receive, or there is one.
\<close>

datatype udev_poll =
    SelectFailed bool
  | NotReadable
  | NoDevice
  | Received udev_event

definition observer_round :: "udev_poll \<Rightarrow> bool \<Rightarrow> observer_out list \<times> bool" where
  "observer_round p sd =
     (let polling = Message [''Polling devices...''] in
      case p of
        SelectFailed interrupted \<Rightarrow>
          (polling # (if interrupted then [] else [Message [''Error receiving uevent message'']]), sd)
      | NotReadable \<Rightarrow> ([polling], sd)
      | NoDevice \<Rightarrow> ([polling], sd)
      | Received ev \<Rightarrow> (let (out, sd') = observer_device ev sd in (polling # out, sd')))"

fun observer_loop :: "udev_poll list \<Rightarrow> bool \<Rightarrow> observer_out list \<times> bool" where
  "observer_loop [] sd = ([], sd)"
| "observer_loop (p # ps) sd =
     (let (out, sd1) = observer_round p sd; (outs, sd2) = observer_loop ps sd1 in (out @ outs, sd2))"

text \<open>The set-up goes on whatever fails; each failure leaves a message.\<close>

record udev_setup =
  su_udev :: bool
  su_monitor :: bool
  su_filter :: bool
  su_receiving :: bool

definition observer_setup :: "udev_setup \<Rightarrow> observer_out list" where
  "observer_setup u =
     (if su_udev u then [] else [Message [''udev_new FAILED'']])
     @ (if su_monitor u then [] else [Message [''udev_monitor_new_from_netlink FAILED'']])
     @ (if su_filter u then [] else [Message [''udev_monitor_filter_add_match_subsystem_devtype FAILED'']])
     @ (if su_receiving u then [] else [Message [''udev_monitor_enable_receiving FAILED'']])"

definition observer_start :: "udev_setup \<Rightarrow> udev_poll list \<Rightarrow> observer_out list" where
  "observer_start u ps = observer_setup u @ fst (observer_loop ps False)"

section \<open>What is announced\<close>

definition signals :: "observer_out list \<Rightarrow> disk_signal list" where
  "signals out = List.map_filter (\<lambda>x. case x of Signal g \<Rightarrow> Some g | Message _ \<Rightarrow> None) out"

lemma signals_simps [simp]:
  "signals [] = []" "signals (xs @ ys) = signals xs @ signals ys"
  "signals (Message m # xs) = signals xs" "signals (Signal g # xs) = g # signals xs"
  by (simp_all add: signals_def List.map_filter_def)

lemma signals_messages [simp]: "signals (map (\<lambda>(k, v). Message (f k v)) xs) = []"
  by (induction xs) auto

lemma signals_print [simp]: "signals (print_device ev src) = []"
  by (simp add: print_device_def)

lemma signals_setup [simp]: "signals (observer_setup u) = []"
  by (simp add: observer_setup_def)

text \<open>The signal a single event stands for.\<close>

definition announces :: "udev_poll \<Rightarrow> disk_signal option" where
  "announces p =
     (case p of
        Received ev \<Rightarrow>
          (let d = ev_device ev in
           if map_of d ''ID_BUS'' \<in> {Some ''usb'', Some ''ata''}
           then (if map_of d ''ACTION'' = Some ''add'' then Some (DiskAdded (udev_disk d))
                 else if map_of d ''ACTION'' = Some ''remove'' then Some (DiskRemoved (udev_disk d))
                 else None)
           else None)
      | _ \<Rightarrow> None)"

lemmas observer_defs = observer_device_def observer_watched_def observer_isDeviceUSB_def observer_isDeviceATA_def

lemma observer_round_announces:
  "signals (fst (observer_round p sd)) = (case announces p of Some g \<Rightarrow> [g] | None \<Rightarrow> [])"
  by (cases p)
    (auto simp: observer_round_def observer_defs announces_def udev_disk_def udev_value_def Let_def split: option.splits)

lemma observer_loop_announces: "signals (fst (observer_loop ps sd)) = List.map_filter announces ps"
proof (induction ps arbitrary: sd)
  case Nil
  show ?case by (simp add: List.map_filter_simps)
next
  case (Cons p ps)
  obtain out sd1 where p: "observer_round p sd = (out, sd1)" by fastforce
  with observer_round_announces [of p sd] Cons.IH [of sd1] show ?case
    by (cases "observer_loop ps sd1") (simp add: List.map_filter_simps split: option.split)
qed

text \<open>
  C16. The observer announces every plugged or unplugged USB or ATA disk once and in the order of
  the events, as the disk the enumeration would list, and announces nothing else; failed
  waits, other actions and other devices in between change nothing of that, nor does what failed
  in the set-up.
\<close>

theorem observer_signals:
  "signals (observer_start u ps) = List.map_filter announces ps"
  by (simp add: observer_start_def observer_loop_announces)

text \<open>
  An NVMe or SCSI disk is never announced, although the enumeration lists it.
\<close>

lemma nvme_never_announced:
  assumes "isDeviceNVME (ev_device ev) \<or> isDeviceSCSI (ev_device ev)"
  shows "signals (observer_start u [Received ev]) = []"
  using assms
  by (auto simp: observer_start_def observer_round_def observer_defs
      isDeviceNVME_def isDeviceSCSI_def bus_is_def Let_def)

text \<open>
  \<open>s_bSD_present\<close> is never set, so that the message about a removed card is never written.
\<close>

lemma no_card_round: "snd (observer_round p False) = False"
  by (cases p) (auto simp: observer_round_def observer_defs Let_def)

lemma no_card_loop:
  "observer_loop (p # ps) False
   = (fst (observer_round p False) @ fst (observer_loop ps False), snd (observer_loop ps False))"
  using no_card_round [of p] by (cases "observer_round p False"; cases "observer_loop ps False") simp

lemma card_message_dead:
  "snd (observer_loop ps False) = False \<and> Message [''SD has been removed''] \<notin> set (observer_start u ps)"
proof -
  have "''SD has been removed'' \<noteq> k @ ''='' @ v" for k v
  proof
    assume "''SD has been removed'' = k @ ''='' @ v"
    then have "CHR ''='' \<in> set ''SD has been removed''" by simp
    then show False by simp
  qed
  moreover have "''SD has been removed'' \<noteq> fmt_left 6 ''UDEV'' @ t" for t by (simp add: fmt_left_def)
  ultimately have print: "Message [''SD has been removed''] \<notin> set (print_device ev ''UDEV'')" for ev
    unfolding print_device_def by auto
  have round: "Message [''SD has been removed''] \<notin> set (fst (observer_round p False))" for p
    using print by (cases p) (auto simp: observer_round_def observer_defs Let_def)
  have "Message [''SD has been removed''] \<notin> set (fst (observer_loop ps False)) \<and> snd (observer_loop ps False) = False"
    using round by (induction ps) (simp_all add: no_card_loop del: observer_loop.simps(2))
  then show ?thesis by (simp add: observer_start_def observer_setup_def)
qed

end
