(* ===== verification/Service.thy ===== *)
theory Service
  imports ConfMain Mounts
begin

text \<open>
  The run functions of \<open>TiBackupLib\<close> (tibackuplib.cpp) and \<open>tiBackupService\<close> (tibackupservice.cpp),
  which controls the daemon through systemd or an init script. \<open>ini\<close> is the text of the
  resource \<open>:/init/tibackup\<close>, which the build compiles in.
\<close>

section \<open>Running a command\<close>

definition runCommandwithOutput :: "'w ext \<Rightarrow> string \<Rightarrow> (('w, 'z) st_scheme, string) state" where
  "runCommandwithOutput E cmd = do {
     r \<leftarrow> run_cmd E (CmdLine cmd);
     State_Monad.return (let l = takeWhile (\<lambda>c. c \<noteq> CHR 0x0A) (p_out r) in
       if length l < length (p_out r) then l @ [CHR 0x0A] else l) }"

definition runCommandwithReturnCode_line :: "'w ext \<Rightarrow> string \<Rightarrow> (('w, 'z) st_scheme, int \<times> string) state" where
  "runCommandwithReturnCode_line E cmd = do {
     r \<leftarrow> run_cmd E (CmdLine cmd);
     State_Monad.return (p_code r, p_out r) }"

definition runCommandwithReturnCode_argv ::
  "'w ext \<Rightarrow> string \<Rightarrow> string list \<Rightarrow> (('w, 'z) st_scheme, int \<times> string) state" where
  "runCommandwithReturnCode_argv E program args = do {
     r \<leftarrow> run_cmd E (Argv program args);
     State_Monad.return (p_code r, p_out r) }"

definition runCommandwithReturnCode_stdin ::
  "'w ext \<Rightarrow> string \<Rightarrow> string list \<Rightarrow> string \<Rightarrow> (('w, 'z) st_scheme, int) state" where
  "runCommandwithReturnCode_stdin E program args stdinData = do {
     r \<leftarrow> run_cmd E (ArgvIn program args stdinData);
     State_Monad.return (p_code r) }"

definition runCommandwithReturnCodePipe :: "'w ext \<Rightarrow> string \<Rightarrow> (('w, 'z) st_scheme, int) state" where
  "runCommandwithReturnCodePipe E cmd = do {
     r \<leftarrow> run_cmd E (Bash cmd);
     State_Monad.return (p_code r) }"

text \<open>The first line that \<open>readLine\<close> hands out is the output up to its first line feed.\<close>

lemma runCommandwithOutput_line:
  "CHR 0x0A \<notin> set l \<Longrightarrow> p_out (fst (x_exec E (CmdLine cmd) (os s))) = l @ CHR 0x0A # tl' \<Longrightarrow>
   fst (run_state (runCommandwithOutput E cmd) s) = l @ [CHR 0x0A]"
  by (simp add: runCommandwithOutput_def run_cmd_def run_simps takeWhile_append)

section \<open>The service\<close>

datatype tiBackupInitSystem = Systemd | Other

datatype tiBackupServiceStatus =
    StatusStarted | StatusStopped | StatusUnknown | StatusFailed | StatusNotFound

text \<open>The signals an operation emits are returned next to its result.\<close>

datatype service_signal = ServiceStarted | ServiceStopped | ServiceInstalled

definition getSystemInitModel :: "'w sys \<Rightarrow> tiBackupInitSystem" where
  "getSystemInitModel s = (if ''/run/systemd/system'' \<in> dirs s then Systemd else Other)"

definition service_command :: "tiBackupInitSystem \<Rightarrow> string \<Rightarrow> string \<Rightarrow> string" where
  "service_command m verb initd =
     (case m of Systemd \<Rightarrow> ''systemctl '' @ verb @ '' '' @ systemd_name | Other \<Rightarrow> initd @ '' '' @ verb)"

text \<open>Whether the function gives up: an init script that does not exist.\<close>

definition no_service :: "tiBackupInitSystem \<Rightarrow> string \<Rightarrow> 'w sys \<Rightarrow> bool" where
  "no_service m initd s \<longleftrightarrow> m = Other \<and> \<not> path_exists s initd"

definition service_start ::
  "'w ext \<Rightarrow> tiConfMain \<Rightarrow> (('w, 'z) st_scheme, tiBackupServiceStatus \<times> service_signal list) state" where
  "service_start E C = do {
     let initd = to_text (getValue C ''paths/initd'');
     m \<leftarrow> asks getSystemInitModel;
     gone \<leftarrow> asks (no_service m initd);
     if gone then State_Monad.return (StatusNotFound, [])
     else do {
       _ \<leftarrow> runCommandwithReturnCode_line E (service_command m ''start'' initd);
       State_Monad.return (StatusStarted, [ServiceStarted]) } }"

definition service_stop ::
  "'w ext \<Rightarrow> tiConfMain \<Rightarrow> (('w, 'z) st_scheme, tiBackupServiceStatus \<times> service_signal list) state" where
  "service_stop E C = do {
     let initd = to_text (getValue C ''paths/initd'');
     m \<leftarrow> asks getSystemInitModel;
     gone \<leftarrow> asks (no_service m initd);
     if gone then State_Monad.return (StatusNotFound, [])
     else do {
       _ \<leftarrow> runCommandwithReturnCode_line E (service_command m ''stop'' initd);
       State_Monad.return (StatusStopped, [ServiceStopped]) } }"

definition service_status ::
  "'w ext \<Rightarrow> tiConfMain \<Rightarrow> (('w, 'z) st_scheme, tiBackupServiceStatus \<times> service_signal list) state" where
  "service_status E C = do {
     let initd = to_text (getValue C ''paths/initd'');
     m \<leftarrow> asks getSystemInitModel;
     gone \<leftarrow> asks (no_service m initd);
     if gone then State_Monad.return (StatusNotFound, [])
     else do {
       (code, _) \<leftarrow> runCommandwithReturnCode_line E (service_command m ''status'' initd);
       State_Monad.return (if code = 0 then StatusStarted else StatusStopped, []) } }"

text \<open>\<open>install\<close>: the script is written over \<open>path\<close>, which is truncated even if the template is missing.\<close>

definition service_install :: "string option \<Rightarrow> string \<Rightarrow> (('w, 'z) st_scheme, bool \<times> service_signal list) state" where
  "service_install ini path = do {
     denied \<leftarrow> asks (\<lambda>s. refused s path);
     if denied then State_Monad.return (False, [])
     else do {
       write_text path [];
       case ini of
         None \<Rightarrow> State_Monad.return (False, [])
       | Some t \<Rightarrow> do {
           write_text path t;
           change (\<lambda>s. ((), set_mode path {ReadOwner, ExeOwner, ReadGroup, ExeGroup, ReadOther} s));
           State_Monad.return (True, [ServiceInstalled]) } } }"

section \<open>What the service functions do\<close>

lemmas service_ops = runCommandwithReturnCode_line_def run_cmd_def run_simps

text \<open>
  Asking for the status never starts or stops the daemon: \<open>status\<close> runs the status command of
  the init system in use and nothing else, or nothing at all when the init script is missing, and
  reports \<open>started\<close> exactly if that command reports success.
\<close>

theorem status_only_asks:
  "\<exists>cs. execs (trace (snd (run_state (service_status E C) s))) = execs (trace s) @ cs
    \<and> (if getSystemInitModel (os s) = Systemd
       then cs = [CmdLine (''systemctl status '' @ systemd_name)]
       else if path_exists (os s) (to_text (getValue C ''paths/initd''))
       then cs = [CmdLine (to_text (getValue C ''paths/initd'') @ '' status'')]
       else cs = [] \<and> fst (run_state (service_status E C) s) = (StatusNotFound, []))
    \<and> (fst (run_state (service_status E C) s) = (StatusStarted, []) \<longleftrightarrow> cs \<noteq> [] \<and> p_code (fst (x_exec E (hd cs) (os s))) = 0)"
  by (cases "getSystemInitModel (os s)")
    (auto simp: service_status_def service_command_def no_service_def service_ops)

text \<open>
  \<open>start\<close> and \<open>stop\<close> report success whatever the command returned.
\<close>

lemma start_reports_started:
  assumes "getSystemInitModel (os s) = Systemd"
  shows "fst (run_state (service_start E C) s) = (StatusStarted, [ServiceStarted])
    \<and> execs (trace (snd (run_state (service_start E C) s)))
      = execs (trace s) @ [CmdLine (''systemctl start '' @ systemd_name)]"
  using assms by (simp add: service_start_def service_command_def no_service_def service_ops)

end
