(* ===== verification/DataStream.thy ===== *)
theory DataStream
  imports ConfFormat
begin

text \<open>
  The \<open>QDataStream\<close> operators of the data types: obj/tibackupjob.cpp, obj/pbserver.cpp,
  obj/sshserver.cpp and obj/devicedisk.cpp. The primitive encodings belong to Qt and are a
  parameter; what the operators need of them, that a primitive reads back and leaves the rest of the
  stream, is the locale \<open>data_stream\<close>, in which the round trips are proved once. It is
  interpreted on the format Qt documents: big-endian integers, a length and UTF-16 for a string.
\<close>

section \<open>Primitives\<close>

record 'b stream_codec =
  put_str :: "string \<Rightarrow> 'b list"
  get_str :: "'b list \<Rightarrow> string \<times> 'b list"
  put_bool :: "bool \<Rightarrow> 'b list"
  get_bool :: "'b list \<Rightarrow> bool \<times> 'b list"
  put_u32 :: "u32 \<Rightarrow> 'b list"
  get_u32 :: "'b list \<Rightarrow> u32 \<times> 'b list"
  put_strs :: "string list \<Rightarrow> 'b list"
  get_strs :: "'b list \<Rightarrow> string list \<times> 'b list"

text \<open>A \<open>qint32\<close> is streamed as the word it is.\<close>

definition rd :: "('b list \<Rightarrow> 'a \<times> 'b list) \<Rightarrow> ('b list, 'a) state" where
  "rd f = State_Monad.State f"

fun rd_times :: "nat \<Rightarrow> ('b list, 'a) state \<Rightarrow> ('b list, 'a list) state" where
  "rd_times 0 m = State_Monad.return []"
| "rd_times (Suc n) m = do { x \<leftarrow> m; xs \<leftarrow> rd_times n m; State_Monad.return (x # xs) }"

section \<open>The operators\<close>

definition part_put :: "'b stream_codec \<Rightarrow> DeviceDiskPartition \<Rightarrow> 'b list" where
  "part_put D p = put_str D (part_name p) @ put_str D (part_uuid p) @ put_str D (part_label p)
     @ put_str D (part_type p)"

definition part_get :: "'b stream_codec \<Rightarrow> ('b list, DeviceDiskPartition) state" where
  "part_get D = do {
     n \<leftarrow> rd (get_str D); u \<leftarrow> rd (get_str D); l \<leftarrow> rd (get_str D); t \<leftarrow> rd (get_str D);
     State_Monad.return \<lparr>part_name = n, part_uuid = u, part_label = l, part_type = t\<rparr> }"

definition pb_put :: "'b stream_codec \<Rightarrow> PBServer \<Rightarrow> 'b list" where
  "pb_put D o1 = put_str D (pb_uuid o1) @ put_str D (pb_name o1) @ put_str D (pb_host o1) @ put_u32 D (pb_port o1)
     @ put_str D (pb_username o1) @ put_str D (pb_password o1) @ put_str D (pb_fingerprint o1)
     @ put_str D (pb_keyfile o1) @ put_str D (pb_keypass o1)"

definition pb_get :: "'b stream_codec \<Rightarrow> ('b list, PBServer) state" where
  "pb_get D = do {
     u \<leftarrow> rd (get_str D); n \<leftarrow> rd (get_str D); h \<leftarrow> rd (get_str D); p \<leftarrow> rd (get_u32 D);
     us \<leftarrow> rd (get_str D); pw \<leftarrow> rd (get_str D); fp \<leftarrow> rd (get_str D);
     kf \<leftarrow> rd (get_str D); kp \<leftarrow> rd (get_str D);
     State_Monad.return \<lparr>pb_uuid = u, pb_name = n, pb_host = h, pb_port = p, pb_username = us,
       pb_password = pw, pb_fingerprint = fp, pb_keyfile = kf, pb_keypass = kp\<rparr> }"

definition srv_put :: "'b stream_codec \<Rightarrow> SSHServer \<Rightarrow> 'b list" where
  "srv_put D o1 = put_str D (srv_uuid o1) @ put_str D (srv_name o1) @ put_str D (srv_host o1)
     @ put_u32 D (srv_port o1) @ put_str D (srv_username o1) @ put_str D (srv_keyfile o1)
     @ put_str D (srv_keypass o1) @ put_str D (srv_hostkey o1)"

definition srv_get :: "'b stream_codec \<Rightarrow> ('b list, SSHServer) state" where
  "srv_get D = do {
     u \<leftarrow> rd (get_str D); n \<leftarrow> rd (get_str D); h \<leftarrow> rd (get_str D); p \<leftarrow> rd (get_u32 D);
     us \<leftarrow> rd (get_str D); kf \<leftarrow> rd (get_str D); kp \<leftarrow> rd (get_str D); hk \<leftarrow> rd (get_str D);
     State_Monad.return \<lparr>srv_uuid = u, srv_name = n, srv_host = h, srv_port = p, srv_username = us,
       srv_keyfile = kf, srv_keypass = kp, srv_hostkey = hk\<rparr> }"

text \<open>A hash is streamed as its size and its pairs, in the order it is iterated.\<close>

definition dirs_put :: "'b stream_codec \<Rightarrow> 'w ext \<Rightarrow> qmultihash \<Rightarrow> 'b list" where
  "dirs_put D E m = put_u32 D (of_nat (size m))
     @ concat (map (\<lambda>e. put_str D (fst e) @ put_str D (snd e)) (x_order E m))"

definition pair_get :: "'b stream_codec \<Rightarrow> ('b list, string \<times> string) state" where
  "pair_get D = do { k \<leftarrow> rd (get_str D); v \<leftarrow> rd (get_str D); State_Monad.return (k, v) }"

definition dirs_get :: "'b stream_codec \<Rightarrow> ('b list, qmultihash) state" where
  "dirs_get D = do {
     n \<leftarrow> rd (get_u32 D);
     es \<leftarrow> rd_times (nat (sint n)) (pair_get D);
     State_Monad.return (mset es) }"

definition target_put :: "'b stream_codec \<Rightarrow> 'w ext \<Rightarrow> tiBackupJobSSHTarget \<Rightarrow> 'b list" where
  "target_put D E t = put_str D (t_server_uuid t) @ dirs_put D E (t_backupdirs t)"

definition target_get :: "'b stream_codec \<Rightarrow> ('b list, tiBackupJobSSHTarget) state" where
  "target_get D = do {
     u \<leftarrow> rd (get_str D); m \<leftarrow> dirs_get D;
     State_Monad.return \<lparr>t_server_uuid = u, t_backupdirs = m\<rparr> }"

text \<open>\<open>job_put_old\<close> is the format before \<open>umount_after_backup\<close> was appended to it.\<close>

definition job_put_old :: "'b stream_codec \<Rightarrow> 'w ext \<Rightarrow> tiBackupJob \<Rightarrow> 'b list" where
  "job_put_old D E j =
     put_str D (job_name j) @ put_str D (job_device j) @ put_str D (partition_uuid j)
     @ dirs_put D E (backupdirs j)
     @ put_bool D (delete_add_file_on_dest j) @ put_bool D (start_backup_on_hotplug j)
     @ put_bool D (save_log j) @ put_bool D (compare_via_checksum j)
     @ put_bool D (notify j) @ put_str D (notifyRecipients j)
     @ put_str D (scriptBeforeBackup j) @ put_str D (scriptAfterBackup j)
     @ put_u32 D (interval_to_int (intervalType j)) @ put_str D (intervalTime j) @ put_u32 D (intervalDay j)
     @ put_u32 D (luks_to_int (encLUKSType j)) @ put_str D (encLUKSFilePath j)
     @ put_bool D (pbs j) @ put_str D (pbs_server_uuid j) @ put_str D (pbs_server_storage j)
     @ put_strs D (pbs_backup_ids j) @ put_str D (pbs_dest_folder j)
     @ put_bool D (ssh j) @ put_u32 D (of_nat (length (ssh_targets j)))
     @ concat (map (target_put D E) (ssh_targets j))"

definition job_put :: "'b stream_codec \<Rightarrow> 'w ext \<Rightarrow> tiBackupJob \<Rightarrow> 'b list" where
  "job_put D E j = job_put_old D E j @ put_bool D (umount_after_backup j)"

definition job_get :: "'b stream_codec \<Rightarrow> tiBackupJob \<Rightarrow> ('b list, tiBackupJob) state" where
  "job_get D obj = do {
     n \<leftarrow> rd (get_str D); dev \<leftarrow> rd (get_str D); pu \<leftarrow> rd (get_str D);
     dirs \<leftarrow> dirs_get D;
     del \<leftarrow> rd (get_bool D); hot \<leftarrow> rd (get_bool D); sl \<leftarrow> rd (get_bool D); ck \<leftarrow> rd (get_bool D);
     no \<leftarrow> rd (get_bool D); nr \<leftarrow> rd (get_str D);
     sb \<leftarrow> rd (get_str D); sa \<leftarrow> rd (get_str D);
     it \<leftarrow> rd (get_u32 D); ti \<leftarrow> rd (get_str D); day \<leftarrow> rd (get_u32 D);
     lt \<leftarrow> rd (get_u32 D); lp \<leftarrow> rd (get_str D);
     pb \<leftarrow> rd (get_bool D); psu \<leftarrow> rd (get_str D); pss \<leftarrow> rd (get_str D);
     ids \<leftarrow> rd (get_strs D); pf \<leftarrow> rd (get_str D);
     sh \<leftarrow> rd (get_bool D);
     k \<leftarrow> rd (get_u32 D);
     ts \<leftarrow> rd_times (nat (sint k)) (target_get D);
     rest \<leftarrow> State_Monad.get;
     um \<leftarrow> (if rest \<noteq> [] then rd (get_bool D) else State_Monad.return (umount_after_backup obj));
     State_Monad.return
       \<lparr>job_name = n, job_device = dev, partition_uuid = pu, backupdirs = dirs,
        delete_add_file_on_dest = del, start_backup_on_hotplug = hot, save_log = sl,
        compare_via_checksum = ck, umount_after_backup = um, notify = no, notifyRecipients = nr,
        scriptBeforeBackup = sb, scriptAfterBackup = sa, intervalType = interval_of_int it,
        intervalTime = ti, intervalDay = day, encLUKSType = luks_of_int lt, encLUKSFilePath = lp,
        pbs = pb, pbs_server_uuid = psu, pbs_server_storage = pss, pbs_backup_ids = ids,
        pbs_dest_folder = pf, ssh = sh, ssh_targets = ts\<rparr> }"

section \<open>Round trips over any encoding of the primitives\<close>

text \<open>The strings of an object, which the encoding has to be able to take.\<close>

definition dirs_strings :: "qmultihash \<Rightarrow> string set" where
  "dirs_strings m = fst ` set_mset m \<union> snd ` set_mset m"

definition job_strings :: "tiBackupJob \<Rightarrow> string set" where
  "job_strings j = {job_name j, job_device j, partition_uuid j, notifyRecipients j, scriptBeforeBackup j,
     scriptAfterBackup j, intervalTime j, encLUKSFilePath j, pbs_server_uuid j, pbs_server_storage j,
     pbs_dest_folder j} \<union> set (pbs_backup_ids j) \<union> dirs_strings (backupdirs j)
     \<union> (\<Union>t \<in> set (ssh_targets j). insert (t_server_uuid t) (dirs_strings (t_backupdirs t)))"

definition sizes_ok :: "tiBackupJob \<Rightarrow> bool" where
  "sizes_ok j \<longleftrightarrow> size (backupdirs j) < 2 ^ 31 \<and> length (ssh_targets j) < 2 ^ 31
     \<and> length (pbs_backup_ids j) < 2 ^ 31
     \<and> (\<forall>t \<in> set (ssh_targets j). size (t_backupdirs t) < 2 ^ 31)"

lemma run_rd [run_simps]: "run_state (rd f) s = f s"
  by (simp add: rd_def)

lemma rd_times_map:
  assumes "\<And>x r. x \<in> set xs \<Longrightarrow> run_state m (put x @ r) = (x, r)"
  shows "run_state (rd_times (length xs) m) (concat (map put xs) @ r) = (xs, r)"
  using assms by (induction xs) auto

lemma sint_of_nat_i32: "n < 2 ^ 31 \<Longrightarrow> nat (sint (of_nat n :: 32 word)) = n"
  by (simp add: signed_of_nat signed_take_bit_int_eq_self)

locale data_stream =
  fixes D :: "'b stream_codec" and str_ok :: "string \<Rightarrow> bool"
  assumes str: "str_ok x \<Longrightarrow> get_str D (put_str D x @ r) = (x, r)"
    and boolean: "get_bool D (put_bool D b @ r) = (b, r)"
    and u32: "get_u32 D (put_u32 D n @ r) = (n, r)"
    and strs: "(\<forall>x \<in> set xs. str_ok x) \<Longrightarrow> length xs < 2 ^ 31 \<Longrightarrow> get_strs D (put_strs D xs @ r) = (xs, r)"
    and bool_put: "put_bool D b \<noteq> []"
begin

lemmas primitives = str boolean u32 strs

lemma part_restream:
  assumes "\<forall>x \<in> {part_name p, part_uuid p, part_label p, part_type p}. str_ok x"
  shows "run_state (part_get D) (part_put D p @ r) = (p, r)"
  using assms by (simp add: part_get_def part_put_def run_simps primitives)

lemma pb_restream:
  assumes "\<forall>x \<in> {pb_uuid p, pb_name p, pb_host p, pb_username p, pb_password p, pb_fingerprint p,
    pb_keyfile p, pb_keypass p}. str_ok x"
  shows "run_state (pb_get D) (pb_put D p @ r) = (p, r)"
  using assms by (simp add: pb_get_def pb_put_def run_simps primitives)

lemma srv_restream:
  assumes "\<forall>x \<in> {srv_uuid p, srv_name p, srv_host p, srv_username p, srv_keyfile p, srv_keypass p,
    srv_hostkey p}. str_ok x"
  shows "run_state (srv_get D) (srv_put D p @ r) = (p, r)"
  using assms by (simp add: srv_get_def srv_put_def run_simps primitives)

lemma dirs_restream:
  assumes "order_ok E" and "size m < 2 ^ 31" and "\<forall>x \<in> dirs_strings m. str_ok x"
  shows "run_state (dirs_get D) (dirs_put D E m @ r) = (m, r)"
proof -
  have set: "set (x_order E m) = set_mset m" using assms(1) by (metis mset_order set_mset_mset)
  have "run_state (rd_times (length (x_order E m)) (pair_get D))
      (concat (map (\<lambda>e. put_str D (fst e) @ put_str D (snd e)) (x_order E m)) @ r) = (x_order E m, r)"
    using assms(3) set
    by (intro rd_times_map) (auto simp: pair_get_def run_simps str dirs_strings_def)
  with assms(1,2) show ?thesis
    by (simp add: dirs_get_def dirs_put_def run_simps u32 sint_of_nat_i32)
qed

lemma target_restream:
  assumes "order_ok E" and "size (t_backupdirs t) < 2 ^ 31"
    and "\<forall>x \<in> insert (t_server_uuid t) (dirs_strings (t_backupdirs t)). str_ok x"
  shows "run_state (target_get D) (target_put D E t @ r) = (t, r)"
  using assms by (simp add: target_get_def target_put_def run_simps str dirs_restream)

text \<open>Everything before the appended field, in front of a continuation that reads the rest.\<close>

lemma job_prefix:
  assumes "order_ok E" and "wf_interval (intervalType j)" and "wf_luks (encLUKSType j)" and "sizes_ok j"
    and "\<forall>x \<in> job_strings j. str_ok x"
  shows "run_state (job_get D obj) (job_put_old D E j @ r)
    = (if r = [] then (j\<lparr>umount_after_backup := umount_after_backup obj\<rparr>, [])
       else (j\<lparr>umount_after_backup := fst (get_bool D r)\<rparr>, snd (get_bool D r)))"
proof -
  have targets: "run_state (rd_times (length (ssh_targets j)) (target_get D))
      (concat (map (target_put D E) (ssh_targets j)) @ r) = (ssh_targets j, r)" for r
    using assms(1,4,5) by (intro rd_times_map target_restream) (auto simp: sizes_ok_def job_strings_def)
  have dirs: "run_state (dirs_get D) (dirs_put D E (backupdirs j) @ r) = (backupdirs j, r)" for r
    using assms(1,4,5) by (intro dirs_restream) (auto simp: sizes_ok_def job_strings_def)
  have ids: "get_strs D (put_strs D (pbs_backup_ids j) @ r) = (pbs_backup_ids j, r)" for r
    using assms(4,5) by (intro strs) (auto simp: sizes_ok_def job_strings_def)
  have ok: "str_ok (job_name j)" "str_ok (job_device j)" "str_ok (partition_uuid j)" "str_ok (notifyRecipients j)"
    "str_ok (scriptBeforeBackup j)" "str_ok (scriptAfterBackup j)" "str_ok (intervalTime j)"
    "str_ok (encLUKSFilePath j)" "str_ok (pbs_server_uuid j)" "str_ok (pbs_server_storage j)"
    "str_ok (pbs_dest_folder j)"
    using assms(5) by (simp_all add: job_strings_def)
  have "length (ssh_targets j) < 2 ^ 31" using assms(4) by (simp add: sizes_ok_def)
  from sint_of_nat_i32 [OF this] show ?thesis
    using assms(2,3)
    by (simp add: job_get_def job_put_old_def run_simps str ok boolean u32 ids dirs targets case_prod_unfold)
qed

lemma job_restream:
  assumes "order_ok E" and "wf_interval (intervalType j)" and "wf_luks (encLUKSType j)" and "sizes_ok j"
    and "\<forall>x \<in> job_strings j. str_ok x"
  shows "run_state (job_get D obj) (job_put D E j @ r) = (j, r)"
  using job_prefix [OF assms, of obj "put_bool D (umount_after_backup j) @ r"] bool_put
  by (simp add: job_put_def boolean)

end

section \<open>The documented format\<close>

definition byte_at :: "nat \<Rightarrow> u32 \<Rightarrow> 8 word" where
  "byte_at k n = of_nat (unat n div 256 ^ k)"

definition qt_put_u32 :: "u32 \<Rightarrow> 8 word list" where
  "qt_put_u32 n = [byte_at 3 n, byte_at 2 n, byte_at 1 n, byte_at 0 n]"

fun qt_get_u32 :: "8 word list \<Rightarrow> u32 \<times> 8 word list" where
  "qt_get_u32 (a # b # c # d # r) = (of_nat (((unat a * 256 + unat b) * 256 + unat c) * 256 + unat d), r)"
| "qt_get_u32 _ = (0, [])"

definition qt_put_str :: "string \<Rightarrow> 8 word list" where
  "qt_put_str s = qt_put_u32 (of_nat (2 * length s)) @ concat (map (\<lambda>c. [0, of_nat (of_char c)]) s)"

fun code_units :: "8 word list \<Rightarrow> string" where
  "code_units (h # l # r) = char_of (unat l) # code_units r"
| "code_units _ = []"

definition qt_get_str :: "8 word list \<Rightarrow> string \<times> 8 word list" where
  "qt_get_str bs =
     (let (n, r) = qt_get_u32 bs; k = unat n in
      if n = 0xFFFFFFFF then ([], r)
      else if length r < k then ([], [])
      else (code_units (take k r), drop k r))"

definition qt_stream :: "8 word stream_codec" where
  "qt_stream = \<lparr>put_str = qt_put_str, get_str = qt_get_str,
     put_bool = (\<lambda>b. [if b then 1 else 0]),
     get_bool = (\<lambda>bs. case bs of [] \<Rightarrow> (False, []) | b # r \<Rightarrow> (b \<noteq> 0, r)),
     put_u32 = qt_put_u32, get_u32 = qt_get_u32,
     put_strs = (\<lambda>xs. qt_put_u32 (of_nat (length xs)) @ concat (map qt_put_str xs)),
     get_strs = (\<lambda>bs. let (n, r) = qt_get_u32 bs in run_state (rd_times (unat n) (rd qt_get_str)) r)\<rparr>"

definition qt_str_ok :: "string \<Rightarrow> bool" where
  "qt_str_ok s \<longleftrightarrow> length s < 2 ^ 30"

lemma qt_u32: "qt_get_u32 (qt_put_u32 n @ r) = (n, r)"
proof -
  have byte: "unat (byte_at k n) = unat n div 256 ^ k mod 256" for k
    by (simp add: byte_at_def unat_of_nat)
  let ?a = "unat n div 256" and ?b = "unat n div 256 div 256" and ?c = "unat n div 256 div 256 div 256"
  have "unat n < 4294967296" using unsigned_less [of n] by simp
  then have c: "?c < 256" by (simp add: div_mult2_eq [symmetric] less_mult_imp_div_less)
  have div: "unat n div 256 ^ 3 = ?c" "unat n div 256 ^ 2 = ?b"
    by (simp_all add: div_mult2_eq [symmetric])
  have eq: "((?c mod 256 * 256 + ?b mod 256) * 256 + ?a mod 256) * 256 + unat n mod 256 = unat n"
  proof -
    have "?c mod 256 * 256 + ?b mod 256 = ?b" using c div_mult_mod_eq [of ?b 256] by simp
    moreover have "?b * 256 + ?a mod 256 = ?a" by (rule div_mult_mod_eq)
    moreover have "?a * 256 + unat n mod 256 = unat n" by (rule div_mult_mod_eq)
    ultimately show ?thesis by (simp only:)
  qed
  show ?thesis
    unfolding qt_put_u32_def append_Cons append_Nil qt_get_u32.simps byte div power_one_right power_0 div_by_1 eq
    by simp
qed

lemma code_units_put: "code_units (concat (map (\<lambda>c. [0, of_nat (of_char c)]) s)) = s"
  by (induction s) (simp_all add: unat_of_nat nat_of_char_less_256)

lemma qt_str:
  assumes "qt_str_ok s"
  shows "qt_get_str (qt_put_str s @ r) = (s, r)"
proof -
  let ?bs = "concat (map (\<lambda>c. [0, of_nat (of_char c)]) s) :: 8 word list"
  let ?n = "of_nat (2 * length s) :: u32"
  have len: "length ?bs = 2 * length s" by (induction s) simp_all
  have n: "unat ?n = 2 * length s" using assms by (subst unat_of_nat) (simp add: qt_str_ok_def)
  have "?n \<noteq> 0xFFFFFFFF"
  proof
    assume "?n = 0xFFFFFFFF"
    then have "unat ?n = 4294967295" by simp
    with n assms show False by (simp add: qt_str_ok_def)
  qed
  moreover have "qt_get_u32 (qt_put_str s @ r) = (?n, ?bs @ r)"
    unfolding qt_put_str_def append_assoc by (rule qt_u32)
  ultimately show ?thesis
    using len n code_units_put [of s] by (simp add: qt_get_str_def Let_def)
qed

interpretation qt: data_stream qt_stream qt_str_ok
proof unfold_locales
  fix xs r assume "\<forall>x \<in> set xs. qt_str_ok x" and len: "length xs < 2 ^ 31"
  then have "run_state (rd_times (length xs) (rd qt_get_str)) (concat (map qt_put_str xs) @ r) = (xs, r)"
    by (intro rd_times_map) (simp add: run_simps qt_str)
  with len show "get_strs qt_stream (put_strs qt_stream xs @ r) = (xs, r)"
    by (simp add: qt_stream_def qt_u32 unat_of_nat)
qed (simp_all add: qt_stream_def qt_str qt_u32)

section \<open>What the streams of the types preserve\<close>

definition streamable :: "'w ext \<Rightarrow> tiBackupJob \<Rightarrow> bool" where
  "streamable E j \<longleftrightarrow> order_ok E \<and> wf_interval (intervalType j) \<and> wf_luks (encLUKSType j) \<and> sizes_ok j
     \<and> (\<forall>x \<in> job_strings j. qt_str_ok x)"

text \<open>
  C13. A job survives the stream: whatever job is read into and whatever follows in the stream,
  \<open>operator>>\<close> reads from what \<open>operator<<\<close> wrote the very job, with every folder of both kinds
  (a source may occur with several destinations), every PBS id and every SSH target, and leaves
  the stream where the job ends.
\<close>

theorem job_stream_roundtrip:
  assumes "streamable E j"
  shows "run_state (job_get qt_stream obj) (job_put qt_stream E j @ r) = (j, r)"
  using assms unfolding streamable_def by (intro qt.job_restream) blast+

definition stream_job :: tiBackupJob where
  "stream_job = (plain_job ''j'')\<lparr>backupdirs := {#(''/a'', ''/x''), (''/a'', ''/y'')#}, umount_after_backup := False,
     intervalType := INTERVAL_WEEKLY, pbs_backup_ids := [''vm/1''],
     ssh_targets := [\<lparr>t_server_uuid = ''s'', t_backupdirs = {#(''/r'', ''/z'')#}\<rparr>]\<rparr>"

lemma stream_job_ok: "streamable calm_ext stream_job"
  by (auto simp: streamable_def stream_job_def plain_job_def sizes_ok_def job_strings_def dirs_strings_def
      qt_str_ok_def wf_interval_def wf_luks_def)

theorem job_stream_roundtrip_witness:
  "run_state (job_get qt_stream (plain_job ''old'')) (job_put qt_stream calm_ext stream_job @ [1, 2]) = (stream_job, [1, 2])"
  by (rule job_stream_roundtrip [OF stream_job_ok])

text \<open>
  The job format can be read by the program that appended \<open>umount_after_backup\<close> to it: from a
  stream that ends after an old job, the job is read as it was and the flag stays that of the
  object read into, which for a new object is on.
\<close>

theorem old_job_stream:
  assumes "streamable E j"
  shows "run_state (job_get qt_stream obj) (job_put_old qt_stream E j)
    = (j\<lparr>umount_after_backup := umount_after_backup obj\<rparr>, [])"
  using qt.job_prefix [of E j obj "[]"] assms unfolding streamable_def by simp

theorem old_job_stream_witness:
  "run_state (job_get qt_stream (plain_job ''new'')) (job_put_old qt_stream calm_ext stream_job)
    = (stream_job\<lparr>umount_after_backup := True\<rparr>, [])"
  using old_job_stream [OF stream_job_ok, of "plain_job ''new''"] by (simp add: plain_job_def)

text \<open>
  Only the end of the device tells the two formats apart: an old job that something follows takes
  the first byte of what follows for its flag.
\<close>

lemma old_job_before_data:
  assumes "streamable E j"
  shows "run_state (job_get qt_stream obj) (job_put_old qt_stream E j @ b # r)
    = (j\<lparr>umount_after_backup := b \<noteq> 0\<rparr>, r)"
  using qt.job_prefix [of E j obj "b # r"] assms unfolding streamable_def by (simp add: qt_stream_def)

text \<open>
  Servers and partitions survive the stream with every field, the port at its full 32 bits.
\<close>

theorem object_stream_roundtrip:
  assumes "\<forall>x \<in> {pb_uuid p, pb_name p, pb_host p, pb_username p, pb_password p, pb_fingerprint p, pb_keyfile p,
      pb_keypass p, srv_uuid q, srv_name q, srv_host q, srv_username q, srv_keyfile q, srv_keypass q, srv_hostkey q,
      part_name d, part_uuid d, part_label d, part_type d}. length x < 2 ^ 30"
  shows "run_state (pb_get qt_stream) (pb_put qt_stream p @ r) = (p, r)
    \<and> run_state (srv_get qt_stream) (srv_put qt_stream q @ r) = (q, r)
    \<and> run_state (part_get qt_stream) (part_put qt_stream d @ r) = (d, r)"
  using assms by (intro conjI qt.pb_restream qt.srv_restream qt.part_restream) (auto simp: qt_str_ok_def)

theorem object_stream_roundtrip_witness:
  "run_state (pb_get qt_stream) (pb_put qt_stream ((new_PBServer ''{p}'')\<lparr>pb_port := 4294967295\<rparr>))
    = ((new_PBServer ''{p}'')\<lparr>pb_port := 4294967295\<rparr>, [])"
  using object_stream_roundtrip [of "(new_PBServer ''{p}'')\<lparr>pb_port := 4294967295\<rparr>" "new_SSHServer ''{q}''"
      empty_partition "[]"]
  by (simp add: new_PBServer_def new_SSHServer_def empty_partition_def strip_braces_def)

end
