(* ===== verification/Spec2Isabelle.thy ===== *)
theory Spec2Isabelle
  imports Scheduler GuestReport Observer Service DataStream
begin

text \<open>
  tiBackupLib, the core library of the tiBackup backup system (C++ with Qt): a verification
  development. The library decides when a backup job is due, runs it in a worker thread, mounts
  the target disk, copies folders with \<open>rsync\<close> from the local machine and over SSH, restores
  guests from a Proxmox Backup Server, sends a report by mail and unmounts the target; it keeps jobs
  and servers in settings files.

  The program's parts and the theories that model them, callers last:

    \<^item> Prelude, QtText: shared lemmas, and the functions of \<open>QString\<close> the source uses.
    \<^item> World: the outside. \<open>sys\<close> is the file system and the mount table with operations as Qt's; \<open>ext\<close> are
      the answers of everything that is not in the repository (started programs, udev, blkid, network,
      SMTP, users, clock), as functions that may change the system in any way; \<open>st\<close> is a system with the
      trace of what was done to it. \<open>emits\<close> and \<open>frame\<close> bound what an operation does.
    \<^item> JobData: the classes of src/obj (\<open>tiBackupJob\<close>, \<open>DeviceDisk\<close>, \<open>PBServer\<close>, \<open>SSHServer\<close>).
    \<^item> Settings, ConfMain, ConfFormat, ConfStores: \<open>QSettings\<close> groups and arrays, and ticonf.cpp: the main
      configuration with its upgrade policy, the file format of jobs and servers, the three stores.
      StoreMap: the stores as maps, for any sequence of calls. LoadedJobs: what loading can produce.
    \<^item> Scheduler: tibackupscheduler.cpp. Manager: backupmanager.cpp and the threads around it.
    \<^item> Mounts: mounting, LUKS and the mount table of tibackuplib.cpp. Devices: the enumeration of disks and
      partitions there and in obj/devicedisk.cpp. Observer: tibackupdiskobserver.cpp.
    \<^item> HttpStatus: obj/HttpStatusCodes.h. SshClient, PbsClient, Mailer: sshclient.cpp, pbsclient.cpp, tibackupmailer.cpp and obj/exitcodes.cpp.
    \<^item> Scripts, Rsync, PbsRestore, RunLaws, BackupJob: \<open>tiBackupJob::startBackup\<close> of obj/tibackupjob.cpp, by
      phase and as a whole, and the worker of workers/tibackupjobworker.cpp. RunLaws holds what all phases
      share, as the locales \<open>run_order\<close> and \<open>pbs_order\<close> of what a phase may do to the run's lists.
    \<^item> Daemon: the manager, its threads, what they run and the store they take it from as one transition
      system, and its refinement of the manager's own system.
    \<^item> PbsReport, GuestReport: what a run did for each guest of the backup server, and that its log
      entries and its mails tell it as it was.
    \<^item> DataStream: the \<open>QDataStream\<close> operators of all types.
    \<^item> Service: the run functions of tibackuplib.cpp and tibackupservice.cpp.

  State and operations. A C++ function without effects is a HOL function; one with effects is a
  \<open>State_Monad\<close> program over \<open>st\<close>, whose trace events stand for started programs, log lines, file
  operations, requests and SMTP calls, or a function on \<open>sys\<close> where only files are touched. The local
  lists of \<open>startBackup\<close> are the extra fields of \<open>bst\<close>. Integers have their C++ width (\<open>i32\<close>, \<open>u32\<close>, \<open>u16\<close>);
  a crash (an index out of range, a buffer overrun) is the result \<open>None\<close>; an early return is a branch.
  A \<open>QMultiHash\<close> is a multiset of pairs, walked in the unspecified order \<open>x_order\<close>, of which \<open>order_ok\<close>
  says only that every entry comes once.

  What is shown. Scheduler: a caller that ticks starts a job once per slot and misses none.
  Manager: at most one worker per job, in every interleaving. Configuration: the upgrade policy, and that the
  stores refine maps (locales \<open>conf_store\<close> for one call and \<open>map_store\<close> for sequences, interpreted for all three);
  every loaded job is well formed. Daemon (locale \<open>simulation\<close>): every run is reported once and with its own
  result, a job is signalled as finished only when its folders were copied, a running job can always be
  brought to an end. Mounts, Devices, Observer: what may be relied on when a
  partition was found, mounted or released. Clients: pinning of TLS and SSH keys, quoting of remote
  commands, the mail dialogue. Backup run: every folder of a job is copied once with exact arguments,
  nothing happens in an aborted run, scripts are confined and unprivileged, the report tells of every
  copy and every guest, a guest reported without an error was restored file by file and packed, the
  target is released last. DataStream: round trips (locale \<open>data_stream\<close>, interpreted on Qt's
  documented format).

  Bounds. There is no fuel: every loop of the source but one runs over a list and is structural recursion. The
  endless loop of the disk observer is modelled by its first rounds, any number of them. Sizes of arrays and
  hashes are below \<open>2 ^ 31\<close>, the range of the \<open>int\<close> they are counted in; names of disks have at most 38 bytes
  where \<open>dev_name[50]\<close> is written.

  A run is one step of the daemon: what other threads do meanwhile is in the functions of \<open>ext\<close>, which may
  change the system in any way whenever the run calls one.

  \<open>tiConfPBServers::instance\<close> and \<open>tiConfSSHServers::instance\<close> hold a configuration object each, constructed at
  their first use, in a run that has constructed its own before. Constructing it again changes no key
  (\<open>main_conf_stable\<close>), so the model reads the directories of the servers from the run's object.

  Not modelled: debug output outside the disk observer, whose messages are part of its model;
  \<open>TiBackupLib::print_device\<close>, a copy of the observer's function that nothing calls; the export macros of
  tibackuplib_global.h; the MIME encoding of a mail; destructors and mutexes, which only serialise the
  store operations; the waiting times of processes, of which the model keeps the outcome (finished, not
  started, not finished in time). Strings are lists of 8-bit characters; only fingerprints are read as
  UTF-16 units.
\<close>

section \<open>From the store to the run\<close>

lemma startBackup_saved_job:
  assumes "apart V d" and "order_ok E" and "wf_job E job" and "store_consistent E job_decode job_name d w"
    and "\<not> refused w (store_file d (job_name job))" and "key_ok (job_name job)"
  shows "getJobByName E d (job_name job) (snd (new_tiConfMain E V (saveBackupJob E d job w))) = Some job"
proof -
  have "store_consistent E job_decode job_name d (saveBackupJob E d job w)"
    using job_store.save_consistent [OF assms(2,3,5,4)] by (simp add: saveBackupJob_def)
  from getJobByName_new_tiConfMain [OF assms(1) this assms(6)]
  show ?thesis
    using job_store.find_after_save [OF assms(2,3,5,4,6)]
    by (simp add: getJobByName_def readBackupJobs_def saveBackupJob_def)
qed



end
